(* ===== verification/Cast_Prelude.thy ===== *)
theory Cast_Prelude
  imports Main "HOL-Library.Word" "HOL-Library.Char_ord"
begin

text \<open>
  The vocabulary every component of the development shares: machine integers by
  their Rust names, Rust's \<open>Result\<close> with the \<open>?\<close> operator, checked
  arithmetic, the byte classes the sources test for, and the collections of
  simplification rules the component theories extend.
\<close>

section \<open>Machine integers\<close>

type_synonym u8 = "8 word"
type_synonym u16 = "16 word"
type_synonym u32 = "32 word"
type_synonym u64 = "64 word"
type_synonym u128 = "128 word"

text \<open>A signed 32-bit integer is the word of its two's complement; \<open>sint\<close> reads it.\<close>

type_synonym i32 = "32 word"

text \<open>The largest \<open>usize\<close> of the 64-bit targets the program is built for.\<close>

definition usize_max :: nat where
  "usize_max = 2 ^ 64 - 1"

definition checked_add :: "'a::len word \<Rightarrow> 'a word \<Rightarrow> 'a word option" where
  "checked_add a b = (if unat a + unat b < 2 ^ LENGTH('a) then Some (a + b) else None)"

definition checked_mul :: "'a::len word \<Rightarrow> 'a word \<Rightarrow> 'a word option" where
  "checked_mul a b = (if unat a * unat b < 2 ^ LENGTH('a) then Some (a * b) else None)"

definition usize_checked_add :: "nat \<Rightarrow> nat \<Rightarrow> nat option" where
  "usize_checked_add a b = (if a + b \<le> usize_max then Some (a + b) else None)"

section \<open>Results\<close>

datatype ('a, 'e) result = Ok 'a | Err 'e

text \<open>The \<open>?\<close> operator: go on with the value, or return the error at once.\<close>

fun res_bind :: "('a, 'e) result \<Rightarrow> ('a \<Rightarrow> ('b, 'e) result) \<Rightarrow> ('b, 'e) result" where
  "res_bind (Ok x) f = f x"
| "res_bind (Err e) f = Err e"

text \<open>The \<open>?\<close> operator after a check that returns no value.\<close>

fun res_then :: "(unit, 'e) result \<Rightarrow> ('b, 'e) result \<Rightarrow> ('b, 'e) result" where
  "res_then (Ok u) r = r"
| "res_then (Err e) r = Err e"

fun map_err :: "('e \<Rightarrow> 'f) \<Rightarrow> ('a, 'e) result \<Rightarrow> ('a, 'f) result" where
  "map_err f (Ok x) = Ok x"
| "map_err f (Err e) = Err (f e)"

fun ok_or :: "'a option \<Rightarrow> 'e \<Rightarrow> ('a, 'e) result" where
  "ok_or (Some x) e = Ok x"
| "ok_or None e = Err e"

fun is_ok :: "('a, 'e) result \<Rightarrow> bool" where
  "is_ok (Ok x) = True"
| "is_ok (Err e) = False"

definition is_some :: "'a option \<Rightarrow> bool" where
  "is_some v \<longleftrightarrow> v \<noteq> None"

section \<open>Byte classes\<close>

definition is_ascii_digit :: "char \<Rightarrow> bool" where
  "is_ascii_digit c \<longleftrightarrow> CHR ''0'' \<le> c \<and> c \<le> CHR ''9''"

definition is_ascii_lowercase :: "char \<Rightarrow> bool" where
  "is_ascii_lowercase c \<longleftrightarrow> CHR ''a'' \<le> c \<and> c \<le> CHR ''z''"

definition is_lower_hex :: "char \<Rightarrow> bool" where
  "is_lower_hex c \<longleftrightarrow> is_ascii_digit c \<or> (CHR ''a'' \<le> c \<and> c \<le> CHR ''f'')"

section \<open>Rule collections\<close>

named_theorems result_simps \<open>decomposition of a successful chain of fallible steps\<close>

lemma res_bind_Ok_iff [result_simps]: "res_bind r f = Ok y \<longleftrightarrow> (\<exists>x. r = Ok x \<and> f x = Ok y)"
  by (cases r) auto

lemma res_then_Ok_iff [result_simps]: "res_then a r = Ok y \<longleftrightarrow> a = Ok () \<and> r = Ok y"
  by (cases a) auto

lemma map_err_Ok_iff [result_simps]: "map_err f r = Ok y \<longleftrightarrow> r = Ok y"
  by (cases r) auto

lemma ok_or_Ok_iff [result_simps]: "ok_or v e = Ok y \<longleftrightarrow> v = Some y"
  by (cases v) auto

lemma if_Err_Ok_iff [result_simps]: "(if c then Err e else r) = Ok y \<longleftrightarrow> \<not> c \<and> r = Ok y"
  by auto

lemma if_Ok_Err_iff [result_simps]: "(if c then r else Err e) = Ok y \<longleftrightarrow> c \<and> r = Ok y"
  by auto

lemma is_ok_iff: "is_ok r \<longleftrightarrow> (\<exists>x. r = Ok x)"
  by (cases r) auto

lemma is_ok_unit_iff: "is_ok r \<longleftrightarrow> r = Ok ()"
  by (cases r) auto

lemma is_some_simps [simp]: "is_some (Some x)" "\<not> is_some None"
  by (simp_all add: is_some_def)

lemma is_some_iff: "is_some v \<longleftrightarrow> (\<exists>x. v = Some x)"
  by (cases v) auto

lemma checked_add_Some_iff:
  fixes a b :: "'a::len word"
  shows "checked_add a b = Some c \<longleftrightarrow> unat a + unat b < 2 ^ LENGTH('a) \<and> c = a + b"
  by (auto simp: checked_add_def)

lemma checked_add_unat:
  fixes a b :: "'a::len word"
  assumes "checked_add a b = Some c"
  shows "unat c = unat a + unat b"
  using assms by (auto simp: checked_add_Some_iff unat_word_ariths)

lemma checked_mul_unat:
  fixes a b :: "'a::len word"
  assumes "checked_mul a b = Some c"
  shows "unat c = unat a * unat b"
  using assms by (auto simp: checked_mul_def unat_word_ariths split: if_splits)

lemma unat_word_of_nat: "n < 2 ^ LENGTH('a) \<Longrightarrow> unat (word_of_nat n :: 'a::len word) = n"
  by (simp add: unat_of_nat)

end
