(* ===== verification/Journal_Model.thy ===== *)
theory Journal_Model
  imports Cast_Prelude
begin

text \<open>
  The data of the transition journal: the record persisted for the one state
  transition in flight (\<open>transition_journal/model.rs\<close>), the identifiers it
  carries (\<open>state.rs\<close>, \<open>boot_publication.rs\<close>) and the errors of its contract
  (\<open>transition_journal/codec.rs\<close>).
\<close>

section \<open>Enumerations\<close>

datatype operation = NewState | ActivateArchived | ActiveReblit

datatype candidate_origin = Fresh | Archived | OriginActiveReblit

datatype previous_origin = ActiveState | ActiveReblitCorrupt | SynthesizedEmpty | Unmanaged

datatype abort_disposition = Rearchive | AbortQuarantine

datatype commit_disposition = CommitArchive | CommitDiscard | CommitQuarantine

datatype (plugins del: transfer "quickcheck") phase =
    Preparing
  | FreshStateAllocating
  | FreshStateAllocated
  | CandidatePrepareStarted
  | CandidatePrepared
  | TransactionTriggersStarted
  | TransactionTriggersComplete
  | UsrExchangeIntent
  | UsrExchanged
  | RootLinksComplete
  | SystemTriggersStarted
  | SystemTriggersComplete
  | PreviousArchiveIntent
  | PreviousArchived
  | BootSyncStarted
  | BootSyncComplete
  | CommitDecided
  | CommitCleanupComplete
  | Complete
  | RollbackDecided
  | PreviousRestoreIntent
  | PreviousRestoredToStaging
  | ReverseExchangeIntent
  | UsrRestored
  | CandidatePreserveIntent
  | CandidatePreserved
  | FreshDbInvalidationIntent
  | FreshDbInvalidated
  | BootRepairRequired
  | BootRepairStarted
  | BootRepairComplete
  | BootRepairUnverified
  | RollbackComplete

text \<open>The forward phases are a type of their own; their constructors carry an \<open>F\<close>.\<close>

datatype (plugins del: transfer "quickcheck") forward_phase =
    FPreparing
  | FFreshStateAllocating
  | FFreshStateAllocated
  | FCandidatePrepareStarted
  | FCandidatePrepared
  | FTransactionTriggersStarted
  | FTransactionTriggersComplete
  | FUsrExchangeIntent
  | FUsrExchanged
  | FRootLinksComplete
  | FSystemTriggersStarted
  | FSystemTriggersComplete
  | FPreviousArchiveIntent
  | FPreviousArchived
  | FBootSyncStarted
  | FBootSyncComplete
  | FCommitDecided
  | FCommitCleanupComplete
  | FComplete

datatype rollback_action = NotRequired | Pending | Applied | AlreadySatisfied

datatype boot_rollback =
    BootNotRequired
  | BootPendingUnverifiable
  | BootApplied
  | BootAlreadySatisfied
  | BootUnverified

section \<open>Identifiers\<close>

datatype quarantine_name = QuarantineName string

datatype boot_id = BootId string

datatype tree_token = TreeToken string

datatype transition_id = TransitionId string

text \<open>A receipt fingerprint is an array of 32 bytes.\<close>

datatype receipt_fingerprint = ReceiptFingerprint "u8 list"

record receipt_pair =
  committed :: "receipt_fingerprint option"
  pending :: receipt_fingerprint

section \<open>Structures\<close>

record mount_namespace_identity =
  mnt_st_dev :: u64
  mnt_inode :: u64

record runtime_epoch =
  epoch_boot_id :: boot_id
  epoch_mount_namespace :: mount_namespace_identity

record runtime_tree_identity =
  tree_st_dev :: u64
  tree_inode :: u64
  tree_mount_id :: u64

record candidate =
  cand_id :: "i32 option"
  cand_origin :: candidate_origin
  cand_tree_token :: tree_token
  cand_usr_runtime_identity :: runtime_tree_identity

record previous =
  prev_id :: "i32 option"
  prev_tree_token :: tree_token
  prev_usr_runtime_identity :: runtime_tree_identity
  prev_origin :: previous_origin

record transition_options =
  archive_previous :: bool
  run_system_triggers :: bool
  run_boot_sync :: bool

record candidate_rollback =
  cr_action :: rollback_action
  cr_disposition :: abort_disposition

record rollback_plan =
  plan_source :: forward_phase
  plan_previous_archive :: rollback_action
  plan_usr_exchange :: rollback_action
  plan_candidate :: candidate_rollback
  plan_fresh_db :: rollback_action
  plan_boot :: boot_rollback
  plan_external_effects_may_remain :: bool

record transition_record =
  rec_format :: string
  rec_version :: u16
  rec_generation :: u64
  rec_transition_id :: transition_id
  rec_creation_epoch :: runtime_epoch
  rec_operation :: operation
  rec_phase :: phase
  rec_rollback :: "rollback_plan option"
  rec_receipts :: "receipt_pair option"
  rec_candidate :: candidate
  rec_previous :: previous
  rec_options :: transition_options
  rec_quarantine_name :: quarantine_name

section \<open>Errors of the record contract\<close>

text \<open>
  The underlying JSON error is opaque to the journal; its constructor carries the
  rendered message.
\<close>

datatype (plugins del: transfer "quickcheck") codec_error =
    RecordTooLarge nat
  | TruncatedHeader nat
  | InvalidMagic
  | UnsupportedFrameVersion u16
  | LengthMismatch nat nat
  | ChecksumMismatch
  | Json string
  | NonCanonicalPayload
  | UnsupportedPayloadFormat string
  | UnsupportedPayloadVersion u16
  | PayloadVersionPhaseMismatch u16 phase
  | PayloadVersionBootRollbackMismatch u16 boot_rollback
  | PayloadVersionBootPublicationReceiptsMismatch u16
  | BootPublicationReceiptPresenceMismatch phase bool
  | ZeroGeneration
  | GenerationExhausted
  | GenerationMismatch u64 u64
  | InvalidBootId
  | InvalidTreeToken
  | InvalidQuarantineName
  | InvalidStateId i32
  | OperationOriginMismatch operation candidate_origin
  | ExistingCandidateStateMissing
  | CandidateStateLayout
  | ActiveReblitStateMismatch
  | ArchivedActivationStateMismatch
  | PreviousOriginStateMismatch previous_origin "i32 option"
  | PreviousOriginOperationMismatch operation previous_origin
  | ArchiveOptionMismatch previous_origin bool
  | ZeroMountNamespaceIdentity
  | ZeroRuntimeTreeIdentity
  | RollbackPlanOnForwardPhase
  | MissingRollbackPlan
  | InvalidRollbackSource forward_phase
  | DisabledPhase phase
  | FreshPhaseForExistingCandidate
  | CandidatePreviousTreeTokenCollision
  | CandidatePreviousObjectCollision
  | CandidatePreviousFilesystemMismatch u64 u64
  | CandidatePreviousMountMismatch u64 u64
  | CandidatePreviousStateCollision
  | InvalidRollbackRequirement string rollback_action bool
  | InvalidBootRollbackRequirement
  | InvalidCandidateDisposition operation forward_phase abort_disposition abort_disposition
  | InvalidExternalEffectsEvidence bool bool
  | RollbackPlanPhaseMismatch phase
  | TransitionChanged
  | ImmutableTransitionDataChanged
  | TerminalPhaseAdvance
  | IllegalPhaseAdvance phase phase
  | RollbackPlanChangedIllegally
  | RollbackActionOutcomeMismatch
  | ExplicitBootRepairSuccessorRequired phase
  | ExplicitBootSyncStartedSuccessorRequired
  | ExplicitBootSyncCompleteSuccessorRequired
  | BootPublicationReceiptsChangedIllegally
  | CandidateStateChangedIllegally

definition MAX_QUARANTINE_NAME_BYTES :: nat where
  "MAX_QUARANTINE_NAME_BYTES = 128"

definition PAYLOAD_FORMAT :: string where
  "PAYLOAD_FORMAT = ''cast-state-transition''"

definition PAYLOAD_VERSION_V1 :: u16 where
  "PAYLOAD_VERSION_V1 = 1"

definition PAYLOAD_VERSION_V2 :: u16 where
  "PAYLOAD_VERSION_V2 = 2"

definition PAYLOAD_VERSION :: u16 where
  "PAYLOAD_VERSION = 3"

section \<open>Constructors and checks of the identifiers\<close>

definition quarantine_name_parse :: "string \<Rightarrow> (quarantine_name, codec_error) result" where
  "quarantine_name_parse v =
     (if v = [] \<or> length v > MAX_QUARANTINE_NAME_BYTES \<or> v = ''.'' \<or> v = ''..''
         \<or> list_ex (\<lambda>b. \<not> is_ascii_lowercase b \<and> \<not> is_ascii_digit b
                        \<and> b \<notin> {CHR ''-'', CHR ''_'', CHR ''.''}) v
      then Err InvalidQuarantineName
      else Ok (QuarantineName v))"

definition boot_id_text_length :: nat where
  "boot_id_text_length = 36"

fun boot_id_validate :: "boot_id \<Rightarrow> (unit, codec_error) result" where
  "boot_id_validate (BootId bytes) =
     (let canonical = length bytes = boot_id_text_length
            \<and> list_all (\<lambda>(index, byte). if index \<in> {8, 13, 18, 23} then byte = CHR ''-''
                                        else is_lower_hex byte)
                       (zip [0..<length bytes] bytes);
          nonzero = list_ex (\<lambda>byte. byte \<notin> {CHR ''0'', CHR ''-''}) bytes
      in if \<not> canonical \<or> \<not> nonzero then Err InvalidBootId else Ok ())"

definition boot_id_parse :: "string \<Rightarrow> (boot_id, codec_error) result" where
  "boot_id_parse v = res_then (boot_id_validate (BootId v)) (Ok (BootId v))"

definition tree_token_text_length :: nat where
  "tree_token_text_length = 32"

fun tree_token_validate :: "tree_token \<Rightarrow> (unit, codec_error) result" where
  "tree_token_validate (TreeToken bytes) =
     (if length bytes \<noteq> tree_token_text_length \<or> \<not> list_all is_lower_hex bytes
         \<or> list_all (\<lambda>b. b = CHR ''0'') bytes
      then Err InvalidTreeToken else Ok ())"

definition tree_token_parse :: "string \<Rightarrow> (tree_token, codec_error) result" where
  "tree_token_parse v = res_then (tree_token_validate (TreeToken v)) (Ok (TreeToken v))"

datatype transition_id_error = TransitionIdError

definition transition_id_parse :: "string \<Rightarrow> (transition_id, transition_id_error) result" where
  "transition_id_parse v =
     (if length v \<noteq> 32 \<or> \<not> list_all is_lower_hex v then Err TransitionIdError
      else Ok (TransitionId v))"

section \<open>Commit disposition\<close>

definition commit_disposition_of :: "transition_record \<Rightarrow> commit_disposition" where
  "commit_disposition_of r =
     (case prev_origin (rec_previous r) of
        ActiveState \<Rightarrow> CommitArchive
      | ActiveReblitCorrupt \<Rightarrow> CommitDiscard
      | SynthesizedEmpty \<Rightarrow> CommitDiscard
      | Unmanaged \<Rightarrow> CommitQuarantine)"

section \<open>Canonical text of the identifiers\<close>

lemma quarantine_name_parse_Ok:
  assumes "quarantine_name_parse v = Ok q"
  shows "q = QuarantineName v" "v \<noteq> []" "length v \<le> 128" "v \<noteq> ''.''" "v \<noteq> ''..''" "CHR ''/'' \<notin> set v"
  using assms
  by (auto simp: quarantine_name_parse_def MAX_QUARANTINE_NAME_BYTES_def list_ex_iff
      is_ascii_lowercase_def is_ascii_digit_def split: if_splits)

lemma tree_token_validate_Ok:
  "tree_token_validate (TreeToken v) = Ok () \<longleftrightarrow>
     length v = 32 \<and> list_all is_lower_hex v \<and> (\<exists>c \<in> set v. c \<noteq> CHR ''0'')"
  by (auto simp: tree_token_text_length_def list_all_iff)

lemma boot_id_parse_Ok_iff: "boot_id_parse v = Ok b \<longleftrightarrow> b = BootId v \<and> boot_id_validate b = Ok ()"
  by (auto simp: boot_id_parse_def result_simps simp del: boot_id_validate.simps)

end
