(* ===== verification/Journal_Validation.thy ===== *)
theory Journal_Validation
  imports Journal_Model
begin

text \<open>
  The record contract of the transition journal
  (\<open>transition_journal/validation.rs\<close>): which records are well formed
  (\<open>validate\<close>) and which pairs of records are one legal step
  (\<open>validate_advance\<close>), check by check in the source's order.
\<close>

section \<open>Phases\<close>

fun ordinal :: "forward_phase \<Rightarrow> nat" where
  "ordinal FPreparing = 0"
| "ordinal FFreshStateAllocating = 1"
| "ordinal FFreshStateAllocated = 2"
| "ordinal FCandidatePrepareStarted = 3"
| "ordinal FCandidatePrepared = 4"
| "ordinal FTransactionTriggersStarted = 5"
| "ordinal FTransactionTriggersComplete = 6"
| "ordinal FUsrExchangeIntent = 7"
| "ordinal FUsrExchanged = 8"
| "ordinal FRootLinksComplete = 9"
| "ordinal FSystemTriggersStarted = 10"
| "ordinal FSystemTriggersComplete = 11"
| "ordinal FPreviousArchiveIntent = 12"
| "ordinal FPreviousArchived = 13"
| "ordinal FBootSyncStarted = 14"
| "ordinal FBootSyncComplete = 15"
| "ordinal FCommitDecided = 16"
| "ordinal FCommitCleanupComplete = 17"
| "ordinal FComplete = 18"

fun phase_of_forward :: "forward_phase \<Rightarrow> phase" where
  "phase_of_forward FPreparing = Preparing"
| "phase_of_forward FFreshStateAllocating = FreshStateAllocating"
| "phase_of_forward FFreshStateAllocated = FreshStateAllocated"
| "phase_of_forward FCandidatePrepareStarted = CandidatePrepareStarted"
| "phase_of_forward FCandidatePrepared = CandidatePrepared"
| "phase_of_forward FTransactionTriggersStarted = TransactionTriggersStarted"
| "phase_of_forward FTransactionTriggersComplete = TransactionTriggersComplete"
| "phase_of_forward FUsrExchangeIntent = UsrExchangeIntent"
| "phase_of_forward FUsrExchanged = UsrExchanged"
| "phase_of_forward FRootLinksComplete = RootLinksComplete"
| "phase_of_forward FSystemTriggersStarted = SystemTriggersStarted"
| "phase_of_forward FSystemTriggersComplete = SystemTriggersComplete"
| "phase_of_forward FPreviousArchiveIntent = PreviousArchiveIntent"
| "phase_of_forward FPreviousArchived = PreviousArchived"
| "phase_of_forward FBootSyncStarted = BootSyncStarted"
| "phase_of_forward FBootSyncComplete = BootSyncComplete"
| "phase_of_forward FCommitDecided = CommitDecided"
| "phase_of_forward FCommitCleanupComplete = CommitCleanupComplete"
| "phase_of_forward FComplete = Complete"

fun forward :: "phase \<Rightarrow> forward_phase option" where
  "forward Preparing = Some FPreparing"
| "forward FreshStateAllocating = Some FFreshStateAllocating"
| "forward FreshStateAllocated = Some FFreshStateAllocated"
| "forward CandidatePrepareStarted = Some FCandidatePrepareStarted"
| "forward CandidatePrepared = Some FCandidatePrepared"
| "forward TransactionTriggersStarted = Some FTransactionTriggersStarted"
| "forward TransactionTriggersComplete = Some FTransactionTriggersComplete"
| "forward UsrExchangeIntent = Some FUsrExchangeIntent"
| "forward UsrExchanged = Some FUsrExchanged"
| "forward RootLinksComplete = Some FRootLinksComplete"
| "forward SystemTriggersStarted = Some FSystemTriggersStarted"
| "forward SystemTriggersComplete = Some FSystemTriggersComplete"
| "forward PreviousArchiveIntent = Some FPreviousArchiveIntent"
| "forward PreviousArchived = Some FPreviousArchived"
| "forward BootSyncStarted = Some FBootSyncStarted"
| "forward BootSyncComplete = Some FBootSyncComplete"
| "forward CommitDecided = Some FCommitDecided"
| "forward CommitCleanupComplete = Some FCommitCleanupComplete"
| "forward Complete = Some FComplete"
| "forward RollbackDecided = None"
| "forward PreviousRestoreIntent = None"
| "forward PreviousRestoredToStaging = None"
| "forward ReverseExchangeIntent = None"
| "forward UsrRestored = None"
| "forward CandidatePreserveIntent = None"
| "forward CandidatePreserved = None"
| "forward FreshDbInvalidationIntent = None"
| "forward FreshDbInvalidated = None"
| "forward BootRepairRequired = None"
| "forward BootRepairStarted = None"
| "forward BootRepairComplete = None"
| "forward BootRepairUnverified = None"
| "forward RollbackComplete = None"

definition blocks_advance :: "phase \<Rightarrow> bool" where
  "blocks_advance p \<longleftrightarrow> p \<in> {Complete, BootRepairUnverified, RollbackComplete}"

definition deletable :: "phase \<Rightarrow> bool" where
  "deletable p \<longleftrightarrow> p \<in> {Complete, RollbackComplete}"

section \<open>Rollback actions\<close>

definition required :: "rollback_action \<Rightarrow> bool" where
  "required a \<longleftrightarrow> a \<noteq> NotRequired"

definition resolved :: "rollback_action \<Rightarrow> bool" where
  "resolved a \<longleftrightarrow> a \<in> {Applied, AlreadySatisfied}"

definition rollback_actions :: "rollback_plan \<Rightarrow> rollback_action list" where
  "rollback_actions plan =
     [plan_previous_archive plan, plan_usr_exchange plan, cr_action (plan_candidate plan),
      plan_fresh_db plan]"

definition ordinary_actions_resolved :: "rollback_plan \<Rightarrow> bool" where
  "ordinary_actions_resolved plan \<longleftrightarrow>
     list_all (\<lambda>a. a = NotRequired \<or> resolved a) (rollback_actions plan)"

definition rollback_action_phase :: "phase \<Rightarrow> (nat \<times> bool) option" where
  "rollback_action_phase p =
     (case p of
        PreviousRestoreIntent \<Rightarrow> Some (0, False)
      | PreviousRestoredToStaging \<Rightarrow> Some (0, True)
      | ReverseExchangeIntent \<Rightarrow> Some (1, False)
      | UsrRestored \<Rightarrow> Some (1, True)
      | CandidatePreserveIntent \<Rightarrow> Some (2, False)
      | CandidatePreserved \<Rightarrow> Some (2, True)
      | FreshDbInvalidationIntent \<Rightarrow> Some (3, False)
      | FreshDbInvalidated \<Rightarrow> Some (3, True)
      | _ \<Rightarrow> None)"

definition boot_undecided :: "rollback_plan \<Rightarrow> bool" where
  "boot_undecided plan \<longleftrightarrow> plan_boot plan \<in> {BootNotRequired, BootPendingUnverifiable}"

definition rollback_phase_matches :: "nat \<Rightarrow> bool \<Rightarrow> rollback_plan \<Rightarrow> bool" where
  "rollback_phase_matches current completed plan \<longleftrightarrow>
     (let actions = rollback_actions plan
      in list_all (\<lambda>a. a = NotRequired \<or> resolved a) (take current actions)
         \<and> (if completed then resolved (actions ! current) else actions ! current = Pending)
         \<and> list_all (\<lambda>a. a \<noteq> Applied) (drop (current + 1) actions)
         \<and> boot_undecided plan)"

definition validate_rollback_phase :: "phase \<Rightarrow> rollback_plan \<Rightarrow> (unit, codec_error) result" where
  "validate_rollback_phase p plan =
     (let mismatch = Err (RollbackPlanPhaseMismatch p)
      in if p = RollbackDecided then
           (if list_all (\<lambda>a. a \<noteq> Applied) (rollback_actions plan) \<and> boot_undecided plan
            then Ok () else mismatch)
         else if p \<in> {BootRepairRequired, BootRepairStarted} then
           (if ordinary_actions_resolved plan \<and> plan_boot plan = BootPendingUnverifiable
            then Ok () else mismatch)
         else if p = BootRepairComplete then
           (if ordinary_actions_resolved plan \<and> plan_boot plan \<in> {BootApplied, BootAlreadySatisfied}
            then Ok () else mismatch)
         else if p = BootRepairUnverified then
           (if ordinary_actions_resolved plan \<and> plan_boot plan = BootUnverified
            then Ok () else mismatch)
         else if p = RollbackComplete then
           (if ordinary_actions_resolved plan
               \<and> plan_boot plan \<in> {BootNotRequired, BootApplied, BootAlreadySatisfied}
            then Ok () else mismatch)
         else
           (case rollback_action_phase p of
              None \<Rightarrow> Err RollbackPlanOnForwardPhase
            | Some (current, completed) \<Rightarrow>
                (if rollback_phase_matches current completed plan then Ok () else mismatch)))"

definition first_pending :: "rollback_plan \<Rightarrow> phase option" where
  "first_pending plan =
     map_option snd
       (List.find (\<lambda>(action, intent). action = Pending)
          (zip (rollback_actions plan)
             [PreviousRestoreIntent, ReverseExchangeIntent, CandidatePreserveIntent,
              FreshDbInvalidationIntent]))"

definition next_pending_phase :: "rollback_plan \<Rightarrow> phase option" where
  "next_pending_phase plan =
     (case first_pending plan of
        Some intent \<Rightarrow> Some intent
      | None \<Rightarrow> (case plan_boot plan of
                  BootPendingUnverifiable \<Rightarrow> Some BootRepairRequired
                | BootNotRequired \<Rightarrow> Some RollbackComplete
                | _ \<Rightarrow> None))"

definition next_rollback_phase :: "rollback_plan \<Rightarrow> phase \<Rightarrow> phase option" where
  "next_rollback_phase plan current =
     (case current of
        PreviousRestoreIntent \<Rightarrow> Some PreviousRestoredToStaging
      | ReverseExchangeIntent \<Rightarrow> Some UsrRestored
      | CandidatePreserveIntent \<Rightarrow> Some CandidatePreserved
      | FreshDbInvalidationIntent \<Rightarrow> Some FreshDbInvalidated
      | BootRepairRequired \<Rightarrow> Some BootRepairStarted
      | BootRepairStarted \<Rightarrow> Some BootRepairUnverified
      | BootRepairComplete \<Rightarrow> Some RollbackComplete
      | BootRepairUnverified \<Rightarrow> None
      | RollbackComplete \<Rightarrow> None
      | RollbackDecided \<Rightarrow> next_pending_phase plan
      | PreviousRestoredToStaging \<Rightarrow> next_pending_phase plan
      | UsrRestored \<Rightarrow> next_pending_phase plan
      | CandidatePreserved \<Rightarrow> next_pending_phase plan
      | FreshDbInvalidated \<Rightarrow> next_pending_phase plan
      | _ \<Rightarrow> None)"

definition completed_action :: "phase \<Rightarrow> phase \<Rightarrow> nat option" where
  "completed_action current_phase next_phase =
     (if (current_phase, next_phase) = (PreviousRestoreIntent, PreviousRestoredToStaging) then Some 0
      else if (current_phase, next_phase) = (ReverseExchangeIntent, UsrRestored) then Some 1
      else if (current_phase, next_phase) = (CandidatePreserveIntent, CandidatePreserved) then Some 2
      else if (current_phase, next_phase) = (FreshDbInvalidationIntent, FreshDbInvalidated) then Some 3
      else None)"

definition boot_advance_ok :: "boot_rollback \<Rightarrow> boot_rollback \<Rightarrow> phase \<Rightarrow> phase \<Rightarrow> bool" where
  "boot_advance_ok before after current_phase next_phase \<longleftrightarrow>
     (current_phase, next_phase) = (BootRepairStarted, BootRepairUnverified)
       \<and> before = BootPendingUnverifiable \<and> after = BootUnverified
     \<or> (current_phase, next_phase) = (BootRepairStarted, BootRepairComplete)
       \<and> before = BootPendingUnverifiable \<and> after \<in> {BootApplied, BootAlreadySatisfied}
     \<or> before = after"

definition validate_rollback_plan_advance ::
    "rollback_plan \<Rightarrow> rollback_plan \<Rightarrow> phase \<Rightarrow> phase \<Rightarrow> (unit, codec_error) result" where
  "validate_rollback_plan_advance expected nxt current_phase next_phase =
     (if plan_source expected \<noteq> plan_source nxt
         \<or> cr_disposition (plan_candidate expected) \<noteq> cr_disposition (plan_candidate nxt)
         \<or> plan_external_effects_may_remain expected \<noteq> plan_external_effects_may_remain nxt
      then Err RollbackPlanChangedIllegally
      else if \<not> list_all
              (\<lambda>(index, before, after).
                 if Some index = completed_action current_phase next_phase
                 then before = Pending \<and> resolved after
                 else before = after)
              (zip [0..<4] (zip (rollback_actions expected) (rollback_actions nxt)))
      then Err RollbackPlanChangedIllegally
      else if \<not> boot_advance_ok (plan_boot expected) (plan_boot nxt) current_phase next_phase
      then Err RollbackPlanChangedIllegally
      else Ok ())"

section \<open>Checks on the runtime evidence\<close>

definition mount_namespace_validate :: "mount_namespace_identity \<Rightarrow> (unit, codec_error) result" where
  "mount_namespace_validate m =
     (if mnt_st_dev m = 0 \<or> mnt_inode m = 0 then Err ZeroMountNamespaceIdentity else Ok ())"

definition runtime_epoch_validate :: "runtime_epoch \<Rightarrow> (unit, codec_error) result" where
  "runtime_epoch_validate e =
     res_then (boot_id_validate (epoch_boot_id e)) (mount_namespace_validate (epoch_mount_namespace e))"

definition runtime_tree_validate :: "runtime_tree_identity \<Rightarrow> (unit, codec_error) result" where
  "runtime_tree_validate t =
     (if tree_st_dev t = 0 \<or> tree_inode t = 0 \<or> tree_mount_id t = 0
      then Err ZeroRuntimeTreeIdentity else Ok ())"

definition same_object :: "runtime_tree_identity \<Rightarrow> runtime_tree_identity \<Rightarrow> bool" where
  "same_object a b \<longleftrightarrow> tree_st_dev a = tree_st_dev b \<and> tree_inode a = tree_inode b"

definition require_option_presence ::
    "'a option \<Rightarrow> bool \<Rightarrow> codec_error \<Rightarrow> (unit, codec_error) result" where
  "require_option_presence v need error = (if is_some v \<noteq> need then Err error else Ok ())"

section \<open>Checks on a record\<close>

definition runs_transaction_triggers :: "transition_record \<Rightarrow> bool" where
  "runs_transaction_triggers r \<longleftrightarrow> rec_operation r \<in> {NewState, ActiveReblit}"

definition candidate_disposition_for :: "transition_record \<Rightarrow> forward_phase \<Rightarrow> abort_disposition" where
  "candidate_disposition_for r source =
     (case rec_operation r of
        NewState \<Rightarrow> AbortQuarantine
      | ActiveReblit \<Rightarrow> AbortQuarantine
      | ActivateArchived \<Rightarrow> if source = FSystemTriggersStarted then AbortQuarantine else Rearchive)"

definition next_forward_phase :: "transition_record \<Rightarrow> forward_phase \<Rightarrow> forward_phase option" where
  "next_forward_phase r current =
     (let after_archive = (if run_boot_sync (rec_options r) then FBootSyncStarted else FCommitDecided);
          after_system = (if archive_previous (rec_options r) then FPreviousArchiveIntent
                          else if run_boot_sync (rec_options r) then FBootSyncStarted
                          else FCommitDecided)
      in case current of
           FPreparing \<Rightarrow> Some (if rec_operation r = NewState then FFreshStateAllocating
                              else FCandidatePrepareStarted)
         | FFreshStateAllocating \<Rightarrow> Some FFreshStateAllocated
         | FFreshStateAllocated \<Rightarrow> Some FCandidatePrepareStarted
         | FCandidatePrepareStarted \<Rightarrow> Some FCandidatePrepared
         | FCandidatePrepared \<Rightarrow> Some (if runs_transaction_triggers r then FTransactionTriggersStarted
                                      else FUsrExchangeIntent)
         | FTransactionTriggersStarted \<Rightarrow> Some FTransactionTriggersComplete
         | FTransactionTriggersComplete \<Rightarrow> Some FUsrExchangeIntent
         | FUsrExchangeIntent \<Rightarrow> Some FUsrExchanged
         | FUsrExchanged \<Rightarrow> Some FRootLinksComplete
         | FRootLinksComplete \<Rightarrow> Some (if run_system_triggers (rec_options r) then FSystemTriggersStarted
                                      else after_system)
         | FSystemTriggersStarted \<Rightarrow> Some FSystemTriggersComplete
         | FSystemTriggersComplete \<Rightarrow> Some after_system
         | FPreviousArchiveIntent \<Rightarrow> Some FPreviousArchived
         | FPreviousArchived \<Rightarrow> Some after_archive
         | FBootSyncStarted \<Rightarrow> Some FBootSyncComplete
         | FBootSyncComplete \<Rightarrow> Some FCommitDecided
         | FCommitDecided \<Rightarrow> Some FCommitCleanupComplete
         | FCommitCleanupComplete \<Rightarrow> Some FComplete
         | FComplete \<Rightarrow> None)"

definition rollback_allowed :: "transition_record \<Rightarrow> forward_phase \<Rightarrow> bool" where
  "rollback_allowed r source \<longleftrightarrow> ordinal source < ordinal FCommitDecided \<and> source \<noteq> FBootSyncComplete"

definition validate_boot_publication_receipts ::
    "transition_record \<Rightarrow> forward_phase \<Rightarrow> (unit, codec_error) result" where
  "validate_boot_publication_receipts r layout_phase =
     (if rec_version r \<in> {PAYLOAD_VERSION_V1, PAYLOAD_VERSION_V2} then
        (if rec_receipts r = None then Ok ()
         else Err (PayloadVersionBootPublicationReceiptsMismatch (rec_version r)))
      else
        (let need = run_boot_sync (rec_options r) \<and> ordinal layout_phase \<ge> ordinal FBootSyncStarted
         in if is_some (rec_receipts r) = need then Ok ()
            else Err (BootPublicationReceiptPresenceMismatch (rec_phase r) need)))"

definition validate_option_reachability ::
    "transition_record \<Rightarrow> forward_phase \<Rightarrow> (unit, codec_error) result" where
  "validate_option_reachability r p =
     (if p \<in> {FFreshStateAllocating, FFreshStateAllocated} \<and> rec_operation r \<noteq> NewState
      then Err FreshPhaseForExistingCandidate
      else if p \<in> {FTransactionTriggersStarted, FTransactionTriggersComplete}
              \<and> \<not> runs_transaction_triggers r
      then Err (DisabledPhase (phase_of_forward p))
      else if p \<in> {FSystemTriggersStarted, FSystemTriggersComplete}
              \<and> \<not> run_system_triggers (rec_options r)
      then Err (DisabledPhase (phase_of_forward p))
      else if p \<in> {FPreviousArchiveIntent, FPreviousArchived} \<and> \<not> archive_previous (rec_options r)
      then Err (DisabledPhase (phase_of_forward p))
      else if p \<in> {FBootSyncStarted, FBootSyncComplete} \<and> \<not> run_boot_sync (rec_options r)
      then Err (DisabledPhase (phase_of_forward p))
      else Ok ())"

definition validate_candidate_layout ::
    "transition_record \<Rightarrow> forward_phase \<Rightarrow> (unit, codec_error) result" where
  "validate_candidate_layout r p =
     (let candidate_id = cand_id (rec_candidate r)
      in case rec_operation r of
           NewState \<Rightarrow>
             (case p of
                FPreparing \<Rightarrow> require_option_presence candidate_id False CandidateStateLayout
              | FFreshStateAllocating \<Rightarrow>
                  (case rec_rollback r of
                     None \<Rightarrow> require_option_presence candidate_id False CandidateStateLayout
                   | Some rollback \<Rightarrow>
                       (case plan_fresh_db rollback of
                          Pending \<Rightarrow> require_option_presence candidate_id True CandidateStateLayout
                        | Applied \<Rightarrow> require_option_presence candidate_id True CandidateStateLayout
                        | AlreadySatisfied \<Rightarrow> Ok ()
                        | NotRequired \<Rightarrow> require_option_presence candidate_id False CandidateStateLayout))
              | _ \<Rightarrow> require_option_presence candidate_id True CandidateStateLayout)
         | _ \<Rightarrow> if candidate_id = None then Err ExistingCandidateStateMissing else Ok ())"

definition validate_operation_states :: "transition_record \<Rightarrow> (unit, codec_error) result" where
  "validate_operation_states r =
     (let candidate_id = cand_id (rec_candidate r); previous_id = prev_id (rec_previous r);
          origin = prev_origin (rec_previous r)
      in case rec_operation r of
           ActiveReblit \<Rightarrow>
             (if origin \<noteq> ActiveReblitCorrupt \<or> previous_id = None \<or> candidate_id \<noteq> previous_id
              then Err ActiveReblitStateMismatch else Ok ())
         | ActivateArchived \<Rightarrow>
             (if origin \<noteq> ActiveState \<or> previous_id = None \<or> candidate_id = None
              then Err ArchivedActivationStateMismatch
              else if is_some candidate_id \<and> candidate_id = previous_id
              then Err CandidatePreviousStateCollision else Ok ())
         | NewState \<Rightarrow>
             (if origin = ActiveState \<and> previous_id = None
              then Err (PreviousOriginStateMismatch origin previous_id)
              else if origin \<in> {SynthesizedEmpty, Unmanaged} \<and> is_some previous_id
              then Err (PreviousOriginStateMismatch origin previous_id)
              else if origin = ActiveReblitCorrupt
              then Err (PreviousOriginOperationMismatch (rec_operation r) origin)
              else if is_some candidate_id \<and> candidate_id = previous_id
              then Err CandidatePreviousStateCollision else Ok ()))"

definition validate_relationships :: "transition_record \<Rightarrow> (unit, codec_error) result" where
  "validate_relationships r =
     (if cand_tree_token (rec_candidate r) = prev_tree_token (rec_previous r)
      then Err CandidatePreviousTreeTokenCollision
      else
        (let candidate = cand_usr_runtime_identity (rec_candidate r);
             previous = prev_usr_runtime_identity (rec_previous r);
             archive = (prev_origin (rec_previous r) = ActiveState)
         in if same_object candidate previous then Err CandidatePreviousObjectCollision
            else if tree_st_dev candidate \<noteq> tree_st_dev previous
            then Err (CandidatePreviousFilesystemMismatch (tree_st_dev candidate) (tree_st_dev previous))
            else if tree_mount_id candidate \<noteq> tree_mount_id previous
            then Err (CandidatePreviousMountMismatch (tree_mount_id candidate) (tree_mount_id previous))
            else if archive_previous (rec_options r) \<noteq> archive
            then Err (ArchiveOptionMismatch (prev_origin (rec_previous r)) (archive_previous (rec_options r)))
            else validate_operation_states r))"

definition validate_rollback_requirement ::
    "string \<Rightarrow> rollback_action \<Rightarrow> bool \<Rightarrow> (unit, codec_error) result" where
  "validate_rollback_requirement action status possible =
     (if possible = required status then Ok () else Err (InvalidRollbackRequirement action status possible))"

definition external_effects_expected :: "transition_record \<Rightarrow> forward_phase \<Rightarrow> bool" where
  "external_effects_expected r source \<longleftrightarrow>
     runs_transaction_triggers r \<and> ordinal source \<ge> ordinal FTransactionTriggersStarted
     \<or> run_system_triggers (rec_options r) \<and> ordinal source \<ge> ordinal FSystemTriggersStarted
     \<or> source = FBootSyncStarted"

definition validate_rollback_plan :: "transition_record \<Rightarrow> rollback_plan \<Rightarrow> (unit, codec_error) result" where
  "validate_rollback_plan r rollback =
     (let source = plan_source rollback
      in res_then (validate_rollback_requirement ''previous-archive'' (plan_previous_archive rollback)
           (archive_previous (rec_options r) \<and> ordinal source \<ge> ordinal FPreviousArchiveIntent))
        (res_then (validate_rollback_requirement ''usr-exchange'' (plan_usr_exchange rollback)
           (ordinal source \<ge> ordinal FUsrExchangeIntent))
        (res_then (validate_rollback_requirement ''candidate'' (cr_action (plan_candidate rollback)) True)
        (res_then (validate_rollback_requirement ''fresh-db'' (plan_fresh_db rollback)
           (rec_operation r = NewState \<and> ordinal source \<ge> ordinal FFreshStateAllocating))
        (if (source = FBootSyncStarted) = (plan_boot rollback = BootNotRequired)
         then Err InvalidBootRollbackRequirement
         else
           (let expected_disposition = candidate_disposition_for r source;
                actual = cr_disposition (plan_candidate rollback);
                effects = external_effects_expected r source
            in if actual \<noteq> expected_disposition
               then Err (InvalidCandidateDisposition (rec_operation r) source expected_disposition actual)
               else if plan_external_effects_may_remain rollback \<noteq> effects
               then Err (InvalidExternalEffectsEvidence effects (plan_external_effects_may_remain rollback))
               else Ok ()))))))"

definition expected_origin :: "operation \<Rightarrow> candidate_origin" where
  "expected_origin op =
     (case op of NewState \<Rightarrow> Fresh | ActivateArchived \<Rightarrow> Archived | ActiveReblit \<Rightarrow> OriginActiveReblit)"

fun check_state_ids :: "i32 option list \<Rightarrow> (unit, codec_error) result" where
  "check_state_ids [] = Ok ()"
| "check_state_ids (None # ids) = check_state_ids ids"
| "check_state_ids (Some i # ids) = (if sint i \<le> 0 then Err (InvalidStateId i) else check_state_ids ids)"

definition validate_version :: "transition_record \<Rightarrow> (unit, codec_error) result" where
  "validate_version r =
     (if rec_version r \<notin> {PAYLOAD_VERSION_V1, PAYLOAD_VERSION_V2, PAYLOAD_VERSION}
      then Err (UnsupportedPayloadVersion (rec_version r))
      else if rec_version r = PAYLOAD_VERSION_V1 then
        (if rec_phase r = BootRepairComplete
         then Err (PayloadVersionPhaseMismatch (rec_version r) (rec_phase r))
         else (case map_option plan_boot (rec_rollback r) of
                 Some status \<Rightarrow>
                   (if status \<in> {BootApplied, BootAlreadySatisfied}
                    then Err (PayloadVersionBootRollbackMismatch (rec_version r) status) else Ok ())
               | None \<Rightarrow> Ok ()))
      else Ok ())"

definition layout_phase :: "transition_record \<Rightarrow> (forward_phase, codec_error) result" where
  "layout_phase r =
     (case (forward (rec_phase r), rec_rollback r) of
        (Some p, None) \<Rightarrow> Ok p
      | (Some p, Some rollback) \<Rightarrow> Err RollbackPlanOnForwardPhase
      | (None, Some rollback) \<Rightarrow>
          (if rollback_allowed r (plan_source rollback) then Ok (plan_source rollback)
           else Err (InvalidRollbackSource (plan_source rollback)))
      | (None, None) \<Rightarrow> Err MissingRollbackPlan)"

definition validate_rollback :: "transition_record \<Rightarrow> (unit, codec_error) result" where
  "validate_rollback r =
     (case rec_rollback r of
        None \<Rightarrow> Ok ()
      | Some rollback \<Rightarrow> res_then (validate_rollback_plan r rollback)
                                 (validate_rollback_phase (rec_phase r) rollback))"

definition validate :: "transition_record \<Rightarrow> (unit, codec_error) result" where
  "validate r =
     (if rec_format r \<noteq> PAYLOAD_FORMAT then Err (UnsupportedPayloadFormat (rec_format r))
      else res_then (validate_version r)
      (if rec_generation r = 0 then Err ZeroGeneration
       else res_then (runtime_epoch_validate (rec_creation_epoch r))
      (res_then (tree_token_validate (prev_tree_token (rec_previous r)))
      (res_then (tree_token_validate (cand_tree_token (rec_candidate r)))
      (res_then (runtime_tree_validate (prev_usr_runtime_identity (rec_previous r)))
      (res_then (runtime_tree_validate (cand_usr_runtime_identity (rec_candidate r)))
      (res_then (check_state_ids [cand_id (rec_candidate r), prev_id (rec_previous r)])
      (if cand_origin (rec_candidate r) \<noteq> expected_origin (rec_operation r)
       then Err (OperationOriginMismatch (rec_operation r) (cand_origin (rec_candidate r)))
       else res_bind (layout_phase r) (\<lambda>layout.
         res_then (validate_boot_publication_receipts r layout)
        (res_then (validate_option_reachability r layout)
        (res_then (validate_candidate_layout r layout)
        (res_then (validate_relationships r)
        (validate_rollback r)))))))))))))"

definition boot_publication_receipt_correlation ::
    "transition_record \<Rightarrow> (receipt_pair option, codec_error) result" where
  "boot_publication_receipt_correlation r = res_then (validate r) (Ok (rec_receipts r))"

definition preparing ::
    "transition_id \<Rightarrow> runtime_epoch \<Rightarrow> operation \<Rightarrow> i32 option \<Rightarrow> tree_token \<Rightarrow> runtime_tree_identity
     \<Rightarrow> previous \<Rightarrow> bool \<Rightarrow> bool \<Rightarrow> quarantine_name \<Rightarrow> (transition_record, codec_error) result" where
  "preparing tid epoch op candidate_id candidate_tree_token candidate_usr_runtime_identity prev
             system_triggers boot_sync qname =
     (let r = \<lparr> rec_format = PAYLOAD_FORMAT,
                rec_version = PAYLOAD_VERSION,
                rec_generation = 1,
                rec_transition_id = tid,
                rec_creation_epoch = epoch,
                rec_operation = op,
                rec_phase = Preparing,
                rec_rollback = None,
                rec_receipts = None,
                rec_candidate = \<lparr> cand_id = candidate_id, cand_origin = expected_origin op,
                                  cand_tree_token = candidate_tree_token,
                                  cand_usr_runtime_identity = candidate_usr_runtime_identity \<rparr>,
                rec_previous = prev,
                rec_options = \<lparr> archive_previous = (prev_origin prev = ActiveState),
                                run_system_triggers = system_triggers,
                                run_boot_sync = boot_sync \<rparr>,
                rec_quarantine_name = qname \<rparr>
      in res_then (validate r) (Ok r))"

section \<open>Checks on a step\<close>

definition immutable_data_changed :: "transition_record \<Rightarrow> transition_record \<Rightarrow> bool" where
  "immutable_data_changed expected nxt \<longleftrightarrow>
     rec_format expected \<noteq> rec_format nxt
     \<or> rec_version expected \<noteq> rec_version nxt
     \<or> rec_creation_epoch expected \<noteq> rec_creation_epoch nxt
     \<or> rec_operation expected \<noteq> rec_operation nxt
     \<or> rec_previous expected \<noteq> rec_previous nxt
     \<or> rec_options expected \<noteq> rec_options nxt
     \<or> rec_quarantine_name expected \<noteq> rec_quarantine_name nxt
     \<or> cand_origin (rec_candidate expected) \<noteq> cand_origin (rec_candidate nxt)
     \<or> cand_tree_token (rec_candidate expected) \<noteq> cand_tree_token (rec_candidate nxt)
     \<or> cand_usr_runtime_identity (rec_candidate expected)
        \<noteq> cand_usr_runtime_identity (rec_candidate nxt)"

text \<open>
  The source takes both plans out of two validated rollback records with
  \<open>expect\<close>. The branch of a missing plan is the panic; it is never taken, because
  a record that validates in a rollback phase has a plan
  (\<open>valid_rollback_has_plan\<close> below).
\<close>

definition validate_phase_advance ::
    "transition_record \<Rightarrow> transition_record \<Rightarrow> (unit, codec_error) result" where
  "validate_phase_advance expected nxt =
     (let illegal = Err (IllegalPhaseAdvance (rec_phase expected) (rec_phase nxt))
      in case (forward (rec_phase expected), forward (rec_phase nxt)) of
           (Some current, Some actual) \<Rightarrow>
             res_bind (ok_or (next_forward_phase expected current) TerminalPhaseAdvance)
               (\<lambda>wanted. if actual \<noteq> wanted then illegal else Ok ())
         | (Some current, None) \<Rightarrow>
             (if rec_phase nxt \<noteq> RollbackDecided \<or> \<not> rollback_allowed expected current
                 \<or> map_option plan_source (rec_rollback nxt) \<noteq> Some current
              then illegal else Ok ())
         | (None, Some actual) \<Rightarrow> illegal
         | (None, None) \<Rightarrow>
             (case (rec_rollback expected, rec_rollback nxt) of
                (Some expected_plan, Some next_plan) \<Rightarrow>
                  (if (rec_phase expected, rec_phase nxt) \<noteq> (BootRepairStarted, BootRepairComplete)
                      \<and> next_rollback_phase expected_plan (rec_phase expected) \<noteq> Some (rec_phase nxt)
                   then illegal
                   else validate_rollback_plan_advance expected_plan next_plan
                          (rec_phase expected) (rec_phase nxt))
              | _ \<Rightarrow> Err MissingRollbackPlan))"

definition allocation_completed :: "transition_record \<Rightarrow> transition_record \<Rightarrow> bool" where
  "allocation_completed expected nxt \<longleftrightarrow>
     rec_phase expected = FreshStateAllocating \<and> rec_phase nxt = FreshStateAllocated
     \<and> cand_id (rec_candidate expected) = None \<and> is_some (cand_id (rec_candidate nxt))"

definition allocation_observed_during_rollback :: "transition_record \<Rightarrow> transition_record \<Rightarrow> bool" where
  "allocation_observed_during_rollback expected nxt \<longleftrightarrow>
     rec_phase expected = FreshStateAllocating \<and> rec_phase nxt = RollbackDecided
     \<and> cand_id (rec_candidate expected) = None \<and> is_some (cand_id (rec_candidate nxt))
     \<and> map_option plan_fresh_db (rec_rollback nxt) = Some Pending"

definition receipt_entry :: "transition_record \<Rightarrow> transition_record \<Rightarrow> bool" where
  "receipt_entry expected nxt \<longleftrightarrow>
     rec_version expected = PAYLOAD_VERSION \<and> rec_receipts expected = None
     \<and> is_some (rec_receipts nxt) \<and> rec_phase nxt = BootSyncStarted"

definition validate_advance :: "transition_record \<Rightarrow> transition_record \<Rightarrow> (unit, codec_error) result" where
  "validate_advance expected nxt =
     res_then (validate expected)
    (res_then (validate nxt)
    (if blocks_advance (rec_phase expected) then Err TerminalPhaseAdvance
     else res_bind (ok_or (checked_add (rec_generation expected) 1) GenerationExhausted)
       (\<lambda>expected_generation.
          if rec_generation nxt \<noteq> expected_generation
          then Err (GenerationMismatch expected_generation (rec_generation nxt))
          else if rec_transition_id expected \<noteq> rec_transition_id nxt then Err TransitionChanged
          else if rec_receipts expected \<noteq> rec_receipts nxt \<and> \<not> receipt_entry expected nxt
          then Err BootPublicationReceiptsChangedIllegally
          else if immutable_data_changed expected nxt then Err ImmutableTransitionDataChanged
          else res_then (validate_phase_advance expected nxt)
            (if cand_id (rec_candidate expected) \<noteq> cand_id (rec_candidate nxt)
                \<and> \<not> allocation_completed expected nxt
                \<and> \<not> allocation_observed_during_rollback expected nxt
             then Err CandidateStateChangedIllegally else Ok ()))))"

section \<open>The contract as a predicate\<close>

text \<open>
  A record passes \<open>validate\<close> iff its immutable part is sound, its version admits its
  phase, its generation and state ids are positive, and its phase, plan, receipts and
  candidate id agree with the forward phase the record lays out.
\<close>

lemmas payload_versions = PAYLOAD_VERSION_V1_def PAYLOAD_VERSION_V2_def PAYLOAD_VERSION_def

definition fixed_ok :: "transition_record \<Rightarrow> bool" where
  "fixed_ok r \<longleftrightarrow>
     rec_format r = PAYLOAD_FORMAT
     \<and> rec_version r \<in> {PAYLOAD_VERSION_V1, PAYLOAD_VERSION_V2, PAYLOAD_VERSION}
     \<and> runtime_epoch_validate (rec_creation_epoch r) = Ok ()
     \<and> tree_token_validate (prev_tree_token (rec_previous r)) = Ok ()
     \<and> tree_token_validate (cand_tree_token (rec_candidate r)) = Ok ()
     \<and> runtime_tree_validate (prev_usr_runtime_identity (rec_previous r)) = Ok ()
     \<and> runtime_tree_validate (cand_usr_runtime_identity (rec_candidate r)) = Ok ()
     \<and> cand_origin (rec_candidate r) = expected_origin (rec_operation r)
     \<and> cand_tree_token (rec_candidate r) \<noteq> prev_tree_token (rec_previous r)
     \<and> tree_st_dev (cand_usr_runtime_identity (rec_candidate r))
          = tree_st_dev (prev_usr_runtime_identity (rec_previous r))
     \<and> tree_mount_id (cand_usr_runtime_identity (rec_candidate r))
          = tree_mount_id (prev_usr_runtime_identity (rec_previous r))
     \<and> tree_inode (cand_usr_runtime_identity (rec_candidate r))
          \<noteq> tree_inode (prev_usr_runtime_identity (rec_previous r))
     \<and> archive_previous (rec_options r) = (prev_origin (rec_previous r) = ActiveState)
     \<and> (case rec_operation r of
          ActiveReblit \<Rightarrow> prev_origin (rec_previous r) = ActiveReblitCorrupt
        | ActivateArchived \<Rightarrow> prev_origin (rec_previous r) = ActiveState
        | NewState \<Rightarrow> prev_origin (rec_previous r) \<noteq> ActiveReblitCorrupt)
     \<and> is_some (prev_id (rec_previous r))
          = (prev_origin (rec_previous r) \<in> {ActiveState, ActiveReblitCorrupt})
     \<and> (\<forall>i. prev_id (rec_previous r) = Some i \<longrightarrow> 0 < sint i)"

definition candidate_id_ok :: "transition_record \<Rightarrow> bool" where
  "candidate_id_ok r \<longleftrightarrow>
     (\<forall>i. cand_id (rec_candidate r) = Some i \<longrightarrow> 0 < sint i)
     \<and> (rec_operation r \<noteq> NewState \<longrightarrow> is_some (cand_id (rec_candidate r)))
     \<and> (is_some (cand_id (rec_candidate r)) \<longrightarrow>
          (cand_id (rec_candidate r) = prev_id (rec_previous r)) = (rec_operation r = ActiveReblit))"

definition v1_ok :: "transition_record \<Rightarrow> bool" where
  "v1_ok r \<longleftrightarrow>
     (rec_version r = PAYLOAD_VERSION_V1 \<longrightarrow>
        rec_phase r \<noteq> BootRepairComplete
        \<and> (\<forall>plan. rec_rollback r = Some plan \<longrightarrow> plan_boot plan \<notin> {BootApplied, BootAlreadySatisfied}))"

definition receipts_ok :: "transition_record \<Rightarrow> forward_phase \<Rightarrow> bool" where
  "receipts_ok r p \<longleftrightarrow>
     is_some (rec_receipts r)
       = (rec_version r = PAYLOAD_VERSION \<and> run_boot_sync (rec_options r)
          \<and> ordinal p \<ge> ordinal FBootSyncStarted)"

definition reachable_layout :: "transition_record \<Rightarrow> forward_phase \<Rightarrow> bool" where
  "reachable_layout r p \<longleftrightarrow>
     (p \<in> {FFreshStateAllocating, FFreshStateAllocated} \<longrightarrow> rec_operation r = NewState)
     \<and> (p \<in> {FTransactionTriggersStarted, FTransactionTriggersComplete} \<longrightarrow> runs_transaction_triggers r)
     \<and> (p \<in> {FSystemTriggersStarted, FSystemTriggersComplete} \<longrightarrow> run_system_triggers (rec_options r))
     \<and> (p \<in> {FPreviousArchiveIntent, FPreviousArchived} \<longrightarrow> archive_previous (rec_options r))
     \<and> (p \<in> {FBootSyncStarted, FBootSyncComplete} \<longrightarrow> run_boot_sync (rec_options r))"

definition fresh_id_ok :: "transition_record \<Rightarrow> forward_phase \<Rightarrow> bool" where
  "fresh_id_ok r p \<longleftrightarrow>
     (rec_operation r = NewState \<longrightarrow>
        (p = FPreparing \<longrightarrow> cand_id (rec_candidate r) = None)
        \<and> (p = FFreshStateAllocating \<longrightarrow>
             (case rec_rollback r of
                None \<Rightarrow> cand_id (rec_candidate r) = None
              | Some plan \<Rightarrow> (plan_fresh_db plan \<in> {Pending, Applied} \<longrightarrow> is_some (cand_id (rec_candidate r)))
                            \<and> (plan_fresh_db plan = NotRequired \<longrightarrow> cand_id (rec_candidate r) = None)))
        \<and> (p \<notin> {FPreparing, FFreshStateAllocating} \<longrightarrow> is_some (cand_id (rec_candidate r))))"

definition plan_ok :: "transition_record \<Rightarrow> rollback_plan \<Rightarrow> bool" where
  "plan_ok r plan \<longleftrightarrow>
     required (plan_previous_archive plan)
       = (archive_previous (rec_options r) \<and> ordinal (plan_source plan) \<ge> ordinal FPreviousArchiveIntent)
     \<and> required (plan_usr_exchange plan) = (ordinal (plan_source plan) \<ge> ordinal FUsrExchangeIntent)
     \<and> required (cr_action (plan_candidate plan))
     \<and> required (plan_fresh_db plan)
         = (rec_operation r = NewState \<and> ordinal (plan_source plan) \<ge> ordinal FFreshStateAllocating)
     \<and> (plan_source plan = FBootSyncStarted) = (plan_boot plan \<noteq> BootNotRequired)
     \<and> cr_disposition (plan_candidate plan) = candidate_disposition_for r (plan_source plan)
     \<and> plan_external_effects_may_remain plan = external_effects_expected r (plan_source plan)"

lemma runtime_tree_validate_Ok_iff:
  "runtime_tree_validate t = Ok () \<longleftrightarrow> tree_st_dev t \<noteq> 0 \<and> tree_inode t \<noteq> 0 \<and> tree_mount_id t \<noteq> 0"
  by (simp add: runtime_tree_validate_def)

lemma check_state_ids_Ok_iff:
  "check_state_ids ids = Ok () \<longleftrightarrow> (\<forall>i. Some i \<in> set ids \<longrightarrow> 0 < sint i)"
  by (induction ids rule: check_state_ids.induct) (auto simp: not_le)

lemma validate_version_Ok_iff:
  "validate_version r = Ok () \<longleftrightarrow>
     rec_version r \<in> {PAYLOAD_VERSION_V1, PAYLOAD_VERSION_V2, PAYLOAD_VERSION} \<and> v1_ok r"
  by (auto simp: validate_version_def v1_ok_def split: option.splits)

lemma validate_receipts_Ok_iff:
  assumes "rec_version r \<in> {PAYLOAD_VERSION_V1, PAYLOAD_VERSION_V2, PAYLOAD_VERSION}"
  shows "validate_boot_publication_receipts r p = Ok () \<longleftrightarrow> receipts_ok r p"
  using assms
  by (auto simp: validate_boot_publication_receipts_def receipts_ok_def payload_versions is_some_def
      simp del: ordinal.simps)

lemma validate_option_reachability_Ok_iff:
  "validate_option_reachability r p = Ok () \<longleftrightarrow> reachable_layout r p"
  by (auto simp: validate_option_reachability_def reachable_layout_def)

lemma validate_candidate_layout_Ok_iff:
  "validate_candidate_layout r p = Ok () \<longleftrightarrow>
     fresh_id_ok r p \<and> (rec_operation r \<noteq> NewState \<longrightarrow> is_some (cand_id (rec_candidate r)))"
  by (cases "rec_operation r"; cases p)
     (auto simp: validate_candidate_layout_def fresh_id_ok_def require_option_presence_def is_some_def Let_def
       split: option.splits rollback_action.splits)

lemma validate_rollback_plan_Ok_iff: "validate_rollback_plan r plan = Ok () \<longleftrightarrow> plan_ok r plan"
  unfolding validate_rollback_plan_def plan_ok_def validate_rollback_requirement_def Let_def
  by (simp add: result_simps del: ordinal.simps) blast

lemma validate_relationships_Ok_iff:
  "validate_relationships r = Ok () \<and> check_state_ids [cand_id (rec_candidate r), prev_id (rec_previous r)] = Ok ()
     \<and> (rec_operation r \<noteq> NewState \<longrightarrow> is_some (cand_id (rec_candidate r)))
   \<longleftrightarrow> candidate_id_ok r
     \<and> cand_tree_token (rec_candidate r) \<noteq> prev_tree_token (rec_previous r)
     \<and> tree_st_dev (cand_usr_runtime_identity (rec_candidate r))
          = tree_st_dev (prev_usr_runtime_identity (rec_previous r))
     \<and> tree_mount_id (cand_usr_runtime_identity (rec_candidate r))
          = tree_mount_id (prev_usr_runtime_identity (rec_previous r))
     \<and> tree_inode (cand_usr_runtime_identity (rec_candidate r))
          \<noteq> tree_inode (prev_usr_runtime_identity (rec_previous r))
     \<and> archive_previous (rec_options r) = (prev_origin (rec_previous r) = ActiveState)
     \<and> (case rec_operation r of
          ActiveReblit \<Rightarrow> prev_origin (rec_previous r) = ActiveReblitCorrupt
        | ActivateArchived \<Rightarrow> prev_origin (rec_previous r) = ActiveState
        | NewState \<Rightarrow> prev_origin (rec_previous r) \<noteq> ActiveReblitCorrupt)
     \<and> is_some (prev_id (rec_previous r))
          = (prev_origin (rec_previous r) \<in> {ActiveState, ActiveReblitCorrupt})
     \<and> (\<forall>i. prev_id (rec_previous r) = Some i \<longrightarrow> 0 < sint i)"
  unfolding check_state_ids_Ok_iff
  by (cases "rec_operation r"; cases "prev_origin (rec_previous r)")
     (auto simp: validate_relationships_def validate_operation_states_def same_object_def
       candidate_id_ok_def is_some_def Let_def)

definition rollback_ok :: "transition_record \<Rightarrow> bool" where
  "rollback_ok r \<longleftrightarrow>
     (\<forall>plan. rec_rollback r = Some plan \<longrightarrow>
        plan_ok r plan \<and> validate_rollback_phase (rec_phase r) plan = Ok ())"

theorem validate_Ok_iff:
  "validate r = Ok () \<longleftrightarrow>
     fixed_ok r \<and> v1_ok r \<and> rec_generation r \<noteq> 0 \<and> candidate_id_ok r
     \<and> (\<exists>p. layout_phase r = Ok p \<and> receipts_ok r p \<and> reachable_layout r p \<and> fresh_id_ok r p)
     \<and> rollback_ok r"
proof -
  have rb: "validate_rollback r = Ok () \<longleftrightarrow> rollback_ok r"
    by (cases "rec_rollback r")
       (simp_all add: validate_rollback_def rollback_ok_def result_simps validate_rollback_plan_Ok_iff)
  have "validate r = Ok () \<longleftrightarrow>
      rec_format r = PAYLOAD_FORMAT
      \<and> rec_version r \<in> {PAYLOAD_VERSION_V1, PAYLOAD_VERSION_V2, PAYLOAD_VERSION}
      \<and> v1_ok r \<and> rec_generation r \<noteq> 0
      \<and> runtime_epoch_validate (rec_creation_epoch r) = Ok ()
      \<and> tree_token_validate (prev_tree_token (rec_previous r)) = Ok ()
      \<and> tree_token_validate (cand_tree_token (rec_candidate r)) = Ok ()
      \<and> runtime_tree_validate (prev_usr_runtime_identity (rec_previous r)) = Ok ()
      \<and> runtime_tree_validate (cand_usr_runtime_identity (rec_candidate r)) = Ok ()
      \<and> cand_origin (rec_candidate r) = expected_origin (rec_operation r)
      \<and> (validate_relationships r = Ok ()
         \<and> check_state_ids [cand_id (rec_candidate r), prev_id (rec_previous r)] = Ok ()
         \<and> (rec_operation r \<noteq> NewState \<longrightarrow> is_some (cand_id (rec_candidate r))))
      \<and> (\<exists>p. layout_phase r = Ok p \<and> receipts_ok r p \<and> reachable_layout r p \<and> fresh_id_ok r p)
      \<and> rollback_ok r"
    unfolding validate_def result_simps rb validate_version_Ok_iff validate_option_reachability_Ok_iff
      validate_candidate_layout_Ok_iff
    by (auto simp: validate_receipts_Ok_iff)
  then show ?thesis
    unfolding validate_relationships_Ok_iff fixed_ok_def by blast
qed

lemma valid_forward_no_plan:
  assumes "validate r = Ok ()" and "forward (rec_phase r) = Some p"
  shows "rec_rollback r = None"
  using assms by (auto simp: validate_Ok_iff layout_phase_def split: option.splits)

lemma valid_rollback_has_plan:
  assumes "validate r = Ok ()" and "forward (rec_phase r) = None"
  obtains plan where "rec_rollback r = Some plan" "rollback_allowed r (plan_source plan)"
  using assms by (auto simp: validate_Ok_iff layout_phase_def split: option.splits if_splits)

lemma validate_advance_Ok_iff:
  "validate_advance r r' = Ok () \<longleftrightarrow>
     validate r = Ok () \<and> validate r' = Ok () \<and> \<not> blocks_advance (rec_phase r)
     \<and> checked_add (rec_generation r) 1 = Some (rec_generation r')
     \<and> rec_transition_id r = rec_transition_id r'
     \<and> (rec_receipts r = rec_receipts r' \<or> receipt_entry r r')
     \<and> \<not> immutable_data_changed r r'
     \<and> validate_phase_advance r r' = Ok ()
     \<and> (cand_id (rec_candidate r) = cand_id (rec_candidate r')
        \<or> allocation_completed r r' \<or> allocation_observed_during_rollback r r')"
  unfolding validate_advance_def result_simps by auto

text \<open>The forward part of a phase and the phase of a forward phase are inverse.\<close>

lemma forward_phase_of_forward [simp]: "forward (phase_of_forward p) = Some p"
  by (cases p) simp_all

lemma forward_Some_iff: "forward p = Some q \<longleftrightarrow> p = phase_of_forward q"
  by (cases p; cases q) simp_all

lemma phase_of_forward_inj [simp]: "phase_of_forward p = phase_of_forward q \<longleftrightarrow> p = q"
  by (metis forward_phase_of_forward option.inject)

lemma ordinal_inj: "ordinal p = ordinal q \<Longrightarrow> p = q"
  by (cases p; cases q) simp_all

text \<open>The next forward phase is always later in the order, and reachable by the record's options.\<close>

lemma next_forward_phase_later: "next_forward_phase r p = Some q \<Longrightarrow> ordinal p < ordinal q"
  by (cases p) (auto simp: next_forward_phase_def Let_def)

lemma next_forward_phase_None_iff: "next_forward_phase r p = None \<longleftrightarrow> p = FComplete"
  by (cases p) (auto simp: next_forward_phase_def Let_def)

lemma next_forward_phase_reachable:
  assumes "reachable_layout r p" and "next_forward_phase r p = Some q"
  shows "reachable_layout r q"
  using assms
  by (cases p) (auto simp: next_forward_phase_def reachable_layout_def Let_def split: if_splits)

lemma next_forward_phase_boot_order:
  assumes "next_forward_phase r p = Some q" and "q \<noteq> FBootSyncStarted" and "run_boot_sync (rec_options r)"
  shows "ordinal FBootSyncStarted \<le> ordinal p \<longleftrightarrow> ordinal FBootSyncStarted \<le> ordinal q"
  using assms by (cases p) (auto simp: next_forward_phase_def Let_def split: if_splits)

text \<open>The checks read the immutable fields only through what a step cannot change.\<close>

lemma immutable_fields:
  assumes "\<not> immutable_data_changed r r'"
  shows "rec_format r' = rec_format r" "rec_version r' = rec_version r"
    "rec_creation_epoch r' = rec_creation_epoch r" "rec_operation r' = rec_operation r"
    "rec_previous r' = rec_previous r" "rec_options r' = rec_options r"
    "cand_origin (rec_candidate r') = cand_origin (rec_candidate r)"
    "cand_tree_token (rec_candidate r') = cand_tree_token (rec_candidate r)"
    "cand_usr_runtime_identity (rec_candidate r') = cand_usr_runtime_identity (rec_candidate r)"
  using assms by (simp_all add: immutable_data_changed_def)

lemma runs_transaction_triggers_cong:
  "rec_operation r = rec_operation r' \<Longrightarrow> runs_transaction_triggers r = runs_transaction_triggers r'"
  by (simp add: runs_transaction_triggers_def)

lemma reachable_layout_cong:
  assumes "rec_operation r = rec_operation r'" and "rec_options r = rec_options r'"
  shows "reachable_layout r = reachable_layout r'"
  using assms by (simp add: fun_eq_iff reachable_layout_def runs_transaction_triggers_cong [OF assms(1)])

lemma plan_ok_cong:
  assumes "rec_operation r = rec_operation r'" and "rec_options r = rec_options r'"
  shows "plan_ok r = plan_ok r'"
  using assms
  by (simp add: fun_eq_iff plan_ok_def candidate_disposition_for_def external_effects_expected_def
      runs_transaction_triggers_cong [OF assms(1)] del: ordinal.simps)

lemma next_forward_phase_cong:
  assumes "rec_operation r = rec_operation r'" and "rec_options r = rec_options r'"
  shows "next_forward_phase r = next_forward_phase r'"
  using assms by (simp add: fun_eq_iff next_forward_phase_def runs_transaction_triggers_cong [OF assms(1)])

lemma rollback_allowed_cong: "rollback_allowed r = rollback_allowed r'"
  by (simp add: fun_eq_iff rollback_allowed_def)

lemma fixed_ok_cong:
  assumes "\<not> immutable_data_changed r r'"
  shows "fixed_ok r' = fixed_ok r"
  unfolding fixed_ok_def immutable_fields [OF assms] ..

end
