(* ===== verification/Journal_Successors.thy ===== *)
theory Journal_Successors
  imports Journal_Validation
begin

text \<open>
  The constructors of the next journal record
  (\<open>transition_journal/successors.rs\<close>): the only code that makes a record other than
  the first one. Every constructor clones the record, edits the fields it owns and
  checks the result with \<open>validate_advance\<close>.
\<close>

section \<open>Observations and outcomes\<close>

datatype initial_rollback_action = InitialPending | InitialAlreadySatisfied

fun rollback_action_of_initial :: "initial_rollback_action \<Rightarrow> rollback_action" where
  "rollback_action_of_initial InitialPending = Pending"
| "rollback_action_of_initial InitialAlreadySatisfied = AlreadySatisfied"

record rollback_observations =
  obs_allocated_candidate_id :: "i32 option"
  obs_previous_archive :: "initial_rollback_action option"
  obs_usr_exchange :: "initial_rollback_action option"
  obs_candidate :: initial_rollback_action
  obs_fresh_db :: "initial_rollback_action option"

datatype rollback_action_outcome = OutcomeApplied | OutcomeAlreadySatisfied

fun rollback_action_of_outcome :: "rollback_action_outcome \<Rightarrow> rollback_action" where
  "rollback_action_of_outcome OutcomeApplied = Applied"
| "rollback_action_of_outcome OutcomeAlreadySatisfied = AlreadySatisfied"

datatype boot_repair_outcome = RepairApplied | RepairAlreadySatisfied

fun boot_rollback_of_outcome :: "boot_repair_outcome \<Rightarrow> boot_rollback" where
  "boot_rollback_of_outcome RepairApplied = BootApplied"
| "boot_rollback_of_outcome RepairAlreadySatisfied = BootAlreadySatisfied"

section \<open>Forward constructors\<close>

definition next_generation :: "transition_record \<Rightarrow> (u64, codec_error) result" where
  "next_generation r = ok_or (checked_add (rec_generation r) 1) GenerationExhausted"

definition forward_successor ::
    "transition_record \<Rightarrow> i32 option \<Rightarrow> (transition_record, codec_error) result" where
  "forward_successor r allocated_candidate_id =
     res_then (validate r)
    (res_bind (ok_or (forward (rec_phase r)) (IllegalPhaseAdvance (rec_phase r) (rec_phase r)))
       (\<lambda>current. res_bind (ok_or (next_forward_phase r current) TerminalPhaseAdvance)
       (\<lambda>next_phase.
          if next_phase = FBootSyncStarted then Err ExplicitBootSyncStartedSuccessorRequired
          else if next_phase = FBootSyncComplete then Err ExplicitBootSyncCompleteSuccessorRequired
          else
            (let allocated = ((current, next_phase) = (FFreshStateAllocating, FFreshStateAllocated))
             in if \<not> allocated \<and> is_some allocated_candidate_id then Err CandidateStateChangedIllegally
                else res_bind (next_generation r)
                  (\<lambda>generation.
                     let r1 = r\<lparr> rec_generation := generation, rec_phase := phase_of_forward next_phase \<rparr>;
                         r2 = (if allocated
                               then r1\<lparr> rec_candidate := (rec_candidate r1)\<lparr> cand_id := allocated_candidate_id \<rparr> \<rparr>
                               else r1)
                     in res_then (validate_advance r r2) (Ok r2))))))"

definition boot_sync_started_successor ::
    "transition_record \<Rightarrow> receipt_pair \<Rightarrow> (transition_record, codec_error) result" where
  "boot_sync_started_successor r receipts =
     res_then (validate r)
    (if rec_version r \<noteq> PAYLOAD_VERSION
     then Err (PayloadVersionBootPublicationReceiptsMismatch (rec_version r))
     else res_bind (ok_or (forward (rec_phase r)) (IllegalPhaseAdvance (rec_phase r) BootSyncStarted))
       (\<lambda>current.
          if next_forward_phase r current \<noteq> Some FBootSyncStarted
          then Err (IllegalPhaseAdvance (rec_phase r) BootSyncStarted)
          else res_bind (next_generation r)
            (\<lambda>generation.
               let r1 = r\<lparr> rec_generation := generation, rec_phase := BootSyncStarted,
                          rec_receipts := Some receipts \<rparr>
               in res_then (validate_advance r r1) (Ok r1))))"

definition boot_sync_complete_successor ::
    "transition_record \<Rightarrow> receipt_pair \<Rightarrow> (transition_record, codec_error) result" where
  "boot_sync_complete_successor r expected_pair =
     res_then (validate r)
    (if rec_version r \<noteq> PAYLOAD_VERSION
     then Err (PayloadVersionBootPublicationReceiptsMismatch (rec_version r))
     else if rec_phase r \<noteq> BootSyncStarted
     then Err (IllegalPhaseAdvance (rec_phase r) BootSyncComplete)
     else if rec_receipts r \<noteq> Some expected_pair
     then Err BootPublicationReceiptsChangedIllegally
     else res_bind (next_generation r)
       (\<lambda>generation.
          let r1 = r\<lparr> rec_generation := generation, rec_phase := BootSyncComplete \<rparr>
          in res_then (validate_advance r r1) (Ok r1)))"

section \<open>Rollback constructors\<close>

fun observed_initial_action ::
    "string \<Rightarrow> bool \<Rightarrow> initial_rollback_action option \<Rightarrow> (rollback_action, codec_error) result" where
  "observed_initial_action action True (Some observation) = Ok (rollback_action_of_initial observation)"
| "observed_initial_action action False None = Ok NotRequired"
| "observed_initial_action action possible observation =
     Err (InvalidRollbackRequirement action
            (case observation of None \<Rightarrow> NotRequired | Some o' \<Rightarrow> rollback_action_of_initial o')
            possible)"

definition decide_plan ::
    "transition_record \<Rightarrow> forward_phase \<Rightarrow> rollback_observations \<Rightarrow> (rollback_plan, codec_error) result" where
  "decide_plan r source observations =
     (let previous_possible = (archive_previous (rec_options r)
                               \<and> ordinal source \<ge> ordinal FPreviousArchiveIntent);
          usr_possible = (ordinal source \<ge> ordinal FUsrExchangeIntent);
          fresh_possible = (rec_operation r = NewState \<and> ordinal source \<ge> ordinal FFreshStateAllocating);
          boot_possible = (source = FBootSyncStarted)
      in res_bind (observed_initial_action ''previous-archive'' previous_possible
                     (obs_previous_archive observations)) (\<lambda>previous_archive.
         res_bind (observed_initial_action ''usr-exchange'' usr_possible
                     (obs_usr_exchange observations)) (\<lambda>usr_exchange.
         res_bind (observed_initial_action ''fresh-db'' fresh_possible
                     (obs_fresh_db observations)) (\<lambda>fresh_db.
         Ok \<lparr> plan_source = source,
              plan_previous_archive = previous_archive,
              plan_usr_exchange = usr_exchange,
              plan_candidate = \<lparr> cr_action = rollback_action_of_initial (obs_candidate observations),
                                 cr_disposition = candidate_disposition_for r source \<rparr>,
              plan_fresh_db = fresh_db,
              plan_boot = (if boot_possible then BootPendingUnverifiable else BootNotRequired),
              plan_external_effects_may_remain =
                (runs_transaction_triggers r \<and> ordinal source \<ge> ordinal FTransactionTriggersStarted
                 \<or> run_system_triggers (rec_options r) \<and> ordinal source \<ge> ordinal FSystemTriggersStarted
                 \<or> boot_possible) \<rparr>))))"

definition rollback_decision ::
    "transition_record \<Rightarrow> rollback_observations \<Rightarrow> (transition_record, codec_error) result" where
  "rollback_decision r observations =
     res_then (validate r)
    (res_bind (ok_or (forward (rec_phase r)) (IllegalPhaseAdvance (rec_phase r) RollbackDecided))
       (\<lambda>source.
          if \<not> rollback_allowed r source then Err (InvalidRollbackSource source)
          else res_bind (next_generation r) (\<lambda>generation.
            let r1 = r\<lparr> rec_generation := generation, rec_phase := RollbackDecided \<rparr>
            in if cand_id (rec_candidate r) \<noteq> None \<and> is_some (obs_allocated_candidate_id observations)
               then Err CandidateStateChangedIllegally
               else
                 (let r2 = (if cand_id (rec_candidate r) = None
                            then r1\<lparr> rec_candidate := (rec_candidate r1)
                                     \<lparr> cand_id := obs_allocated_candidate_id observations \<rparr> \<rparr>
                            else r1)
                  in res_bind (decide_plan r source observations) (\<lambda>plan.
                       let r3 = r2\<lparr> rec_rollback := Some plan \<rparr>
                       in res_then (validate_advance r r3) (Ok r3))))))"

definition set_action :: "phase \<Rightarrow> phase \<Rightarrow> rollback_action \<Rightarrow> rollback_plan
    \<Rightarrow> (rollback_plan, codec_error) result" where
  "set_action current next_phase status plan =
     (case completed_action current next_phase of
        None \<Rightarrow> Err RollbackActionOutcomeMismatch
      | Some index \<Rightarrow>
          Ok (if index = 0 then plan\<lparr> plan_previous_archive := status \<rparr>
              else if index = 1 then plan\<lparr> plan_usr_exchange := status \<rparr>
              else if index = 2 then plan\<lparr> plan_candidate := (plan_candidate plan)\<lparr> cr_action := status \<rparr> \<rparr>
              else plan\<lparr> plan_fresh_db := status \<rparr>))"

definition ordinary_completion :: "phase \<Rightarrow> phase \<Rightarrow> bool" where
  "ordinary_completion current next_phase \<longleftrightarrow>
     map_option snd (rollback_action_phase current) = Some False
     \<and> map_option snd (rollback_action_phase next_phase) = Some True"

definition rollback_successor ::
    "transition_record \<Rightarrow> rollback_action_outcome option \<Rightarrow> (transition_record, codec_error) result" where
  "rollback_successor r outcome =
     res_then (validate r)
    (if rec_phase r \<in> {BootRepairRequired, BootRepairStarted, BootRepairComplete}
     then Err (ExplicitBootRepairSuccessorRequired (rec_phase r))
     else res_bind (ok_or (rec_rollback r) MissingRollbackPlan) (\<lambda>plan.
       res_bind (ok_or (next_rollback_phase plan (rec_phase r))
                   (if blocks_advance (rec_phase r) then TerminalPhaseAdvance
                    else IllegalPhaseAdvance (rec_phase r) (rec_phase r))) (\<lambda>next_phase.
         if ordinary_completion (rec_phase r) next_phase \<noteq> is_some outcome
         then Err RollbackActionOutcomeMismatch
         else res_bind (next_generation r) (\<lambda>generation.
           res_bind (case outcome of
                       None \<Rightarrow> Ok plan
                     | Some out \<Rightarrow> set_action (rec_phase r) next_phase (rollback_action_of_outcome out) plan)
             (\<lambda>next_plan.
                let r1 = r\<lparr> rec_generation := generation, rec_phase := next_phase,
                           rec_rollback := Some next_plan \<rparr>
                in res_then (validate_advance r r1) (Ok r1))))))"

section \<open>Boot repair constructors\<close>

definition boot_repair_started_successor :: "transition_record \<Rightarrow> (transition_record, codec_error) result" where
  "boot_repair_started_successor r =
     res_then (validate r)
    (if rec_phase r \<noteq> BootRepairRequired then Err (IllegalPhaseAdvance (rec_phase r) BootRepairStarted)
     else res_bind (next_generation r) (\<lambda>generation.
       let r1 = r\<lparr> rec_generation := generation, rec_phase := BootRepairStarted \<rparr>
       in res_then (validate_advance r r1) (Ok r1)))"

definition boot_repair_complete_successor ::
    "transition_record \<Rightarrow> boot_repair_outcome \<Rightarrow> (transition_record, codec_error) result" where
  "boot_repair_complete_successor r outcome =
     res_then (validate r)
    (if rec_phase r \<noteq> BootRepairStarted then Err (IllegalPhaseAdvance (rec_phase r) BootRepairComplete)
     else res_bind (next_generation r) (\<lambda>generation.
       res_bind (ok_or (rec_rollback r) MissingRollbackPlan) (\<lambda>plan.
         let r1 = r\<lparr> rec_generation := generation, rec_phase := BootRepairComplete,
                    rec_rollback := Some (plan\<lparr> plan_boot := boot_rollback_of_outcome outcome \<rparr>) \<rparr>
         in res_then (validate_advance r r1) (Ok r1))))"

definition boot_repair_unverified_successor :: "transition_record \<Rightarrow> (transition_record, codec_error) result" where
  "boot_repair_unverified_successor r =
     res_then (validate r)
    (if rec_phase r \<noteq> BootRepairStarted then Err (IllegalPhaseAdvance (rec_phase r) BootRepairUnverified)
     else res_bind (next_generation r) (\<lambda>generation.
       res_bind (ok_or (rec_rollback r) MissingRollbackPlan) (\<lambda>plan.
         let r1 = r\<lparr> rec_generation := generation, rec_phase := BootRepairUnverified,
                    rec_rollback := Some (plan\<lparr> plan_boot := BootUnverified \<rparr>) \<rparr>
         in res_then (validate_advance r r1) (Ok r1))))"

definition boot_repair_rollback_complete_successor ::
    "transition_record \<Rightarrow> (transition_record, codec_error) result" where
  "boot_repair_rollback_complete_successor r =
     res_then (validate r)
    (if rec_phase r \<noteq> BootRepairComplete then Err (IllegalPhaseAdvance (rec_phase r) RollbackComplete)
     else res_bind (next_generation r) (\<lambda>generation.
       let r1 = r\<lparr> rec_generation := generation, rec_phase := RollbackComplete \<rparr>
       in res_then (validate_advance r r1) (Ok r1)))"

end
