(* ===== verification/Journal_Steps.thy ===== *)
theory Journal_Steps
  imports Journal_Successors
begin

text \<open>
  The journal as a state machine: one step is one successful successor constructor.
\<close>

section \<open>The contract of a constructor\<close>

locale checked_successor =
  fixes successor :: "transition_record \<Rightarrow> (transition_record, codec_error) result"
  assumes checked: "successor r = Ok r' \<Longrightarrow> validate_advance r r' = Ok ()"
begin

lemma keeps_valid:
  assumes "successor r = Ok r'"
  shows "validate r' = Ok ()"
  using checked [OF assms] by (simp add: validate_advance_Ok_iff)

lemma next_generation_is:
  assumes "successor r = Ok r'"
  shows "unat (rec_generation r') = unat (rec_generation r) + 1"
  using checked [OF assms] by (auto simp: validate_advance_Ok_iff dest: checked_add_unat)

lemma refuses_invalid: "validate r = Err e \<Longrightarrow> \<not> is_ok (successor r)"
  using checked by (fastforce simp: is_ok_iff validate_advance_Ok_iff)

end

lemmas successor_defs =
  forward_successor_def boot_sync_started_successor_def boot_sync_complete_successor_def
  rollback_decision_def rollback_successor_def boot_repair_started_successor_def
  boot_repair_complete_successor_def boot_repair_unverified_successor_def
  boot_repair_rollback_complete_successor_def

interpretation fwd: checked_successor "\<lambda>r. forward_successor r i" for i
  by unfold_locales (auto simp: successor_defs result_simps Let_def)

interpretation boot_started: checked_successor "\<lambda>r. boot_sync_started_successor r pair" for pair
  by unfold_locales (auto simp: successor_defs result_simps Let_def)

interpretation boot_completed: checked_successor "\<lambda>r. boot_sync_complete_successor r pair" for pair
  by unfold_locales (auto simp: successor_defs result_simps Let_def)

interpretation decision: checked_successor "\<lambda>r. rollback_decision r observations" for observations
  by unfold_locales (auto simp: successor_defs result_simps Let_def)

interpretation rollback: checked_successor "\<lambda>r. rollback_successor r outcome" for outcome
  by unfold_locales (auto simp: successor_defs result_simps Let_def)

interpretation repair_started: checked_successor boot_repair_started_successor
  by unfold_locales (auto simp: successor_defs result_simps Let_def)

interpretation repair_completed: checked_successor "\<lambda>r. boot_repair_complete_successor r outcome" for outcome
  by unfold_locales (auto simp: successor_defs result_simps Let_def)

interpretation repair_unverified: checked_successor boot_repair_unverified_successor
  by unfold_locales (auto simp: successor_defs result_simps Let_def)

interpretation repair_finished: checked_successor boot_repair_rollback_complete_successor
  by unfold_locales (auto simp: successor_defs result_simps Let_def)

section \<open>Steps\<close>

inductive journal_step :: "transition_record \<Rightarrow> transition_record \<Rightarrow> bool" where
  step_forward: "forward_successor r i = Ok r' \<Longrightarrow> journal_step r r'"
| step_boot_started: "boot_sync_started_successor r pair = Ok r' \<Longrightarrow> journal_step r r'"
| step_boot_complete: "boot_sync_complete_successor r pair = Ok r' \<Longrightarrow> journal_step r r'"
| step_decision: "rollback_decision r observations = Ok r' \<Longrightarrow> journal_step r r'"
| step_rollback: "rollback_successor r outcome = Ok r' \<Longrightarrow> journal_step r r'"
| step_repair_started: "boot_repair_started_successor r = Ok r' \<Longrightarrow> journal_step r r'"
| step_repair_complete: "boot_repair_complete_successor r repair = Ok r' \<Longrightarrow> journal_step r r'"
| step_repair_unverified: "boot_repair_unverified_successor r = Ok r' \<Longrightarrow> journal_step r r'"
| step_repair_finished: "boot_repair_rollback_complete_successor r = Ok r' \<Longrightarrow> journal_step r r'"

lemma journal_step_advances: "journal_step r r' \<Longrightarrow> validate_advance r r' = Ok ()"
  by (induction rule: journal_step.induct)
     (blast dest: fwd.checked boot_started.checked boot_completed.checked decision.checked rollback.checked
        repair_started.checked repair_completed.checked repair_unverified.checked repair_finished.checked)+

text \<open>A step changes the generation, the phase, the plan, the receipts and the candidate id only.\<close>

lemma advanced_record:
  assumes "\<not> immutable_data_changed r r'" and "rec_transition_id r = rec_transition_id r'"
    and "rec_generation r' = g" and "rec_phase r' = p" and "rec_rollback r' = b"
    and "rec_receipts r' = c" and "cand_id (rec_candidate r') = i"
  shows "r' = r\<lparr> rec_generation := g, rec_phase := p, rec_rollback := b, rec_receipts := c,
                 rec_candidate := (rec_candidate r)\<lparr> cand_id := i \<rparr> \<rparr>"
proof -
  have "rec_candidate r' = (rec_candidate r)\<lparr> cand_id := i \<rparr>"
    using assms by (intro candidate.equality) (auto simp: immutable_data_changed_def)
  with assms show ?thesis
    by (intro transition_record.equality) (auto simp: immutable_data_changed_def)
qed

text \<open>The shapes the constructors build: receipts entered, plan edited, phase only.\<close>

lemma advanced_receipts:
  assumes "\<not> immutable_data_changed r r'" and "rec_transition_id r = rec_transition_id r'"
    and "rec_rollback r' = rec_rollback r" and "cand_id (rec_candidate r') = cand_id (rec_candidate r)"
    and "rec_phase r' = p" and "rec_receipts r' = c"
  shows "r\<lparr> rec_generation := rec_generation r', rec_phase := p, rec_receipts := c \<rparr> = r'"
  using advanced_record [OF assms(1,2) refl assms(5,3,6,4)] by simp

lemma advanced_plan:
  assumes "\<not> immutable_data_changed r r'" and "rec_transition_id r = rec_transition_id r'"
    and "rec_receipts r' = rec_receipts r" and "cand_id (rec_candidate r') = cand_id (rec_candidate r)"
    and "rec_phase r' = p" and "rec_rollback r' = b"
  shows "r\<lparr> rec_generation := rec_generation r', rec_phase := p, rec_rollback := b \<rparr> = r'"
  using advanced_record [OF assms(1,2) refl assms(5,6,3,4)] by simp

lemma advanced_phase:
  assumes "\<not> immutable_data_changed r r'" and "rec_transition_id r = rec_transition_id r'"
    and "rec_receipts r' = rec_receipts r" and "cand_id (rec_candidate r') = cand_id (rec_candidate r)"
    and "rec_rollback r' = rec_rollback r" and "rec_phase r' = p"
  shows "r\<lparr> rec_generation := rec_generation r', rec_phase := p \<rparr> = r'"
  using advanced_plan [OF assms(1-4,6,5)] by simp

lemma advanced_candidate:
  assumes "\<not> immutable_data_changed r r'" and "rec_transition_id r = rec_transition_id r'"
    and "rec_receipts r' = rec_receipts r" and "rec_rollback r' = rec_rollback r" and "rec_phase r' = p"
    and "cand_id (rec_candidate r') = i"
  shows "r\<lparr> rec_generation := rec_generation r', rec_phase := p,
             rec_candidate := (rec_candidate r)\<lparr> cand_id := i \<rparr> \<rparr> = r'"
  using advanced_record [OF assms(1,2) refl assms(5,4,3,6)] by simp

lemma not_receipt_entry: "rec_phase r' \<noteq> BootSyncStarted \<Longrightarrow> \<not> receipt_entry r r'"
  by (simp add: receipt_entry_def)

lemma not_allocation:
  "rec_phase r \<noteq> FreshStateAllocating \<Longrightarrow>
     \<not> allocation_completed r r' \<and> \<not> allocation_observed_during_rollback r r'"
  by (simp add: allocation_completed_def allocation_observed_during_rollback_def)

lemma phase_of_forward_eq_simps [simp]:
  "phase_of_forward p = FreshStateAllocating \<longleftrightarrow> p = FFreshStateAllocating"
  "phase_of_forward p = FreshStateAllocated \<longleftrightarrow> p = FFreshStateAllocated"
  "phase_of_forward p = BootSyncStarted \<longleftrightarrow> p = FBootSyncStarted"
  "phase_of_forward p = BootSyncComplete \<longleftrightarrow> p = FBootSyncComplete"
  "phase_of_forward p \<noteq> RollbackDecided"
  by (cases p; simp)+

lemma next_is_boot_complete: "next_forward_phase r c = Some FBootSyncComplete \<Longrightarrow> c = FBootSyncStarted"
  by (cases c) (auto simp: next_forward_phase_def Let_def split: if_splits)

lemma advance_forward_is_step:
  assumes adv: "validate_advance r r' = Ok ()"
    and c: "forward (rec_phase r) = Some c" and a: "forward (rec_phase r') = Some a"
    and legacy: "rec_version r = PAYLOAD_VERSION \<or> a \<notin> {FBootSyncStarted, FBootSyncComplete}"
  shows "journal_step r r'"
proof -
  note adv_facts = adv [unfolded validate_advance_Ok_iff]
  have v: "validate r = Ok ()" and v': "validate r' = Ok ()"
    and gen: "next_generation r = Ok (rec_generation r')"
    and ids: "cand_id (rec_candidate r) = cand_id (rec_candidate r')
              \<or> allocation_completed r r' \<or> allocation_observed_during_rollback r r'"
    and imm: "\<not> immutable_data_changed r r'" and tid: "rec_transition_id r = rec_transition_id r'"
    and receipts: "rec_receipts r = rec_receipts r' \<or> receipt_entry r r'"
    using adv_facts by (simp_all add: next_generation_def result_simps)
  have plan: "rec_rollback r = None" "rec_rollback r' = None"
    using valid_forward_no_plan [OF v c] valid_forward_no_plan [OF v' a] .
  have nxt: "next_forward_phase r c = Some a"
    using adv_facts c a by (auto simp: validate_phase_advance_def Let_def result_simps split: if_splits)
  have ph: "rec_phase r' = phase_of_forward a" "rec_phase r = phase_of_forward c"
    using a c by (simp_all add: forward_Some_iff)
  have ro: "receipts_ok r' a" "reachable_layout r' a"
    using v' a plan by (auto simp: validate_Ok_iff layout_phase_def)
  consider "a = FBootSyncStarted" | "a = FBootSyncComplete" | "a \<noteq> FBootSyncStarted" "a \<noteq> FBootSyncComplete"
    by blast
  then show ?thesis
  proof cases
    case 1
    have "rec_version r' = PAYLOAD_VERSION"
      using legacy 1 imm by (auto simp: immutable_data_changed_def)
    then obtain pair where pair: "rec_receipts r' = Some pair"
      using ro 1 by (auto simp: receipts_ok_def reachable_layout_def is_some_iff)
    have "cand_id (rec_candidate r') = cand_id (rec_candidate r)"
      using ids ph 1 by (auto simp: allocation_completed_def allocation_observed_during_rollback_def)
    then have "r\<lparr> rec_generation := rec_generation r', rec_phase := BootSyncStarted,
                  rec_receipts := Some pair \<rparr> = r'"
      using advanced_receipts [OF imm tid] plan ph 1 pair by simp
    then have "boot_sync_started_successor r pair = Ok r'"
      using v gen adv c nxt 1 legacy by (auto simp: boot_sync_started_successor_def result_simps Let_def)
    then show ?thesis by (rule step_boot_started)
  next
    case 2
    have "rec_version r = PAYLOAD_VERSION" and "c = FBootSyncStarted"
      using legacy 2 next_is_boot_complete nxt by auto
    have eq: "rec_receipts r' = rec_receipts r"
      using receipts not_receipt_entry ph 2 by simp
    have "rec_version r' = PAYLOAD_VERSION"
      using legacy 2 imm by (auto simp: immutable_data_changed_def)
    then obtain pair where pair: "rec_receipts r' = Some pair"
      using ro 2 by (auto simp: receipts_ok_def reachable_layout_def is_some_iff)
    have "cand_id (rec_candidate r') = cand_id (rec_candidate r)"
      using ids ph 2 by (auto simp: allocation_completed_def allocation_observed_during_rollback_def)
    then have "r\<lparr> rec_generation := rec_generation r', rec_phase := BootSyncComplete \<rparr> = r'"
      using advanced_phase [OF imm tid eq] plan ph 2 by simp
    then have "boot_sync_complete_successor r pair = Ok r'"
      using v gen adv ph \<open>c = _\<close> \<open>rec_version r = _\<close> pair eq
      by (auto simp: boot_sync_complete_successor_def result_simps Let_def)
    then show ?thesis by (rule step_boot_complete)
  next
    case 3
    have eq: "rec_receipts r' = rec_receipts r"
      using receipts not_receipt_entry ph 3 by simp
    define alloc where "alloc \<longleftrightarrow> (c, a) = (FFreshStateAllocating, FFreshStateAllocated)"
    define i where "i = (if alloc then cand_id (rec_candidate r') else None)"
    have keep: "\<not> alloc \<Longrightarrow> cand_id (rec_candidate r') = cand_id (rec_candidate r)"
      using ids ph
      by (auto simp: alloc_def allocation_completed_def allocation_observed_during_rollback_def)
    have cand: "r\<lparr> rec_generation := rec_generation r', rec_phase := phase_of_forward a,
        rec_candidate := (rec_candidate r)\<lparr> cand_id := cand_id (rec_candidate r') \<rparr> \<rparr> = r'"
      by (rule advanced_candidate [OF imm tid eq]) (simp_all add: plan ph)
    moreover have "\<not> alloc \<Longrightarrow> r\<lparr> rec_generation := rec_generation r', rec_phase := phase_of_forward a \<rparr> = r'"
      by (rule advanced_phase [OF imm tid eq keep]) (simp_all add: plan ph)
    ultimately have "forward_successor r i = Ok r'"
      using v gen adv c nxt 3
      by (cases alloc) (auto simp: forward_successor_def result_simps Let_def i_def alloc_def)
    then show ?thesis by (rule step_forward)
  qed
qed

text \<open>A plan that \<open>RollbackDecided\<close> admits is the plan of some observations.\<close>

definition observation_of :: "rollback_action \<Rightarrow> initial_rollback_action option" where
  "observation_of a =
     (case a of NotRequired \<Rightarrow> None | Pending \<Rightarrow> Some InitialPending | _ \<Rightarrow> Some InitialAlreadySatisfied)"

lemma observed_initial_action_of:
  assumes "a \<noteq> Applied" and "possible = required a"
  shows "observed_initial_action name possible (observation_of a) = Ok a"
  using assms by (cases a) (auto simp: observation_of_def required_def)

definition observations_of :: "rollback_plan \<Rightarrow> i32 option \<Rightarrow> rollback_observations" where
  "observations_of plan i =
     \<lparr> obs_allocated_candidate_id = i,
       obs_previous_archive = observation_of (plan_previous_archive plan),
       obs_usr_exchange = observation_of (plan_usr_exchange plan),
       obs_candidate = (if cr_action (plan_candidate plan) = Pending then InitialPending
                        else InitialAlreadySatisfied),
       obs_fresh_db = observation_of (plan_fresh_db plan) \<rparr>"

lemma decide_plan_observations_of:
  assumes ok: "plan_ok r plan" and dec: "validate_rollback_phase RollbackDecided plan = Ok ()"
  shows "decide_plan r (plan_source plan) (observations_of plan i) = Ok plan"
proof -
  have na: "plan_previous_archive plan \<noteq> Applied" "plan_usr_exchange plan \<noteq> Applied"
    "cr_action (plan_candidate plan) \<noteq> Applied" "plan_fresh_db plan \<noteq> Applied"
    and boot: "plan_boot plan \<in> {BootNotRequired, BootPendingUnverifiable}"
    using dec by (auto simp: validate_rollback_phase_def rollback_actions_def boot_undecided_def
        split: if_splits)
  have cand: "rollback_action_of_initial
      (if cr_action (plan_candidate plan) = Pending then InitialPending else InitialAlreadySatisfied)
      = cr_action (plan_candidate plan)"
    using ok na by (cases "cr_action (plan_candidate plan)") (auto simp: plan_ok_def required_def)
  note ok' = ok [unfolded plan_ok_def]
  have "plan = \<lparr> plan_source = plan_source plan,
              plan_previous_archive = plan_previous_archive plan,
              plan_usr_exchange = plan_usr_exchange plan,
              plan_candidate = \<lparr> cr_action = cr_action (plan_candidate plan),
                                 cr_disposition = candidate_disposition_for r (plan_source plan) \<rparr>,
              plan_fresh_db = plan_fresh_db plan,
              plan_boot = (if plan_source plan = FBootSyncStarted then BootPendingUnverifiable
                           else BootNotRequired),
              plan_external_effects_may_remain = external_effects_expected r (plan_source plan) \<rparr>"
    using ok' boot by (cases plan; cases "plan_candidate plan") auto
  then show ?thesis
    unfolding decide_plan_def observations_of_def Let_def rollback_observations.select_convs cand
      external_effects_expected_def
    using ok' na by (simp only: observed_initial_action_of res_bind.simps result.inject not_False_eq_True)
qed

lemma advance_decision_is_step:
  assumes adv: "validate_advance r r' = Ok ()"
    and c: "forward (rec_phase r) = Some c" and a: "forward (rec_phase r') = None"
  shows "journal_step r r'"
proof -
  note adv_facts = adv [unfolded validate_advance_Ok_iff]
  have v: "validate r = Ok ()" and v': "validate r' = Ok ()"
    and gen: "next_generation r = Ok (rec_generation r')"
    and ids: "cand_id (rec_candidate r) = cand_id (rec_candidate r')
              \<or> allocation_completed r r' \<or> allocation_observed_during_rollback r r'"
    and imm: "\<not> immutable_data_changed r r'" and tid: "rec_transition_id r = rec_transition_id r'"
    and receipts: "rec_receipts r = rec_receipts r' \<or> receipt_entry r r'"
    using adv_facts by (simp_all add: next_generation_def result_simps)
  obtain plan where plan: "rec_rollback r' = Some plan"
    using v' a by (rule valid_rollback_has_plan)
  have dec: "rec_phase r' = RollbackDecided" "rollback_allowed r c" "plan_source plan = c"
    using adv_facts c a plan by (auto simp: validate_phase_advance_def Let_def split: if_splits)
  have pok: "plan_ok r plan" "validate_rollback_phase RollbackDecided plan = Ok ()"
    using v' plan dec plan_ok_cong [OF immutable_fields(4,6) [OF imm]]
    by (auto simp: validate_Ok_iff rollback_ok_def)
  define i where "i = (if cand_id (rec_candidate r) = None then cand_id (rec_candidate r') else None)"
  have eq: "rec_receipts r' = rec_receipts r"
    using receipts dec by (simp add: not_receipt_entry)
  have keep: "cand_id (rec_candidate r) \<noteq> None \<Longrightarrow> cand_id (rec_candidate r') = cand_id (rec_candidate r)"
    using ids by (auto simp: allocation_completed_def allocation_observed_during_rollback_def)
  have dp: "decide_plan r c (observations_of plan i) = Ok plan"
    using decide_plan_observations_of [OF pok] dec by simp
  have shape: "r\<lparr> rec_generation := rec_generation r', rec_phase := RollbackDecided,
       rec_candidate := (rec_candidate r)\<lparr> cand_id := cand_id (rec_candidate r') \<rparr>,
       rec_rollback := Some plan \<rparr> = r'"
    by (intro trans [OF _ advanced_record [OF imm tid refl dec(1) plan eq refl, symmetric]]) simp
  have keep_shape: "cand_id (rec_candidate r) \<noteq> None \<Longrightarrow>
      r\<lparr> rec_generation := rec_generation r', rec_phase := RollbackDecided, rec_rollback := Some plan \<rparr> = r'"
    by (rule advanced_plan [OF imm tid eq keep dec(1) plan])
  have "rollback_decision r (observations_of plan i) = Ok r'"
    unfolding rollback_decision_def
    using v gen adv c dec(2) dp shape keep_shape
    by (cases "cand_id (rec_candidate r) = None")
       (auto simp: Let_def i_def observations_of_def)
  then show ?thesis by (rule step_decision)
qed

text \<open>A legal change of the plan is one completed action, or a change of the boot status.\<close>

lemma plan_advance_no_action:
  assumes adv: "validate_rollback_plan_advance plan plan' p p' = Ok ()"
    and none: "completed_action p p' = None"
  shows "plan' = plan\<lparr> plan_boot := plan_boot plan' \<rparr>"
    and "boot_advance_ok (plan_boot plan) (plan_boot plan') p p'"
  using adv none
  by (auto simp: validate_rollback_plan_advance_def rollback_actions_def upt_rec split: if_splits
      intro!: rollback_plan.equality candidate_rollback.equality)

lemma resolved_outcome:
  assumes "resolved a"
  obtains out where "a = rollback_action_of_outcome out"
  using assms by (cases a) (auto simp: resolved_def intro: that [of OutcomeApplied] that [of OutcomeAlreadySatisfied])

lemma plan_advance_action:
  assumes adv: "validate_rollback_plan_advance plan plan' p p' = Ok ()"
    and some: "completed_action p p' = Some k"
  shows "\<exists>out. set_action p p' (rollback_action_of_outcome out) plan = Ok plan'"
proof -
  have boot: "plan_boot plan' = plan_boot plan"
    using adv some
    by (auto simp: validate_rollback_plan_advance_def boot_advance_ok_def completed_action_def split: if_splits)
  have "k < 4" using some by (auto simp: completed_action_def split: if_splits)
  then have "resolved (rollback_actions plan' ! k)"
    using adv some
    by (auto simp: validate_rollback_plan_advance_def rollback_actions_def upt_rec less_Suc_eq numeral_eq_Suc
        split: if_splits)
  then obtain out where out: "rollback_actions plan' ! k = rollback_action_of_outcome out"
    by (rule resolved_outcome)
  have "set_action p p' (rollback_action_of_outcome out) plan = Ok plan'"
    using adv some boot out \<open>k < 4\<close>
    by (auto simp: set_action_def validate_rollback_plan_advance_def rollback_actions_def upt_rec
        less_Suc_eq numeral_eq_Suc split: if_splits intro!: rollback_plan.equality candidate_rollback.equality)
  then show ?thesis ..
qed

lemma next_rollback_phase_forward: "next_rollback_phase plan p = Some q \<Longrightarrow> forward p = None"
  by (cases p) (simp_all add: next_rollback_phase_def)

lemma next_pending_phase_cases:
  assumes "next_pending_phase plan = Some q"
  shows "q \<in> {PreviousRestoreIntent, ReverseExchangeIntent, CandidatePreserveIntent,
              FreshDbInvalidationIntent, BootRepairRequired, RollbackComplete}"
  using assms
  by (auto simp: next_pending_phase_def first_pending_def rollback_actions_def
      split: option.splits boot_rollback.splits if_splits)

text \<open>Outside boot repair, an ordinary completion is exactly a completed action.\<close>

lemma ordinary_completion_iff:
  assumes "next_rollback_phase plan p = Some q"
    and "p \<notin> {BootRepairRequired, BootRepairStarted, BootRepairComplete}"
  shows "ordinary_completion p q \<longleftrightarrow> completed_action p q \<noteq> None"
  using assms
  by (cases p)
     (auto simp: next_rollback_phase_def ordinary_completion_def rollback_action_phase_def
        completed_action_def dest!: next_pending_phase_cases)

text \<open>What a legal step between two rollback records says, in the terms the constructors use.\<close>

lemma rollback_advance_facts:
  assumes adv: "validate_advance r r' = Ok ()"
    and c: "forward (rec_phase r) = None" and a: "forward (rec_phase r') = None"
  obtains plan plan' where "rec_rollback r = Some plan" and "rec_rollback r' = Some plan'"
    and "validate r = Ok ()" and "next_generation r = Ok (rec_generation r')"
    and "(rec_phase r, rec_phase r') = (BootRepairStarted, BootRepairComplete)
         \<or> next_rollback_phase plan (rec_phase r) = Some (rec_phase r')"
    and "validate_rollback_plan_advance plan plan' (rec_phase r) (rec_phase r') = Ok ()"
    and "validate_rollback_phase (rec_phase r') plan' = Ok ()"
    and "r\<lparr> rec_generation := rec_generation r', rec_phase := rec_phase r', rec_rollback := Some plan' \<rparr> = r'"
    and "plan' = plan \<Longrightarrow> r\<lparr> rec_generation := rec_generation r', rec_phase := rec_phase r' \<rparr> = r'"
proof -
  note adv_facts = adv [unfolded validate_advance_Ok_iff]
  have v: "validate r = Ok ()" and v': "validate r' = Ok ()"
    and gen: "next_generation r = Ok (rec_generation r')"
    and imm: "\<not> immutable_data_changed r r'" and tid: "rec_transition_id r = rec_transition_id r'"
    using adv_facts by (simp_all add: next_generation_def result_simps)
  have rcp: "rec_receipts r' = rec_receipts r"
    using adv_facts a by (auto simp: receipt_entry_def)
  have cid: "cand_id (rec_candidate r') = cand_id (rec_candidate r)"
    using adv_facts c by (auto simp: allocation_completed_def allocation_observed_during_rollback_def)
  obtain plan where plan: "rec_rollback r = Some plan"
    using v c by (rule valid_rollback_has_plan)
  obtain plan' where plan': "rec_rollback r' = Some plan'"
    using v' a by (rule valid_rollback_has_plan)
  show thesis
  proof (rule that [OF plan plan' v gen])
    show "(rec_phase r, rec_phase r') = (BootRepairStarted, BootRepairComplete)
        \<or> next_rollback_phase plan (rec_phase r) = Some (rec_phase r')"
      and "validate_rollback_plan_advance plan plan' (rec_phase r) (rec_phase r') = Ok ()"
      using adv_facts c a plan plan' by (auto simp: validate_phase_advance_def Let_def split: if_splits)
    show "validate_rollback_phase (rec_phase r') plan' = Ok ()"
      using v' plan' by (simp add: validate_Ok_iff rollback_ok_def)
    show "r\<lparr> rec_generation := rec_generation r', rec_phase := rec_phase r', rec_rollback := Some plan' \<rparr> = r'"
      by (rule advanced_plan [OF imm tid rcp cid refl plan'])
    show "r\<lparr> rec_generation := rec_generation r', rec_phase := rec_phase r' \<rparr> = r'" if "plan' = plan"
      using advanced_phase [OF imm tid rcp cid _ refl] plan plan' that by simp
  qed
qed

text \<open>Where no action completes and no boot repair is started, the plan is carried over as it is.\<close>

lemma plan_advance_routing:
  assumes "validate_rollback_plan_advance plan plan' p p' = Ok ()"
    and "completed_action p p' = None" and "p \<noteq> BootRepairStarted"
  shows "plan' = plan"
proof -
  have "plan_boot plan' = plan_boot plan"
    using plan_advance_no_action(2) [OF assms(1,2)] assms(3) by (auto simp: boot_advance_ok_def)
  then show ?thesis using plan_advance_no_action(1) [OF assms(1,2)] by simp
qed

lemma advance_repair_started_is_step:
  assumes adv: "validate_advance r r' = Ok ()" and a: "forward (rec_phase r') = None"
    and started: "rec_phase r = BootRepairStarted"
  shows "journal_step r r'"
proof -
  have "forward (rec_phase r) = None" using started by simp
  from adv this a show ?thesis
  proof (rule rollback_advance_facts)
    fix plan plan'
    assume plan: "rec_rollback r = Some plan" and v: "validate r = Ok ()"
      and gen: "next_generation r = Ok (rec_generation r')"
      and phase: "(rec_phase r, rec_phase r') = (BootRepairStarted, BootRepairComplete)
         \<or> next_rollback_phase plan (rec_phase r) = Some (rec_phase r')"
      and padv: "validate_rollback_plan_advance plan plan' (rec_phase r) (rec_phase r') = Ok ()"
      and ok: "validate_rollback_phase (rec_phase r') plan' = Ok ()"
      and shape: "r\<lparr> rec_generation := rec_generation r', rec_phase := rec_phase r',
                     rec_rollback := Some plan' \<rparr> = r'"
    have edit: "plan\<lparr> plan_boot := plan_boot plan' \<rparr> = plan'"
      using plan_advance_no_action(1) [OF padv] started by (simp add: completed_action_def)
    consider (unverified) "rec_phase r' = BootRepairUnverified" | (complete) "rec_phase r' = BootRepairComplete"
      using phase started by (auto simp: next_rollback_phase_def)
    then show ?thesis
    proof cases
      case unverified
      then have "plan_boot plan' = BootUnverified"
        using ok by (auto simp: validate_rollback_phase_def split: if_splits)
      then have "boot_repair_unverified_successor r = Ok r'"
        using v gen adv started plan unverified shape edit by (simp add: boot_repair_unverified_successor_def)
      then show ?thesis by (rule step_repair_unverified)
    next
      case complete
      then have "plan_boot plan' \<in> {BootApplied, BootAlreadySatisfied}"
        using ok by (auto simp: validate_rollback_phase_def split: if_splits)
      then obtain out where "plan_boot plan' = boot_rollback_of_outcome out"
        by (auto intro: that [of RepairApplied] that [of RepairAlreadySatisfied])
      then have "boot_repair_complete_successor r out = Ok r'"
        using v gen adv started plan complete shape edit by (simp add: boot_repair_complete_successor_def)
      then show ?thesis by (rule step_repair_complete)
    qed
  qed
qed

lemma advance_repair_routing_is_step:
  assumes adv: "validate_advance r r' = Ok ()" and a: "forward (rec_phase r') = None"
    and p: "rec_phase r \<in> {BootRepairRequired, BootRepairComplete}"
  shows "journal_step r r'"
proof -
  have "forward (rec_phase r) = None" using p by auto
  from adv this a show ?thesis
  proof (rule rollback_advance_facts)
    fix plan plan'
    assume v: "validate r = Ok ()" and gen: "next_generation r = Ok (rec_generation r')"
      and phase: "(rec_phase r, rec_phase r') = (BootRepairStarted, BootRepairComplete)
         \<or> next_rollback_phase plan (rec_phase r) = Some (rec_phase r')"
      and padv: "validate_rollback_plan_advance plan plan' (rec_phase r) (rec_phase r') = Ok ()"
      and shape: "plan' = plan \<Longrightarrow> r\<lparr> rec_generation := rec_generation r', rec_phase := rec_phase r' \<rparr> = r'"
    have "plan' = plan"
      using p by (intro plan_advance_routing [OF padv]) (auto simp: completed_action_def)
    then have "boot_repair_started_successor r = Ok r' \<or> boot_repair_rollback_complete_successor r = Ok r'"
      using v gen adv p phase shape
      by (auto simp: boot_repair_started_successor_def boot_repair_rollback_complete_successor_def
          next_rollback_phase_def)
    then show ?thesis by (blast intro: step_repair_started step_repair_finished)
  qed
qed

lemma advance_ordinary_is_step:
  assumes adv: "validate_advance r r' = Ok ()"
    and c: "forward (rec_phase r) = None" and a: "forward (rec_phase r') = None"
    and ordinary: "rec_phase r \<notin> {BootRepairRequired, BootRepairStarted, BootRepairComplete}"
  shows "journal_step r r'"
  using adv c a
proof (rule rollback_advance_facts)
  fix plan plan'
  assume plan: "rec_rollback r = Some plan" and v: "validate r = Ok ()"
    and gen: "next_generation r = Ok (rec_generation r')"
    and phase: "(rec_phase r, rec_phase r') = (BootRepairStarted, BootRepairComplete)
       \<or> next_rollback_phase plan (rec_phase r) = Some (rec_phase r')"
    and padv: "validate_rollback_plan_advance plan plan' (rec_phase r) (rec_phase r') = Ok ()"
    and shape: "r\<lparr> rec_generation := rec_generation r', rec_phase := rec_phase r',
                   rec_rollback := Some plan' \<rparr> = r'"
  have nxt: "next_rollback_phase plan (rec_phase r) = Some (rec_phase r')"
    using phase ordinary by auto
  note oc = ordinary_completion_iff [OF nxt ordinary]
  obtain outcome where oc': "ordinary_completion (rec_phase r) (rec_phase r') = is_some outcome"
    and edit: "(case outcome of None \<Rightarrow> Ok plan
         | Some out \<Rightarrow> set_action (rec_phase r) (rec_phase r') (rollback_action_of_outcome out) plan) = Ok plan'"
  proof (cases "completed_action (rec_phase r) (rec_phase r')")
    case None
    then have "plan' = plan" using ordinary by (intro plan_advance_routing [OF padv]) auto
    then show ?thesis using that [of None] oc None by simp
  next
    case (Some k)
    then obtain out where "set_action (rec_phase r) (rec_phase r') (rollback_action_of_outcome out) plan = Ok plan'"
      using plan_advance_action [OF padv] by blast
    then show ?thesis using that [of "Some out"] oc Some by simp
  qed
  have "rollback_successor r outcome = Ok r'"
    using v gen adv plan nxt shape ordinary oc' edit by (auto simp: rollback_successor_def)
  then show ?thesis by (rule step_rollback)
qed

section \<open>The constructors make exactly the legal steps\<close>

lemma next_rollback_phase_rollback: "next_rollback_phase plan p = Some q \<Longrightarrow> forward q = None"
  by (cases p) (auto simp: next_rollback_phase_def dest!: next_pending_phase_cases)

text \<open>Records before version 3 carry no receipts: no constructor takes them into boot publication.\<close>

definition constructible :: "transition_record \<Rightarrow> transition_record \<Rightarrow> bool" where
  "constructible r r' \<longleftrightarrow>
     rec_version r = PAYLOAD_VERSION \<or> rec_phase r' \<notin> {BootSyncStarted, BootSyncComplete}"

lemma rollback_decision_phase: "rollback_decision r observations = Ok r' \<Longrightarrow> rec_phase r' = RollbackDecided"
  by (clarsimp simp: rollback_decision_def result_simps Let_def)

lemma rollback_successor_phase: "rollback_successor r outcome = Ok r' \<Longrightarrow> forward (rec_phase r') = None"
  by (auto simp: rollback_successor_def result_simps Let_def dest!: next_rollback_phase_rollback)

lemma forward_successor_phase:
  assumes "forward_successor r i = Ok r'"
  shows "rec_phase r' \<noteq> BootSyncStarted" "rec_phase r' \<noteq> BootSyncComplete"
  using assms by (clarsimp simp: forward_successor_def Let_def result_simps; simp split: if_splits)+

lemma boot_sync_successor_version:
  "boot_sync_started_successor r pair = Ok r' \<Longrightarrow> rec_version r = PAYLOAD_VERSION"
  "boot_sync_complete_successor r pair = Ok r' \<Longrightarrow> rec_version r = PAYLOAD_VERSION"
  by (simp_all add: boot_sync_started_successor_def boot_sync_complete_successor_def result_simps)

lemma boot_repair_successor_phase:
  "boot_repair_started_successor r = Ok r' \<Longrightarrow> rec_phase r' = BootRepairStarted"
  "boot_repair_complete_successor r repair = Ok r' \<Longrightarrow> rec_phase r' = BootRepairComplete"
  "boot_repair_unverified_successor r = Ok r' \<Longrightarrow> rec_phase r' = BootRepairUnverified"
  "boot_repair_rollback_complete_successor r = Ok r' \<Longrightarrow> rec_phase r' = RollbackComplete"
  by (clarsimp simp: successor_defs result_simps Let_def)+

lemma journal_step_constructible: "journal_step r r' \<Longrightarrow> constructible r r'"
  unfolding constructible_def
  by (erule journal_step.cases)
     (use rollback_successor_phase in
       \<open>force dest: forward_successor_phase boot_sync_successor_version rollback_decision_phase
          boot_repair_successor_phase\<close>)+

lemma advance_is_step:
  assumes adv: "validate_advance r r' = Ok ()" and "constructible r r'"
  shows "journal_step r r'"
proof (cases "forward (rec_phase r)"; cases "forward (rec_phase r')")
  fix c a assume "forward (rec_phase r) = Some c" "forward (rec_phase r') = Some a"
  then show ?thesis
    using advance_forward_is_step [OF adv] assms(2) by (simp add: constructible_def forward_Some_iff)
next
  fix c assume "forward (rec_phase r) = Some c" "forward (rec_phase r') = None"
  then show ?thesis by (rule advance_decision_is_step [OF adv])
next
  fix a assume "forward (rec_phase r) = None" "forward (rec_phase r') = Some a"
  then show ?thesis using adv by (simp add: validate_advance_Ok_iff validate_phase_advance_def)
next
  assume c: "forward (rec_phase r) = None" and a: "forward (rec_phase r') = None"
  then show ?thesis
    using advance_ordinary_is_step [OF adv c a] advance_repair_started_is_step [OF adv a]
      advance_repair_routing_is_step [OF adv a] by blast
qed

end
