(* ===== verification/Journal_Progress.thy ===== *)
theory Journal_Progress
  imports Journal_Steps
begin

text \<open>
  Progress: from every valid record that is not terminal the right constructor succeeds.
\<close>

section \<open>Forward\<close>

lemma generation_room:
  assumes "unat (rec_generation r) < 2 ^ 64 - 1"
  shows "next_generation r = Ok (rec_generation r + 1)" and "rec_generation r + 1 \<noteq> 0"
    and "checked_add (rec_generation r) 1 = Some (rec_generation r + 1)"
proof -
  show *: "checked_add (rec_generation r) 1 = Some (rec_generation r + 1)"
    using assms by (simp add: checked_add_Some_iff)
  then show "next_generation r = Ok (rec_generation r + 1)" by (simp add: next_generation_def)
  have "unat (rec_generation r + 1) = unat (rec_generation r) + 1"
    using checked_add_unat [OF *] by simp
  then show "rec_generation r + 1 \<noteq> 0" by (metis unat_0 add_is_0 one_neq_zero)
qed

text \<open>The id a forward step must bring: one at the end of the allocation, none elsewhere.\<close>

definition allocation_input_ok :: "transition_record \<Rightarrow> forward_phase \<Rightarrow> i32 option \<Rightarrow> bool" where
  "allocation_input_ok r c i \<longleftrightarrow>
     (if c = FFreshStateAllocating
      then \<exists>n. i = Some n \<and> 0 < sint n \<and> prev_id (rec_previous r) \<noteq> Some n
      else i = None)"

lemma valid_forward_layout:
  assumes "validate r = Ok ()" and "forward (rec_phase r) = Some c"
  shows "receipts_ok r c" "reachable_layout r c" "fresh_id_ok r c"
  using assms by (auto simp: validate_Ok_iff layout_phase_def split: option.splits)

lemma next_forward_id:
  assumes v: "validate r = Ok ()" and c: "forward (rec_phase r) = Some c"
    and nxt: "next_forward_phase r c = Some a" and i: "allocation_input_ok r c i"
    and r': "rec_candidate r' = (rec_candidate r)\<lparr> cand_id := (if c = FFreshStateAllocating then i else cand_id (rec_candidate r)) \<rparr>"
      "rec_operation r' = rec_operation r" "rec_previous r' = rec_previous r" "rec_rollback r' = None"
  shows "candidate_id_ok r'" "fresh_id_ok r' a"
proof -
  have ok: "candidate_id_ok r" using v by (simp add: validate_Ok_iff)
  have layout: "fresh_id_ok r c" "reachable_layout r c" using valid_forward_layout [OF v c] by simp_all
  show "candidate_id_ok r'"
  proof (cases "c = FFreshStateAllocating")
    case True
    then have "rec_operation r = NewState" using layout by (simp add: reachable_layout_def)
    then show ?thesis using True i r' by (auto simp: candidate_id_ok_def allocation_input_ok_def)
  next
    case False
    then show ?thesis using ok r' by (simp add: candidate_id_ok_def)
  qed
  show "fresh_id_ok r' a"
    using layout(1) nxt i r'
    by (cases c) (auto simp: fresh_id_ok_def next_forward_phase_def allocation_input_ok_def Let_def
        split: if_splits)
qed

text \<open>The receipts a forward step must bring: the pair when boot publication starts.\<close>

definition receipts_input_ok :: "transition_record \<Rightarrow> forward_phase \<Rightarrow> receipt_pair option \<Rightarrow> bool" where
  "receipts_input_ok r a rc \<longleftrightarrow>
     (if a = FBootSyncStarted \<and> rec_version r = PAYLOAD_VERSION then is_some rc else rc = rec_receipts r)"

lemma next_forward_receipts:
  assumes v: "validate r = Ok ()" and c: "forward (rec_phase r) = Some c"
    and nxt: "next_forward_phase r c = Some a" and rc: "receipts_input_ok r a rc"
    and r': "rec_version r' = rec_version r" "rec_options r' = rec_options r" "rec_receipts r' = rc"
  shows "receipts_ok r' a"
proof (cases "a = FBootSyncStarted")
  case True
  have "reachable_layout r a"
    using next_forward_phase_reachable [OF valid_forward_layout(2) [OF v c] nxt] .
  then show ?thesis
    using True rc r' valid_forward_layout(1) [OF v c]
    by (auto simp: receipts_input_ok_def receipts_ok_def reachable_layout_def split: if_splits)
next
  case False
  then show ?thesis
    using rc r' valid_forward_layout(1) [OF v c] next_forward_phase_boot_order [OF nxt False]
    by (auto simp: receipts_input_ok_def receipts_ok_def simp del: ordinal.simps)
qed

definition forward_next ::
    "transition_record \<Rightarrow> forward_phase \<Rightarrow> forward_phase \<Rightarrow> i32 option \<Rightarrow> receipt_pair option \<Rightarrow> transition_record" where
  "forward_next r c a i rc =
     r\<lparr> rec_generation := rec_generation r + 1, rec_phase := phase_of_forward a, rec_receipts := rc,
        rec_candidate := (rec_candidate r)\<lparr> cand_id :=
          (if c = FFreshStateAllocating then i else cand_id (rec_candidate r)) \<rparr> \<rparr>"

lemma forward_next_advances:
  assumes v: "validate r = Ok ()" and c: "forward (rec_phase r) = Some c"
    and nxt: "next_forward_phase r c = Some a" and room: "unat (rec_generation r) < 2 ^ 64 - 1"
    and i: "allocation_input_ok r c i" and rc: "receipts_input_ok r a rc"
  shows "validate_advance r (forward_next r c a i rc) = Ok ()"
proof -
  let ?r = "forward_next r c a i rc"
  have np: "rec_rollback r = None" by (rule valid_forward_no_plan [OF v c])
  have imm: "\<not> immutable_data_changed r ?r" by (simp add: immutable_data_changed_def forward_next_def)
  have "fixed_ok ?r" using v fixed_ok_cong [OF imm] by (simp add: validate_Ok_iff)
  moreover have "candidate_id_ok ?r" "fresh_id_ok ?r a"
    by (rule next_forward_id [OF v c nxt i]; simp add: forward_next_def np)+
  moreover have "receipts_ok ?r a"
    by (rule next_forward_receipts [OF v c nxt rc]) (simp_all add: forward_next_def)
  moreover have "reachable_layout ?r a"
    using next_forward_phase_reachable [OF valid_forward_layout(2) [OF v c] nxt]
      reachable_layout_cong [of ?r r] by (simp add: forward_next_def)
  moreover have "layout_phase ?r = Ok a" "v1_ok ?r" "rollback_ok ?r"
    using np by (cases a; simp add: forward_next_def layout_phase_def v1_ok_def rollback_ok_def)+
  ultimately have v': "validate ?r = Ok ()"
    using generation_room [OF room] by (auto simp: validate_Ok_iff forward_next_def)
  have "rec_receipts r = rec_receipts ?r \<or> receipt_entry r ?r"
  proof (cases "a = FBootSyncStarted \<and> rec_version r = PAYLOAD_VERSION")
    case True
    then have "rec_receipts r = None"
      using valid_forward_layout(1) [OF v c] next_forward_phase_later [OF nxt]
      by (auto simp: receipts_ok_def is_some_def)
    then show ?thesis using True rc by (simp add: receipt_entry_def receipts_input_ok_def forward_next_def)
  next
    case False
    then show ?thesis using rc by (auto simp: receipts_input_ok_def forward_next_def)
  qed
  moreover have "cand_id (rec_candidate r) = cand_id (rec_candidate ?r) \<or> allocation_completed r ?r"
  proof (cases "c = FFreshStateAllocating")
    case True
    then have "a = FFreshStateAllocated" "cand_id (rec_candidate r) = None" "is_some i"
      using nxt valid_forward_layout [OF v c] np i
      by (auto simp: next_forward_phase_def fresh_id_ok_def reachable_layout_def allocation_input_ok_def)
    then show ?thesis using True c by (simp add: allocation_completed_def forward_next_def forward_Some_iff)
  qed (simp add: forward_next_def)
  moreover have "\<not> blocks_advance (rec_phase r)"
    using c nxt next_forward_phase_None_iff [of r FComplete] by (auto simp: blocks_advance_def)
  moreover have "validate_phase_advance r ?r = Ok ()"
    using c nxt by (simp add: validate_phase_advance_def forward_next_def)
  moreover have "checked_add (rec_generation r) 1 = Some (rec_generation ?r)"
    "rec_transition_id r = rec_transition_id ?r"
    using generation_room [OF room] by (simp_all add: forward_next_def)
  ultimately show ?thesis
    using v v' imm unfolding validate_advance_Ok_iff by blast
qed

text \<open>The three forward constructors succeed on the inputs their phase asks for.\<close>

lemma forward_successor_progress:
  assumes v: "validate r = Ok ()" and c: "forward (rec_phase r) = Some c"
    and nxt: "next_forward_phase r c = Some a" and a: "a \<notin> {FBootSyncStarted, FBootSyncComplete}"
    and room: "unat (rec_generation r) < 2 ^ 64 - 1" and i: "allocation_input_ok r c i"
  shows "forward_successor r i = Ok (forward_next r c a i (rec_receipts r))"
proof -
  have adv: "validate_advance r (forward_next r c a i (rec_receipts r)) = Ok ()"
    using a by (intro forward_next_advances [OF v c nxt room i]) (simp add: receipts_input_ok_def)
  have alloc: "c = FFreshStateAllocating \<Longrightarrow> a = FFreshStateAllocated"
    using nxt by (simp add: next_forward_phase_def)
  show ?thesis
  proof (cases "c = FFreshStateAllocating")
    case True
    then show ?thesis
      using adv v c nxt alloc generation_room [OF room]
      by (simp add: forward_successor_def forward_next_def Let_def)
  next
    case False
    then show ?thesis
      using adv v c nxt a i generation_room [OF room]
      by (simp add: forward_successor_def forward_next_def Let_def allocation_input_ok_def)
  qed
qed

lemma boot_sync_started_progress:
  assumes v: "validate r = Ok ()" and c: "forward (rec_phase r) = Some c"
    and nxt: "next_forward_phase r c = Some FBootSyncStarted" and version: "rec_version r = PAYLOAD_VERSION"
    and room: "unat (rec_generation r) < 2 ^ 64 - 1"
  shows "boot_sync_started_successor r pair = Ok (forward_next r c FBootSyncStarted None (Some pair))"
proof -
  have nc: "c \<noteq> FFreshStateAllocating" using nxt by (auto simp: next_forward_phase_def)
  have "validate_advance r (forward_next r c FBootSyncStarted None (Some pair)) = Ok ()"
    using version nc
    by (intro forward_next_advances [OF v c nxt room]) (simp_all add: receipts_input_ok_def allocation_input_ok_def)
  then show ?thesis
    using v c nxt version nc generation_room [OF room]
    by (simp add: boot_sync_started_successor_def forward_next_def)
qed

lemma boot_sync_complete_progress:
  assumes v: "validate r = Ok ()" and p: "rec_phase r = BootSyncStarted"
    and version: "rec_version r = PAYLOAD_VERSION" and room: "unat (rec_generation r) < 2 ^ 64 - 1"
  obtains pair where "rec_receipts r = Some pair"
    and "boot_sync_complete_successor r pair
         = Ok (forward_next r FBootSyncStarted FBootSyncComplete None (rec_receipts r))"
proof -
  have c: "forward (rec_phase r) = Some FBootSyncStarted" using p by simp
  have nxt: "next_forward_phase r FBootSyncStarted = Some FBootSyncComplete"
    by (simp add: next_forward_phase_def)
  have "receipts_ok r FBootSyncStarted" "reachable_layout r FBootSyncStarted"
    using valid_forward_layout [OF v c] by simp_all
  then obtain pair where pair: "rec_receipts r = Some pair"
    using version by (auto simp: receipts_ok_def reachable_layout_def is_some_iff)
  have "validate_advance r (forward_next r FBootSyncStarted FBootSyncComplete None (rec_receipts r)) = Ok ()"
    by (intro forward_next_advances [OF v c nxt room]) (simp_all add: receipts_input_ok_def allocation_input_ok_def)
  moreover have "r\<lparr> rec_generation := rec_generation r + 1, rec_phase := BootSyncComplete \<rparr>
      = forward_next r FBootSyncStarted FBootSyncComplete None (rec_receipts r)"
    by (simp add: forward_next_def)
  ultimately have "boot_sync_complete_successor r pair
      = Ok (forward_next r FBootSyncStarted FBootSyncComplete None (rec_receipts r))"
    using v p version pair generation_room [OF room]
    by (simp add: boot_sync_complete_successor_def)
  then show thesis using that pair by blast
qed

section \<open>Rollback decision\<close>

text \<open>
  Observations that fit a record: an effect is classified exactly when the phase makes it
  possible, and an allocated id is reported exactly when a pending row was observed while the
  allocation was under way.
\<close>

definition observations_ok :: "transition_record \<Rightarrow> forward_phase \<Rightarrow> rollback_observations \<Rightarrow> bool" where
  "observations_ok r c obs \<longleftrightarrow>
     is_some (obs_previous_archive obs)
       = (archive_previous (rec_options r) \<and> ordinal c \<ge> ordinal FPreviousArchiveIntent)
     \<and> is_some (obs_usr_exchange obs) = (ordinal c \<ge> ordinal FUsrExchangeIntent)
     \<and> is_some (obs_fresh_db obs)
         = (rec_operation r = NewState \<and> ordinal c \<ge> ordinal FFreshStateAllocating)
     \<and> is_some (obs_allocated_candidate_id obs)
         = (c = FFreshStateAllocating \<and> obs_fresh_db obs = Some InitialPending)
     \<and> (\<forall>n. obs_allocated_candidate_id obs = Some n \<longrightarrow> 0 < sint n \<and> prev_id (rec_previous r) \<noteq> Some n)"

definition observed_action :: "initial_rollback_action option \<Rightarrow> rollback_action" where
  "observed_action obs = (case obs of None \<Rightarrow> NotRequired | Some o' \<Rightarrow> rollback_action_of_initial o')"

lemma observed_initial_action_Ok:
  "observed_initial_action name (is_some obs) obs = Ok (observed_action obs)"
  by (cases obs) (auto simp: observed_action_def)

lemma rollback_action_of_initial_simps [simp]:
  "rollback_action_of_initial o' \<noteq> Applied" "rollback_action_of_initial o' \<noteq> NotRequired"
  "rollback_action_of_initial o' = Pending \<longleftrightarrow> o' = InitialPending"
  "required (rollback_action_of_initial o')"
  by (cases o'; simp add: required_def)+

lemma observed_action_simps [simp]:
  "required (observed_action obs) = is_some obs" "observed_action obs \<noteq> Applied"
  "observed_action obs = Pending \<longleftrightarrow> obs = Some InitialPending"
  by (auto simp: observed_action_def required_def split: option.splits)

definition decided_plan :: "transition_record \<Rightarrow> forward_phase \<Rightarrow> rollback_observations \<Rightarrow> rollback_plan" where
  "decided_plan r c obs =
     \<lparr> plan_source = c, plan_previous_archive = observed_action (obs_previous_archive obs),
       plan_usr_exchange = observed_action (obs_usr_exchange obs),
       plan_candidate = \<lparr> cr_action = rollback_action_of_initial (obs_candidate obs),
                          cr_disposition = candidate_disposition_for r c \<rparr>,
       plan_fresh_db = observed_action (obs_fresh_db obs),
       plan_boot = (if c = FBootSyncStarted then BootPendingUnverifiable else BootNotRequired),
       plan_external_effects_may_remain = external_effects_expected r c \<rparr>"

lemma observations_ok_possible:
  assumes "observations_ok r c obs"
  shows "(archive_previous (rec_options r) \<and> ordinal FPreviousArchiveIntent \<le> ordinal c)
           = is_some (obs_previous_archive obs)"
    and "(ordinal FUsrExchangeIntent \<le> ordinal c) = is_some (obs_usr_exchange obs)"
    and "(rec_operation r = NewState \<and> ordinal FFreshStateAllocating \<le> ordinal c)
           = is_some (obs_fresh_db obs)"
  using assms unfolding observations_ok_def by blast+

lemma decide_plan_Ok:
  assumes "observations_ok r c obs"
  shows "decide_plan r c obs = Ok (decided_plan r c obs)"
  unfolding decide_plan_def decided_plan_def Let_def observations_ok_possible [OF assms]
    observed_initial_action_Ok res_bind.simps external_effects_expected_def ..

lemma decided_plan_ok:
  assumes "observations_ok r c obs"
  shows "plan_ok r (decided_plan r c obs)"
  unfolding plan_ok_def decided_plan_def rollback_plan.select_convs observations_ok_possible [OF assms]
  by simp

lemma decided_plan_phase: "validate_rollback_phase RollbackDecided (decided_plan r c obs) = Ok ()"
  by (simp add: validate_rollback_phase_def decided_plan_def rollback_actions_def boot_undecided_def)

definition decision_next :: "transition_record \<Rightarrow> forward_phase \<Rightarrow> rollback_observations \<Rightarrow> transition_record" where
  "decision_next r c obs =
     r\<lparr> rec_generation := rec_generation r + 1, rec_phase := RollbackDecided,
        rec_candidate := (rec_candidate r)\<lparr> cand_id :=
          (if c = FFreshStateAllocating then obs_allocated_candidate_id obs else cand_id (rec_candidate r)) \<rparr>,
        rec_rollback := Some (decided_plan r c obs) \<rparr>"

lemma decision_next_id:
  assumes v: "validate r = Ok ()" and c: "forward (rec_phase r) = Some c" and obs: "observations_ok r c obs"
  shows "candidate_id_ok (decision_next r c obs)" "fresh_id_ok (decision_next r c obs) c"
proof -
  have ok: "candidate_id_ok r" using v by (simp add: validate_Ok_iff)
  have np: "rec_rollback r = None" by (rule valid_forward_no_plan [OF v c])
  have layout: "fresh_id_ok r c" "reachable_layout r c" using valid_forward_layout [OF v c] by simp_all
  show "candidate_id_ok (decision_next r c obs)"
  proof (cases "c = FFreshStateAllocating")
    case True
    then have "rec_operation r = NewState" using layout by (simp add: reachable_layout_def)
    then show ?thesis using True obs by (auto simp: candidate_id_ok_def observations_ok_def decision_next_def)
  next
    case False
    then show ?thesis using ok by (simp add: candidate_id_ok_def decision_next_def)
  qed
  show "fresh_id_ok (decision_next r c obs) c"
  proof (cases "c = FFreshStateAllocating")
    case True
    have "observed_action (obs_fresh_db obs) \<noteq> NotRequired"
      using True layout(2) observations_ok_possible(3) [OF obs]
      by (auto simp: reachable_layout_def observed_action_def is_some_iff)
    then show ?thesis
      using True obs by (simp add: fresh_id_ok_def decision_next_def decided_plan_def observations_ok_def)
  next
    case False
    then show ?thesis using layout(1) by (simp add: fresh_id_ok_def decision_next_def)
  qed
qed

lemma decision_next_advances:
  assumes v: "validate r = Ok ()" and c: "forward (rec_phase r) = Some c" and allowed: "rollback_allowed r c"
    and room: "unat (rec_generation r) < 2 ^ 64 - 1" and obs: "observations_ok r c obs"
  shows "validate_advance r (decision_next r c obs) = Ok ()"
proof -
  let ?r = "decision_next r c obs"
  have np: "rec_rollback r = None" by (rule valid_forward_no_plan [OF v c])
  have imm: "\<not> immutable_data_changed r ?r" by (simp add: immutable_data_changed_def decision_next_def)
  have "fixed_ok ?r" using v fixed_ok_cong [OF imm] by (simp add: validate_Ok_iff)
  moreover have "receipts_ok ?r c" "reachable_layout ?r c"
    using valid_forward_layout [OF v c] reachable_layout_cong [of ?r r]
    by (simp_all add: receipts_ok_def decision_next_def)
  moreover have "layout_phase ?r = Ok c" "v1_ok ?r"
    using allowed by (auto simp: decision_next_def layout_phase_def v1_ok_def rollback_allowed_def decided_plan_def)
  moreover have "rollback_ok ?r"
    using decided_plan_ok [OF obs] decided_plan_phase [of r c obs] plan_ok_cong [of r ?r]
    by (simp add: rollback_ok_def decision_next_def)
  ultimately have v': "validate ?r = Ok ()"
    using decision_next_id [OF v c obs] generation_room [OF room]
    unfolding validate_Ok_iff by (simp add: decision_next_def)
  have "cand_id (rec_candidate r) = cand_id (rec_candidate ?r) \<or> allocation_observed_during_rollback r ?r"
  proof (cases "c = FFreshStateAllocating \<and> is_some (obs_allocated_candidate_id obs)")
    case True
    then have "cand_id (rec_candidate r) = None" "obs_fresh_db obs = Some InitialPending"
      using valid_forward_layout [OF v c] np obs
      by (auto simp: fresh_id_ok_def reachable_layout_def observations_ok_def)
    then show ?thesis
      using True c
      by (simp add: allocation_observed_during_rollback_def decision_next_def decided_plan_def forward_Some_iff)
  next
    case False
    then show ?thesis
      using valid_forward_layout [OF v c] np
      by (auto simp: decision_next_def fresh_id_ok_def reachable_layout_def is_some_def)
  qed
  moreover have "\<not> blocks_advance (rec_phase r)"
    using c allowed by (auto simp: blocks_advance_def rollback_allowed_def)
  moreover have "validate_phase_advance r ?r = Ok ()"
    using c allowed by (simp add: validate_phase_advance_def decision_next_def decided_plan_def)
  moreover have "checked_add (rec_generation r) 1 = Some (rec_generation ?r)"
    "rec_transition_id r = rec_transition_id ?r" "rec_receipts r = rec_receipts ?r"
    using generation_room [OF room] by (simp_all add: decision_next_def)
  ultimately show ?thesis
    using v v' imm unfolding validate_advance_Ok_iff by blast
qed

lemma rollback_decision_progress:
  assumes v: "validate r = Ok ()" and c: "forward (rec_phase r) = Some c" and allowed: "rollback_allowed r c"
    and room: "unat (rec_generation r) < 2 ^ 64 - 1" and obs: "observations_ok r c obs"
  shows "rollback_decision r obs = Ok (decision_next r c obs)"
proof -
  have none: "c = FFreshStateAllocating \<Longrightarrow> cand_id (rec_candidate r) = None"
    "c \<noteq> FFreshStateAllocating \<Longrightarrow> obs_allocated_candidate_id obs = None"
    using valid_forward_layout [OF v c] valid_forward_no_plan [OF v c] obs
    by (auto simp: fresh_id_ok_def reachable_layout_def observations_ok_def is_some_def)
  have shape: "cand_id (rec_candidate r) = None \<Longrightarrow>
      r\<lparr> rec_generation := rec_generation r + 1, rec_phase := RollbackDecided,
         rec_candidate := (rec_candidate r)\<lparr> cand_id := obs_allocated_candidate_id obs \<rparr>,
         rec_rollback := Some (decided_plan r c obs) \<rparr> = decision_next r c obs"
    and shape': "cand_id (rec_candidate r) \<noteq> None \<Longrightarrow>
      r\<lparr> rec_generation := rec_generation r + 1, rec_phase := RollbackDecided,
         rec_rollback := Some (decided_plan r c obs) \<rparr> = decision_next r c obs"
    using none by (auto simp: decision_next_def)
  have none': "cand_id (rec_candidate r) \<noteq> None \<Longrightarrow> obs_allocated_candidate_id obs = None"
    using none by metis
  show ?thesis
    unfolding rollback_decision_def Let_def
    using v c allowed none' generation_room [OF room] decide_plan_Ok [OF obs] shape shape'
      decision_next_advances [OF v c allowed room obs]
    by (cases "cand_id (rec_candidate r) = None") auto
qed

section \<open>Rollback\<close>

lemma settled_iff: "a = NotRequired \<or> resolved a \<longleftrightarrow> a \<noteq> Pending"
  by (cases a) (simp_all add: resolved_def)

lemma validate_rollback_phase_simps:
  "validate_rollback_phase RollbackDecided plan = Ok () \<longleftrightarrow>
     plan_previous_archive plan \<noteq> Applied \<and> plan_usr_exchange plan \<noteq> Applied
     \<and> cr_action (plan_candidate plan) \<noteq> Applied \<and> plan_fresh_db plan \<noteq> Applied \<and> boot_undecided plan"
  "validate_rollback_phase PreviousRestoreIntent plan = Ok () \<longleftrightarrow>
     plan_previous_archive plan = Pending \<and> plan_usr_exchange plan \<noteq> Applied
     \<and> cr_action (plan_candidate plan) \<noteq> Applied \<and> plan_fresh_db plan \<noteq> Applied \<and> boot_undecided plan"
  "validate_rollback_phase PreviousRestoredToStaging plan = Ok () \<longleftrightarrow>
     resolved (plan_previous_archive plan) \<and> plan_usr_exchange plan \<noteq> Applied
     \<and> cr_action (plan_candidate plan) \<noteq> Applied \<and> plan_fresh_db plan \<noteq> Applied \<and> boot_undecided plan"
  "validate_rollback_phase ReverseExchangeIntent plan = Ok () \<longleftrightarrow>
     plan_previous_archive plan \<noteq> Pending \<and> plan_usr_exchange plan = Pending
     \<and> cr_action (plan_candidate plan) \<noteq> Applied \<and> plan_fresh_db plan \<noteq> Applied \<and> boot_undecided plan"
  "validate_rollback_phase UsrRestored plan = Ok () \<longleftrightarrow>
     plan_previous_archive plan \<noteq> Pending \<and> resolved (plan_usr_exchange plan)
     \<and> cr_action (plan_candidate plan) \<noteq> Applied \<and> plan_fresh_db plan \<noteq> Applied \<and> boot_undecided plan"
  "validate_rollback_phase CandidatePreserveIntent plan = Ok () \<longleftrightarrow>
     plan_previous_archive plan \<noteq> Pending \<and> plan_usr_exchange plan \<noteq> Pending
     \<and> cr_action (plan_candidate plan) = Pending \<and> plan_fresh_db plan \<noteq> Applied \<and> boot_undecided plan"
  "validate_rollback_phase CandidatePreserved plan = Ok () \<longleftrightarrow>
     plan_previous_archive plan \<noteq> Pending \<and> plan_usr_exchange plan \<noteq> Pending
     \<and> resolved (cr_action (plan_candidate plan)) \<and> plan_fresh_db plan \<noteq> Applied \<and> boot_undecided plan"
  "validate_rollback_phase FreshDbInvalidationIntent plan = Ok () \<longleftrightarrow>
     plan_previous_archive plan \<noteq> Pending \<and> plan_usr_exchange plan \<noteq> Pending
     \<and> cr_action (plan_candidate plan) \<noteq> Pending \<and> plan_fresh_db plan = Pending \<and> boot_undecided plan"
  "validate_rollback_phase FreshDbInvalidated plan = Ok () \<longleftrightarrow>
     plan_previous_archive plan \<noteq> Pending \<and> plan_usr_exchange plan \<noteq> Pending
     \<and> cr_action (plan_candidate plan) \<noteq> Pending \<and> resolved (plan_fresh_db plan) \<and> boot_undecided plan"
  "validate_rollback_phase BootRepairRequired plan = Ok () \<longleftrightarrow>
     ordinary_actions_resolved plan \<and> plan_boot plan = BootPendingUnverifiable"
  "validate_rollback_phase BootRepairStarted plan = Ok () \<longleftrightarrow>
     ordinary_actions_resolved plan \<and> plan_boot plan = BootPendingUnverifiable"
  "validate_rollback_phase BootRepairComplete plan = Ok () \<longleftrightarrow>
     ordinary_actions_resolved plan \<and> plan_boot plan \<in> {BootApplied, BootAlreadySatisfied}"
  "validate_rollback_phase BootRepairUnverified plan = Ok () \<longleftrightarrow>
     ordinary_actions_resolved plan \<and> plan_boot plan = BootUnverified"
  "validate_rollback_phase RollbackComplete plan = Ok () \<longleftrightarrow>
     ordinary_actions_resolved plan \<and> plan_boot plan \<in> {BootNotRequired, BootApplied, BootAlreadySatisfied}"
  by (simp_all add: validate_rollback_phase_def rollback_action_phase_def rollback_phase_matches_def
      rollback_actions_def settled_iff)

lemma ordinary_actions_resolved_iff:
  "ordinary_actions_resolved plan \<longleftrightarrow>
     plan_previous_archive plan \<noteq> Pending \<and> plan_usr_exchange plan \<noteq> Pending
     \<and> cr_action (plan_candidate plan) \<noteq> Pending \<and> plan_fresh_db plan \<noteq> Pending"
  by (simp add: ordinary_actions_resolved_def rollback_actions_def settled_iff)

lemma first_pending_simps:
  "first_pending plan =
     (if plan_previous_archive plan = Pending then Some PreviousRestoreIntent
      else if plan_usr_exchange plan = Pending then Some ReverseExchangeIntent
      else if cr_action (plan_candidate plan) = Pending then Some CandidatePreserveIntent
      else if plan_fresh_db plan = Pending then Some FreshDbInvalidationIntent
      else None)"
  by (simp add: first_pending_def rollback_actions_def)

text \<open>The routing phases: the plan goes on to its first pending action as it is.\<close>

definition routing_phase :: "phase \<Rightarrow> bool" where
  "routing_phase p \<longleftrightarrow>
     p \<in> {RollbackDecided, PreviousRestoredToStaging, UsrRestored, CandidatePreserved, FreshDbInvalidated}"

lemma routing_next:
  assumes "routing_phase p" and "validate_rollback_phase p plan = Ok ()"
  obtains q where "next_rollback_phase plan p = Some q" "validate_rollback_phase q plan = Ok ()"
    "completed_action p q = None" "q \<notin> {BootRepairComplete, BootRepairUnverified}"
    "\<not> ordinary_completion p q"
proof -
  have nxt: "next_rollback_phase plan p = next_pending_phase plan" and und: "boot_undecided plan"
    using assms by (auto simp: routing_phase_def next_rollback_phase_def validate_rollback_phase_simps)
  obtain q where q: "next_pending_phase plan = Some q"
    using und by (cases "first_pending plan") (auto simp: next_pending_phase_def boot_undecided_def)
  have "validate_rollback_phase q plan = Ok ()"
    using assms q und
    by (auto simp: routing_phase_def next_pending_phase_def first_pending_simps validate_rollback_phase_simps
        ordinary_actions_resolved_iff boot_undecided_def resolved_def split: if_splits)
  moreover have "completed_action p q = None" "q \<notin> {BootRepairComplete, BootRepairUnverified}"
    "\<not> ordinary_completion p q"
    using next_pending_phase_cases [OF q] assms(1)
    by (auto simp: routing_phase_def completed_action_def ordinary_completion_def rollback_action_phase_def)
  ultimately show thesis using that nxt q by simp
qed

definition intent_phase :: "phase \<Rightarrow> bool" where
  "intent_phase p \<longleftrightarrow>
     p \<in> {PreviousRestoreIntent, ReverseExchangeIntent, CandidatePreserveIntent, FreshDbInvalidationIntent}"

lemma set_action_simps:
  "set_action PreviousRestoreIntent PreviousRestoredToStaging status plan
     = Ok (plan\<lparr> plan_previous_archive := status \<rparr>)"
  "set_action ReverseExchangeIntent UsrRestored status plan = Ok (plan\<lparr> plan_usr_exchange := status \<rparr>)"
  "set_action CandidatePreserveIntent CandidatePreserved status plan
     = Ok (plan\<lparr> plan_candidate := (plan_candidate plan)\<lparr> cr_action := status \<rparr> \<rparr>)"
  "set_action FreshDbInvalidationIntent FreshDbInvalidated status plan = Ok (plan\<lparr> plan_fresh_db := status \<rparr>)"
  by (simp_all add: set_action_def completed_action_def)

lemma action_advance_Ok:
  assumes "resolved status"
  shows
  "plan_previous_archive plan = Pending \<Longrightarrow>
     validate_rollback_plan_advance plan (plan\<lparr> plan_previous_archive := status \<rparr>)
       PreviousRestoreIntent PreviousRestoredToStaging = Ok ()"
  "plan_usr_exchange plan = Pending \<Longrightarrow>
     validate_rollback_plan_advance plan (plan\<lparr> plan_usr_exchange := status \<rparr>)
       ReverseExchangeIntent UsrRestored = Ok ()"
  "cr_action (plan_candidate plan) = Pending \<Longrightarrow>
     validate_rollback_plan_advance plan (plan\<lparr> plan_candidate := (plan_candidate plan)\<lparr> cr_action := status \<rparr> \<rparr>)
       CandidatePreserveIntent CandidatePreserved = Ok ()"
  "plan_fresh_db plan = Pending \<Longrightarrow>
     validate_rollback_plan_advance plan (plan\<lparr> plan_fresh_db := status \<rparr>)
       FreshDbInvalidationIntent FreshDbInvalidated = Ok ()"
  using assms
  by (simp_all add: validate_rollback_plan_advance_def completed_action_def rollback_actions_def upt_rec
      boot_advance_ok_def)

lemma intent_next:
  assumes p: "intent_phase p" and v: "validate_rollback_phase p plan = Ok ()"
  obtains q plan' where "next_rollback_phase plan p = Some q"
    "q \<notin> {BootRepairComplete, BootRepairUnverified}" "ordinary_completion p q"
    "set_action p q (rollback_action_of_outcome out) plan = Ok plan'"
    "validate_rollback_phase q plan' = Ok ()"
    "validate_rollback_plan_advance plan plan' p q = Ok ()" "plan_boot plan' = plan_boot plan"
proof -
  let ?s = "rollback_action_of_outcome out"
  have out: "resolved ?s" by (cases out) (simp_all add: resolved_def)
  note facts = next_rollback_phase_def ordinary_completion_def rollback_action_phase_def set_action_simps
    action_advance_Ok [OF out] boot_undecided_def
  consider "p = PreviousRestoreIntent" | "p = ReverseExchangeIntent" | "p = CandidatePreserveIntent"
    | "p = FreshDbInvalidationIntent"
    using p by (auto simp: intent_phase_def)
  then show thesis
  proof cases
    case 1
    then show ?thesis
      using v out by (intro that [of PreviousRestoredToStaging "plan\<lparr> plan_previous_archive := ?s \<rparr>"]) (simp_all add: facts validate_rollback_phase_simps)
  next
    case 2
    then show ?thesis
      using v out by (intro that [of UsrRestored "plan\<lparr> plan_usr_exchange := ?s \<rparr>"]) (simp_all add: facts validate_rollback_phase_simps)
  next
    case 3
    then show ?thesis
      using v out by (intro that [of CandidatePreserved "plan\<lparr> plan_candidate := (plan_candidate plan)\<lparr> cr_action := ?s \<rparr> \<rparr>"]) (simp_all add: facts validate_rollback_phase_simps)
  next
    case 4
    then show ?thesis
      using v out by (intro that [of FreshDbInvalidated "plan\<lparr> plan_fresh_db := ?s \<rparr>"]) (simp_all add: facts validate_rollback_phase_simps)
  qed
qed

lemma plan_advance_keeps_ok:
  assumes adv: "validate_rollback_plan_advance plan plan' p q = Ok ()" and ok: "plan_ok r plan"
  shows "plan_ok r plan'" and "plan_source plan' = plan_source plan"
    and "plan_fresh_db plan \<noteq> Pending \<Longrightarrow> plan_fresh_db plan' = plan_fresh_db plan"
    and "plan_fresh_db plan = Pending \<Longrightarrow> plan_fresh_db plan' \<noteq> NotRequired"
proof -
  have src: "plan_source plan' = plan_source plan"
    "cr_disposition (plan_candidate plan') = cr_disposition (plan_candidate plan)"
    "plan_external_effects_may_remain plan' = plan_external_effects_may_remain plan"
    using adv by (auto simp: validate_rollback_plan_advance_def split: if_splits)
  have act: "list_all (\<lambda>(index, before, after).
                 if Some index = completed_action p q then before = Pending \<and> resolved after
                 else before = after)
              (zip [0..<4] (zip (rollback_actions plan) (rollback_actions plan')))"
    using adv unfolding validate_rollback_plan_advance_def if_Err_Ok_iff not_not by blast
  have req: "required (plan_previous_archive plan') = required (plan_previous_archive plan)"
    "required (plan_usr_exchange plan') = required (plan_usr_exchange plan)"
    "required (cr_action (plan_candidate plan')) = required (cr_action (plan_candidate plan))"
    "required (plan_fresh_db plan') = required (plan_fresh_db plan)"
    using act by (auto simp: rollback_actions_def upt_rec required_def resolved_def split: if_splits)
  have boot: "(plan_boot plan' = BootNotRequired) = (plan_boot plan = BootNotRequired)"
    using adv by (auto simp: validate_rollback_plan_advance_def boot_advance_ok_def split: if_splits)
  show "plan_ok r plan'" using ok unfolding plan_ok_def src req boot .
  show "plan_source plan' = plan_source plan" by (rule src)
  show "plan_fresh_db plan \<noteq> Pending \<Longrightarrow> plan_fresh_db plan' = plan_fresh_db plan"
    and "plan_fresh_db plan = Pending \<Longrightarrow> plan_fresh_db plan' \<noteq> NotRequired"
    using act by (auto simp: rollback_actions_def upt_rec resolved_def split: if_splits)
qed

definition rollback_next :: "transition_record \<Rightarrow> phase \<Rightarrow> rollback_plan \<Rightarrow> transition_record" where
  "rollback_next r q plan' =
     r\<lparr> rec_generation := rec_generation r + 1, rec_phase := q, rec_rollback := Some plan' \<rparr>"

lemma rollback_next_advances:
  assumes v: "validate r = Ok ()" and plan: "rec_rollback r = Some plan"
    and room: "unat (rec_generation r) < 2 ^ 64 - 1" and c: "forward (rec_phase r) = None"
    and nxt: "next_rollback_phase plan (rec_phase r) = Some q
              \<or> (rec_phase r, q) = (BootRepairStarted, BootRepairComplete)"
    and padv: "validate_rollback_plan_advance plan plan' (rec_phase r) q = Ok ()"
    and phase: "validate_rollback_phase q plan' = Ok ()"
    and v1: "rec_version r = PAYLOAD_VERSION_V1 \<Longrightarrow>
               q \<noteq> BootRepairComplete \<and> plan_boot plan' \<notin> {BootApplied, BootAlreadySatisfied}"
  shows "validate_advance r (rollback_next r q plan') = Ok ()"
proof -
  let ?r = "rollback_next r q plan'"
  have q: "forward q = None" using nxt by (auto dest: next_rollback_phase_rollback)
  have ok: "plan_ok r plan" using v plan by (simp add: validate_Ok_iff rollback_ok_def)
  note keeps = plan_advance_keeps_ok [OF padv ok]
  have imm: "\<not> immutable_data_changed r ?r" by (simp add: immutable_data_changed_def rollback_next_def)
  have "fixed_ok ?r" using v fixed_ok_cong [OF imm] by (simp add: validate_Ok_iff)
  moreover have "candidate_id_ok ?r" using v by (simp add: validate_Ok_iff candidate_id_ok_def rollback_next_def)
  moreover have layout: "receipts_ok r (plan_source plan)" "reachable_layout r (plan_source plan)"
    "fresh_id_ok r (plan_source plan)" "rollback_allowed r (plan_source plan)"
    using v plan c by (auto simp: validate_Ok_iff layout_phase_def split: if_splits)
  moreover have "layout_phase ?r = Ok (plan_source plan)"
    using q layout(4) keeps(2) rollback_allowed_cong [of ?r r] by (simp add: layout_phase_def rollback_next_def)
  moreover have "receipts_ok ?r (plan_source plan)" "reachable_layout ?r (plan_source plan)"
    using layout(1,2) reachable_layout_cong [of ?r r] by (simp_all add: receipts_ok_def rollback_next_def)
  moreover have "fresh_id_ok ?r (plan_source plan)"
    using layout(3) plan keeps(3,4)
    by (cases "plan_fresh_db plan = Pending") (auto simp: fresh_id_ok_def rollback_next_def)
  moreover have "v1_ok ?r" using v1 by (simp add: v1_ok_def rollback_next_def)
  moreover have "rollback_ok ?r"
    using keeps(1) phase plan_ok_cong [of r ?r] by (simp add: rollback_ok_def rollback_next_def)
  ultimately have v': "validate ?r = Ok ()"
    using generation_room [OF room] unfolding validate_Ok_iff by (simp add: rollback_next_def)
  have "validate_phase_advance r ?r = Ok ()"
    using nxt padv c q plan by (auto simp: validate_phase_advance_def rollback_next_def Let_def)
  moreover have "\<not> blocks_advance (rec_phase r)"
    using nxt c by (auto simp: blocks_advance_def next_rollback_phase_def)
  moreover have "checked_add (rec_generation r) 1 = Some (rec_generation ?r)"
    "rec_transition_id r = rec_transition_id ?r" "rec_receipts r = rec_receipts ?r"
    "cand_id (rec_candidate r) = cand_id (rec_candidate ?r)"
    using generation_room [OF room] by (simp_all add: rollback_next_def)
  ultimately show ?thesis
    using v v' imm unfolding validate_advance_Ok_iff by blast
qed

lemma valid_rollback_phase:
  assumes "validate r = Ok ()" and "rec_rollback r = Some plan"
  shows "validate_rollback_phase (rec_phase r) plan = Ok ()"
  using assms by (simp add: validate_Ok_iff rollback_ok_def)

lemma boot_undecided_v1:
  "boot_undecided plan \<Longrightarrow> plan_boot plan \<notin> {BootApplied, BootAlreadySatisfied}"
  by (auto simp: boot_undecided_def)

lemma unchanged_plan_advance:
  "completed_action p q = None \<Longrightarrow> validate_rollback_plan_advance plan plan p q = Ok ()"
  by (simp add: validate_rollback_plan_advance_def rollback_actions_def upt_rec boot_advance_ok_def)

lemma routing_progress:
  assumes v: "validate r = Ok ()" and plan: "rec_rollback r = Some plan"
    and room: "unat (rec_generation r) < 2 ^ 64 - 1" and p: "routing_phase (rec_phase r)"
  obtains q where "q \<noteq> BootRepairUnverified" "next_rollback_phase plan (rec_phase r) = Some q"
    and "rollback_successor r None = Ok (rollback_next r q plan)"
proof -
  note phase = valid_rollback_phase [OF v plan]
  obtain q where q: "next_rollback_phase plan (rec_phase r) = Some q" "validate_rollback_phase q plan = Ok ()"
    "completed_action (rec_phase r) q = None" "q \<notin> {BootRepairComplete, BootRepairUnverified}"
    "\<not> ordinary_completion (rec_phase r) q"
    using routing_next [OF p phase] .
  have "boot_undecided plan"
    using p phase by (auto simp: routing_phase_def validate_rollback_phase_simps)
  then have "validate_advance r (rollback_next r q plan) = Ok ()"
    using q p boot_undecided_v1 [of plan]
    by (intro rollback_next_advances [OF v plan room]) (auto simp: routing_phase_def unchanged_plan_advance)
  then have "rollback_successor r None = Ok (rollback_next r q plan)"
    using v plan q p generation_room [OF room]
    by (auto simp: rollback_successor_def rollback_next_def routing_phase_def)
  then show thesis using that q by blast
qed

lemma intent_progress:
  assumes v: "validate r = Ok ()" and plan: "rec_rollback r = Some plan"
    and room: "unat (rec_generation r) < 2 ^ 64 - 1" and p: "intent_phase (rec_phase r)"
  obtains q plan' where "q \<noteq> BootRepairUnverified" "next_rollback_phase plan (rec_phase r) = Some q"
    and "plan_boot plan' = plan_boot plan"
    and "rollback_successor r (Some out) = Ok (rollback_next r q plan')"
proof -
  note phase = valid_rollback_phase [OF v plan]
  obtain q plan' where q: "next_rollback_phase plan (rec_phase r) = Some q"
    "q \<notin> {BootRepairComplete, BootRepairUnverified}" "ordinary_completion (rec_phase r) q"
    "set_action (rec_phase r) q (rollback_action_of_outcome out) plan = Ok plan'"
    "validate_rollback_phase q plan' = Ok ()"
    "validate_rollback_plan_advance plan plan' (rec_phase r) q = Ok ()" "plan_boot plan' = plan_boot plan"
    using intent_next [OF p phase] .
  have "boot_undecided plan"
    using p phase by (auto simp: intent_phase_def validate_rollback_phase_simps)
  then have "validate_advance r (rollback_next r q plan') = Ok ()"
    using q p boot_undecided_v1 [of plan]
    by (intro rollback_next_advances [OF v plan room]) (auto simp: intent_phase_def)
  then have "rollback_successor r (Some out) = Ok (rollback_next r q plan')"
    using v plan q p generation_room [OF room]
    by (auto simp: rollback_successor_def rollback_next_def intent_phase_def)
  then show thesis using that q by blast
qed

section \<open>Boot repair\<close>

lemma boot_repair_started_progress:
  assumes v: "validate r = Ok ()" and plan: "rec_rollback r = Some plan"
    and room: "unat (rec_generation r) < 2 ^ 64 - 1" and p: "rec_phase r = BootRepairRequired"
  shows "boot_repair_started_successor r = Ok (rollback_next r BootRepairStarted plan)"
proof -
  have "validate_advance r (rollback_next r BootRepairStarted plan) = Ok ()"
    using valid_rollback_phase [OF v plan] p
    by (intro rollback_next_advances [OF v plan room])
       (auto simp: next_rollback_phase_def validate_rollback_phase_simps unchanged_plan_advance completed_action_def)
  moreover have "r\<lparr> rec_generation := rec_generation r + 1, rec_phase := BootRepairStarted \<rparr>
      = rollback_next r BootRepairStarted plan"
    using plan by (intro transition_record.equality) (simp_all add: rollback_next_def)
  ultimately show ?thesis
    using v p generation_room [OF room] by (simp add: boot_repair_started_successor_def)
qed

lemma boot_change_advance:
  assumes "boot_advance_ok (plan_boot plan) b BootRepairStarted q"
  shows "validate_rollback_plan_advance plan (plan\<lparr> plan_boot := b \<rparr>) BootRepairStarted q = Ok ()"
  using assms
  by (simp add: validate_rollback_plan_advance_def completed_action_def rollback_actions_def upt_rec)

lemma boot_repair_unverified_progress:
  assumes v: "validate r = Ok ()" and plan: "rec_rollback r = Some plan"
    and room: "unat (rec_generation r) < 2 ^ 64 - 1" and p: "rec_phase r = BootRepairStarted"
  shows "boot_repair_unverified_successor r
         = Ok (rollback_next r BootRepairUnverified (plan\<lparr> plan_boot := BootUnverified \<rparr>))"
proof -
  have "validate_advance r (rollback_next r BootRepairUnverified (plan\<lparr> plan_boot := BootUnverified \<rparr>)) = Ok ()"
    using valid_rollback_phase [OF v plan] p
    by (intro rollback_next_advances [OF v plan room])
       (auto simp: next_rollback_phase_def validate_rollback_phase_simps boot_change_advance boot_advance_ok_def
          ordinary_actions_resolved_iff)
  then show ?thesis
    using v p plan generation_room [OF room] by (simp add: boot_repair_unverified_successor_def rollback_next_def)
qed

lemma boot_repair_complete_progress:
  assumes v: "validate r = Ok ()" and plan: "rec_rollback r = Some plan"
    and room: "unat (rec_generation r) < 2 ^ 64 - 1" and p: "rec_phase r = BootRepairStarted"
    and version: "rec_version r \<noteq> PAYLOAD_VERSION_V1"
  shows "boot_repair_complete_successor r out
         = Ok (rollback_next r BootRepairComplete (plan\<lparr> plan_boot := boot_rollback_of_outcome out \<rparr>))"
proof -
  have out: "boot_rollback_of_outcome out \<in> {BootApplied, BootAlreadySatisfied}" by (cases out) simp_all
  have "validate_advance r
      (rollback_next r BootRepairComplete (plan\<lparr> plan_boot := boot_rollback_of_outcome out \<rparr>)) = Ok ()"
    using valid_rollback_phase [OF v plan] p version out
    by (intro rollback_next_advances [OF v plan room])
       (auto simp: validate_rollback_phase_simps boot_change_advance boot_advance_ok_def
          ordinary_actions_resolved_iff)
  then show ?thesis
    using v p plan generation_room [OF room] by (simp add: boot_repair_complete_successor_def rollback_next_def)
qed

lemma boot_repair_rollback_complete_progress:
  assumes v: "validate r = Ok ()" and plan: "rec_rollback r = Some plan"
    and room: "unat (rec_generation r) < 2 ^ 64 - 1" and p: "rec_phase r = BootRepairComplete"
  shows "boot_repair_rollback_complete_successor r = Ok (rollback_next r RollbackComplete plan)"
proof -
  have v1: "v1_ok r" using v by (simp add: validate_Ok_iff)
  have "validate_advance r (rollback_next r RollbackComplete plan) = Ok ()"
    using valid_rollback_phase [OF v plan] p v1
    by (intro rollback_next_advances [OF v plan room])
       (auto simp: next_rollback_phase_def validate_rollback_phase_simps unchanged_plan_advance
          completed_action_def v1_ok_def)
  moreover have "r\<lparr> rec_generation := rec_generation r + 1, rec_phase := RollbackComplete \<rparr>
      = rollback_next r RollbackComplete plan"
    using plan by (intro transition_record.equality) (simp_all add: rollback_next_def)
  ultimately show ?thesis
    using v p generation_room [OF room] by (simp add: boot_repair_rollback_complete_successor_def)
qed

end
