(* ===== verification/Journal_Recovery.thy ===== *)
theory Journal_Recovery
  imports Journal_Progress
begin

text \<open>
  Runs of the journal and the recovery policy of \<open>transition_journal/recovery.rs\<close>: every
  run is short, none goes back, and from every record recovery can start from, a deletable
  record can be reached in the direction the policy names.
\<close>

section \<open>Recovery disposition\<close>

datatype recovery_disposition =
    BeginRollback forward_phase
  | ResumeRollback phase
  | RollForward forward_phase
  | FinalizeRollback
  | ManualBootRepair

text \<open>\<open>None\<close> is the panic of the two \<open>expect\<close>s.\<close>

definition phase_recovery_disposition :: "phase \<Rightarrow> recovery_disposition option" where
  "phase_recovery_disposition p =
     (if p \<in> {Preparing, FreshStateAllocating, FreshStateAllocated, CandidatePrepareStarted,
              CandidatePrepared, TransactionTriggersStarted, TransactionTriggersComplete,
              UsrExchangeIntent, UsrExchanged, RootLinksComplete, SystemTriggersStarted,
              SystemTriggersComplete, PreviousArchiveIntent, PreviousArchived, BootSyncStarted}
      then map_option BeginRollback (forward p)
      else if p \<in> {BootSyncComplete, CommitDecided, CommitCleanupComplete, Complete}
      then map_option RollForward (forward p)
      else if p \<in> {RollbackDecided, PreviousRestoreIntent, PreviousRestoredToStaging,
                   ReverseExchangeIntent, UsrRestored, CandidatePreserveIntent, CandidatePreserved,
                   FreshDbInvalidationIntent, FreshDbInvalidated, BootRepairRequired,
                   BootRepairStarted, BootRepairComplete}
      then Some (ResumeRollback p)
      else if p = BootRepairUnverified then Some ManualBootRepair
      else Some FinalizeRollback)"

definition recovery_disposition_of :: "transition_record \<Rightarrow> recovery_disposition option" where
  "recovery_disposition_of r = phase_recovery_disposition (rec_phase r)"

section \<open>Runs are short\<close>

text \<open>A transition system whose every step raises a bounded rank.\<close>

locale ranked_steps =
  fixes step :: "'s \<Rightarrow> 's \<Rightarrow> bool" and rank :: "'s \<Rightarrow> nat" and bound :: nat
  assumes rank_increases: "step s t \<Longrightarrow> rank s < rank t"
    and rank_bounded: "step s t \<Longrightarrow> rank t \<le> bound"
begin

lemma run_rank: "(step ^^ n) s t \<Longrightarrow> rank s + n \<le> rank t"
proof (induction n arbitrary: t)
  case (Suc n)
  then obtain u where "(step ^^ n) s u" "step u t" by auto
  then show ?case using Suc.IH [of u] rank_increases [of u t] by simp
qed simp

lemma run_length: "(step ^^ n) s t \<Longrightarrow> n \<le> bound - rank s"
proof (cases n)
  case (Suc m)
  assume run: "(step ^^ n) s t"
  then obtain u where "step u t" using Suc by auto
  then show ?thesis using run_rank [OF run] rank_bounded [of u t] by linarith
qed simp

lemma no_infinite_run: "\<not> (\<forall>i. step (f i) (f (Suc i)))"
proof
  assume inf: "\<forall>i. step (f i) (f (Suc i))"
  have "(step ^^ n) (f 0) (f n)" for n
    by (induction n) (use inf in auto)
  from run_length [OF this [of "Suc bound"]] show False by simp
qed

lemma rank_rtranclp: "step\<^sup>*\<^sup>* s t \<Longrightarrow> rank s \<le> rank t"
  by (induction rule: rtranclp_induct) (auto dest: rank_increases)

end

fun phase_rank :: "phase \<Rightarrow> nat" where
  "phase_rank RollbackDecided = 15"
| "phase_rank PreviousRestoreIntent = 16"
| "phase_rank PreviousRestoredToStaging = 17"
| "phase_rank ReverseExchangeIntent = 18"
| "phase_rank UsrRestored = 19"
| "phase_rank CandidatePreserveIntent = 20"
| "phase_rank CandidatePreserved = 21"
| "phase_rank FreshDbInvalidationIntent = 22"
| "phase_rank FreshDbInvalidated = 23"
| "phase_rank BootRepairRequired = 24"
| "phase_rank BootRepairStarted = 25"
| "phase_rank BootRepairComplete = 26"
| "phase_rank BootRepairUnverified = 26"
| "phase_rank RollbackComplete = 27"
| "phase_rank p = (case forward p of Some q \<Rightarrow> ordinal q | None \<Rightarrow> 0)"

lemma phase_rank_forward: "forward p = Some q \<Longrightarrow> phase_rank p = ordinal q"
  by (cases p) auto

lemma phase_rank_le: "phase_rank p \<le> 27"
  by (cases p) simp_all

lemma rollback_rank:
  assumes "next_rollback_phase plan p = Some q" and "validate_rollback_phase p plan = Ok ()"
  shows "phase_rank p < phase_rank q"
proof -
  have "routing_phase p \<Longrightarrow> phase_rank p < phase_rank q"
    using assms
    by (auto simp: routing_phase_def next_rollback_phase_def next_pending_phase_def first_pending_simps
        validate_rollback_phase_simps resolved_def split: if_splits boot_rollback.splits)
  then show ?thesis
    using assms by (cases p) (auto simp: next_rollback_phase_def routing_phase_def)
qed

lemma advance_rank:
  assumes adv: "validate_advance r r' = Ok ()"
  shows "phase_rank (rec_phase r) < phase_rank (rec_phase r')"
proof (cases "forward (rec_phase r)"; cases "forward (rec_phase r')")
  fix c a assume ca: "forward (rec_phase r) = Some c" "forward (rec_phase r') = Some a"
  then have "next_forward_phase r c = Some a"
    using adv by (auto simp: validate_advance_Ok_iff validate_phase_advance_def result_simps Let_def split: if_splits)
  then show ?thesis using ca by (simp add: phase_rank_forward next_forward_phase_later)
next
  fix c assume c: "forward (rec_phase r) = Some c" and a: "forward (rec_phase r') = None"
  then have "rec_phase r' = RollbackDecided" "rollback_allowed r c"
    using adv by (auto simp: validate_advance_Ok_iff validate_phase_advance_def split: if_splits)
  then show ?thesis using c by (cases c) (simp_all add: phase_rank_forward rollback_allowed_def)
next
  fix a assume "forward (rec_phase r) = None" "forward (rec_phase r') = Some a"
  then show ?thesis using adv by (simp add: validate_advance_Ok_iff validate_phase_advance_def)
next
  assume "forward (rec_phase r) = None" "forward (rec_phase r') = None"
  with adv show ?thesis
  proof (rule rollback_advance_facts)
    fix plan plan'
    assume plan: "rec_rollback r = Some plan" and v: "validate r = Ok ()"
      and "(rec_phase r, rec_phase r') = (BootRepairStarted, BootRepairComplete)
         \<or> next_rollback_phase plan (rec_phase r) = Some (rec_phase r')"
    then show ?thesis using rollback_rank valid_rollback_phase [OF v plan] by auto
  qed
qed

interpretation journal: ranked_steps journal_step "\<lambda>r. phase_rank (rec_phase r)" 27
  by unfold_locales (simp_all add: phase_rank_le advance_rank journal_step_advances)

lemma journal_step_generation:
  "journal_step r r' \<Longrightarrow> unat (rec_generation r') = unat (rec_generation r) + 1"
  by (auto dest!: journal_step_advances checked_add_unat simp: validate_advance_Ok_iff)

lemma journal_step_valid: "journal_step r r' \<Longrightarrow> validate r = Ok () \<and> validate r' = Ok ()"
  by (auto dest!: journal_step_advances simp: validate_advance_Ok_iff)

lemma run_generation: "(journal_step ^^ n) r r' \<Longrightarrow> unat (rec_generation r') = unat (rec_generation r) + n"
  by (induction n arbitrary: r') (auto dest!: journal_step_generation)

lemma run_valid: "journal_step\<^sup>*\<^sup>* r r' \<Longrightarrow> validate r = Ok () \<Longrightarrow> validate r' = Ok ()"
  by (induction rule: rtranclp_induct) (auto dest: journal_step_valid)

section \<open>No deadlock\<close>

text \<open>The observations of a system on which nothing is left to undo fit every record.\<close>

definition quiet_observations :: "transition_record \<Rightarrow> forward_phase \<Rightarrow> rollback_observations" where
  "quiet_observations r c =
     (let classify = (\<lambda>possible. if possible then Some InitialAlreadySatisfied else None)
      in \<lparr> obs_allocated_candidate_id = None,
           obs_previous_archive = classify (archive_previous (rec_options r)
                                            \<and> ordinal c \<ge> ordinal FPreviousArchiveIntent),
           obs_usr_exchange = classify (ordinal c \<ge> ordinal FUsrExchangeIntent),
           obs_candidate = InitialAlreadySatisfied,
           obs_fresh_db = classify (rec_operation r = NewState
                                    \<and> ordinal c \<ge> ordinal FFreshStateAllocating) \<rparr>)"

lemma quiet_observations_ok: "observations_ok r c (quiet_observations r c)"
  by (simp add: observations_ok_def quiet_observations_def Let_def del: ordinal.simps)

lemma rollback_one_step:
  assumes v: "validate r = Ok ()" and plan: "rec_rollback r = Some plan"
    and room: "unat (rec_generation r) < 2 ^ 64 - 1"
    and boot: "rec_version r \<noteq> PAYLOAD_VERSION_V1 \<or> plan_boot plan = BootNotRequired"
    and p: "rec_phase r \<notin> {RollbackComplete, BootRepairUnverified}"
  obtains q plan' where "journal_step r (rollback_next r q plan')" "q \<noteq> BootRepairUnverified"
    "plan_boot plan = BootNotRequired \<Longrightarrow> plan_boot plan' = BootNotRequired"
proof -
  have "forward (rec_phase r) = None"
    using v plan valid_forward_no_plan by (cases "forward (rec_phase r)") fastforce+
  then consider "routing_phase (rec_phase r)" | "intent_phase (rec_phase r)"
    | "rec_phase r = BootRepairRequired" | "rec_phase r = BootRepairStarted" | "rec_phase r = BootRepairComplete"
    using p by (cases "rec_phase r") (auto simp: routing_phase_def intent_phase_def)
  then show thesis
  proof cases
    case 1
    from routing_progress [OF v plan room this] show ?thesis by (metis that step_rollback)
  next
    case 2
    from intent_progress [OF v plan room this] show ?thesis by (metis that step_rollback)
  next
    case 3
    show ?thesis
      by (rule that [OF step_repair_started [OF boot_repair_started_progress [OF v plan room 3]]]) simp_all
  next
    case 4
    have "rec_version r \<noteq> PAYLOAD_VERSION_V1" "plan_boot plan \<noteq> BootNotRequired"
      using boot valid_rollback_phase [OF v plan] 4 by (auto simp: validate_rollback_phase_simps)
    then show ?thesis
      by (intro that [OF step_repair_complete [OF boot_repair_complete_progress [OF v plan room 4]]]) simp_all
  next
    case 5
    show ?thesis
      by (rule that [OF step_repair_finished [OF boot_repair_rollback_complete_progress [OF v plan room 5]]])
         simp_all
  qed
qed

lemma rollback_reaches_end:
  assumes "validate r = Ok ()" and "rec_rollback r = Some plan"
    and "unat (rec_generation r) + (27 - phase_rank (rec_phase r)) < 2 ^ 64"
    and "rec_version r \<noteq> PAYLOAD_VERSION_V1 \<or> plan_boot plan = BootNotRequired"
    and "rec_phase r \<noteq> BootRepairUnverified"
  shows "\<exists>r'. journal_step\<^sup>*\<^sup>* r r' \<and> rec_phase r' = RollbackComplete"
  using assms
proof (induction "27 - phase_rank (rec_phase r)" arbitrary: r plan rule: less_induct)
  case less
  show ?case
  proof (cases "rec_phase r = RollbackComplete")
    case False
    have "phase_rank (rec_phase r) < 27" using less.prems(5) False less.prems(1,2)
      by (cases "rec_phase r") simp_all
    then have room: "unat (rec_generation r) < 2 ^ 64 - 1" using less.prems(3) by linarith
    obtain q plan' where step: "journal_step r (rollback_next r q plan')" and q: "q \<noteq> BootRepairUnverified"
      and boot: "plan_boot plan = BootNotRequired \<Longrightarrow> plan_boot plan' = BootNotRequired"
      using rollback_one_step [OF less.prems(1,2) room less.prems(4)] less.prems(5) False by blast
    let ?r = "rollback_next r q plan'"
    have rank: "phase_rank (rec_phase r) < phase_rank (rec_phase ?r)" and le: "phase_rank (rec_phase ?r) \<le> 27"
      using journal.rank_increases [OF step] phase_rank_le by simp_all
    have "\<exists>r'. journal_step\<^sup>*\<^sup>* ?r r' \<and> rec_phase r' = RollbackComplete"
    proof (rule less.hyps)
      show "unat (rec_generation ?r) + (27 - phase_rank (rec_phase ?r)) < 2 ^ 64"
        using less.prems(3) rank le journal_step_generation [OF step] by linarith
      show "rec_version ?r \<noteq> PAYLOAD_VERSION_V1 \<or> plan_boot plan' = BootNotRequired"
        using less.prems(4) boot by (auto simp: rollback_next_def)
    qed (use rank le q journal_step_valid [OF step] in \<open>auto simp: rollback_next_def\<close>)
    then show ?thesis using step by (meson converse_rtranclp_into_rtranclp)
  qed blast
qed

lemma commit_one_step:
  assumes v: "validate r = Ok ()" and c: "forward (rec_phase r) = Some c"
    and committed: "ordinal FBootSyncComplete \<le> ordinal c" and "c \<noteq> FComplete"
    and room: "unat (rec_generation r) < 2 ^ 64 - 1"
  obtains a r' where "journal_step r r'" "forward (rec_phase r') = Some a" "ordinal FBootSyncComplete \<le> ordinal a"
proof -
  have "allocation_input_ok r c None" using committed by (auto simp: allocation_input_ok_def)
  moreover obtain a where a: "next_forward_phase r c = Some a" "a \<notin> {FBootSyncStarted, FBootSyncComplete}"
      "ordinal FBootSyncComplete \<le> ordinal a"
    using committed \<open>c \<noteq> FComplete\<close> by (cases c) (simp_all add: next_forward_phase_def)
  ultimately have "forward_successor r None = Ok (forward_next r c a None (rec_receipts r))"
    using forward_successor_progress [OF v c a(1,2) room] by blast
  then show thesis using that step_forward a by (fastforce simp: forward_next_def)
qed

lemma commit_reaches_end:
  assumes "validate r = Ok ()" and "forward (rec_phase r) = Some c"
    and "ordinal FBootSyncComplete \<le> ordinal c"
    and "unat (rec_generation r) + (18 - ordinal c) < 2 ^ 64"
  shows "\<exists>r'. journal_step\<^sup>*\<^sup>* r r' \<and> rec_phase r' = Complete"
  using assms
proof (induction "18 - ordinal c" arbitrary: r c rule: less_induct)
  case less
  show ?case
  proof (cases "c = FComplete")
    case True
    then show ?thesis using less.prems(2) by (auto simp: forward_Some_iff)
  next
    case False
    have "ordinal c < 18" using False by (cases c) simp_all
    then have room: "unat (rec_generation r) < 2 ^ 64 - 1" using less.prems(4) by linarith
    obtain a r' where step: "journal_step r r'" and a: "forward (rec_phase r') = Some a"
      "ordinal FBootSyncComplete \<le> ordinal a"
      using commit_one_step [OF less.prems(1-3) False room] .
    have rank: "ordinal c < ordinal a" "ordinal a \<le> 18"
      using journal.rank_increases [OF step] less.prems(2) a
      by (simp_all add: phase_rank_forward) (cases a, simp_all)
    have "\<exists>r''. journal_step\<^sup>*\<^sup>* r' r'' \<and> rec_phase r'' = Complete"
      by (rule less.hyps [OF _ _ a])
         (use rank less.prems(4) journal_step_generation [OF step] journal_step_valid [OF step] in linarith)+
    then show ?thesis using step by (meson converse_rtranclp_into_rtranclp)
  qed
qed

end
