(* ===== verification/Journal_Properties.thy ===== *)
theory Journal_Properties
  imports Journal_Recovery
begin

text \<open>
  The properties of the transition journal: exact descriptions of the constructors, their
  agreement with the step check, and what holds along every run.
\<close>

section \<open>Concrete records\<close>

text \<open>A new state on an active one, rolled back at once: the records the witnesses evaluate.\<close>

definition sample_previous :: previous where
  "sample_previous =
     \<lparr> prev_id = Some 7, prev_tree_token = TreeToken ''00000000000000000000000000000001'',
       prev_usr_runtime_identity = \<lparr> tree_st_dev = 5, tree_inode = 10, tree_mount_id = 3 \<rparr>,
       prev_origin = ActiveState \<rparr>"

definition sample_record :: transition_record where
  "sample_record =
     \<lparr> rec_format = PAYLOAD_FORMAT, rec_version = PAYLOAD_VERSION, rec_generation = 1,
       rec_transition_id = TransitionId ''0123456789abcdef0123456789abcdef'',
       rec_creation_epoch = \<lparr> epoch_boot_id = BootId ''01234567-89ab-cdef-0123-456789abcdef'',
                              epoch_mount_namespace = \<lparr> mnt_st_dev = 4, mnt_inode = 9 \<rparr> \<rparr>,
       rec_operation = NewState, rec_phase = Preparing, rec_rollback = None, rec_receipts = None,
       rec_candidate = \<lparr> cand_id = None, cand_origin = Fresh,
                         cand_tree_token = TreeToken ''00000000000000000000000000000002'',
                         cand_usr_runtime_identity = \<lparr> tree_st_dev = 5, tree_inode = 11, tree_mount_id = 3 \<rparr> \<rparr>,
       rec_previous = sample_previous,
       rec_options = \<lparr> archive_previous = True, run_system_triggers = True, run_boot_sync = True \<rparr>,
       rec_quarantine_name = QuarantineName ''failed-8'' \<rparr>"

definition sample_plan :: "rollback_action \<Rightarrow> rollback_plan" where
  "sample_plan a =
     \<lparr> plan_source = FPreparing, plan_previous_archive = NotRequired, plan_usr_exchange = NotRequired,
       plan_candidate = \<lparr> cr_action = a, cr_disposition = AbortQuarantine \<rparr>,
       plan_fresh_db = NotRequired, plan_boot = BootNotRequired,
       plan_external_effects_may_remain = False \<rparr>"

definition sample_rollback :: "u64 \<Rightarrow> phase \<Rightarrow> rollback_action \<Rightarrow> transition_record" where
  "sample_rollback g p a =
     sample_record\<lparr> rec_generation := g, rec_phase := p, rec_rollback := Some (sample_plan a) \<rparr>"

lemma sample_valid: "validate sample_record = Ok ()"
  by code_simp

lemma sample_rollback_valid:
  "validate (sample_rollback 2 RollbackDecided Pending) = Ok ()"
  "validate (sample_rollback 3 CandidatePreserveIntent Pending) = Ok ()"
  "validate (sample_rollback 4 CandidatePreserved Applied) = Ok ()"
  "validate (sample_rollback 5 RollbackComplete Applied) = Ok ()"
  by code_simp+

lemmas sample_defs = sample_rollback_def sample_record_def sample_plan_def

lemma sample_decision: "journal_step sample_record (sample_rollback 2 RollbackDecided Pending)"
  by (rule advance_is_step)
     (simp_all add: validate_advance_Ok_iff sample_valid sample_rollback_valid,
      simp_all add: sample_defs blocks_advance_def checked_add_def immutable_data_changed_def
        validate_phase_advance_def rollback_allowed_def constructible_def)

lemma sample_rollback_step:
  assumes "validate (sample_rollback g p a) = Ok ()" and "validate (sample_rollback g' p' a') = Ok ()"
    and "\<not> blocks_advance p" and "checked_add g 1 = Some g'" and "forward p = None" and "forward p' = None"
    and "next_rollback_phase (sample_plan a) p = Some p'"
    and "validate_rollback_plan_advance (sample_plan a) (sample_plan a') p p' = Ok ()"
  shows "journal_step (sample_rollback g p a) (sample_rollback g' p' a')"
  by (rule advance_is_step)
     (use assms in \<open>simp_all add: validate_advance_Ok_iff\<close>,
      use assms in \<open>auto simp: sample_rollback_def immutable_data_changed_def validate_phase_advance_def
        constructible_def sample_record_def\<close>)

lemmas sample_step_defs =
  blocks_advance_def checked_add_def next_rollback_phase_def next_pending_phase_def first_pending_def
  rollback_actions_def validate_rollback_plan_advance_def completed_action_def upt_rec boot_advance_ok_def
  resolved_def sample_plan_def

lemma sample_steps:
  "journal_step (sample_rollback 2 RollbackDecided Pending) (sample_rollback 3 CandidatePreserveIntent Pending)"
  "journal_step (sample_rollback 3 CandidatePreserveIntent Pending) (sample_rollback 4 CandidatePreserved Applied)"
  "journal_step (sample_rollback 4 CandidatePreserved Applied) (sample_rollback 5 RollbackComplete Applied)"
  by (rule sample_rollback_step; simp add: sample_rollback_valid sample_step_defs)+

lemma sample_run: "(journal_step ^^ 4) sample_record (sample_rollback 5 RollbackComplete Applied)"
  by (simp add: numeral_eq_Suc) (use sample_decision sample_steps in blast)

lemma sample_run_plan:
  "journal_step\<^sup>*\<^sup>* (sample_rollback 2 RollbackDecided Pending) (sample_rollback 5 RollbackComplete Applied)"
  using sample_steps by (meson converse_rtranclp_into_rtranclp r_into_rtranclp)

lemma sample_run_star: "journal_step\<^sup>*\<^sup>* sample_record (sample_rollback 5 RollbackComplete Applied)"
  using sample_run by (rule relpowp_imp_rtranclp)

section \<open>Exact constructors\<close>

lemma room_iff: "next_generation r = Ok g \<longleftrightarrow> unat (rec_generation r) < 2 ^ 64 - 1 \<and> g = rec_generation r + 1"
  by (auto simp: next_generation_def result_simps checked_add_Some_iff)

lemma forward_successor_input:
  assumes c: "forward (rec_phase r) = Some c" and nxt: "next_forward_phase r c = Some a"
    and i: "\<not> is_some i \<or> (c, a) = (FFreshStateAllocating, FFreshStateAllocated)"
    and v': "validate (forward_next r c a i (rec_receipts r)) = Ok ()" and v: "validate r = Ok ()"
  shows "allocation_input_ok r c i"
proof (cases "c = FFreshStateAllocating")
  case True
  let ?r = "forward_next r c a i (rec_receipts r)"
  have a: "a = FFreshStateAllocated" using nxt True by (simp add: next_forward_phase_def)
  then have "forward (rec_phase ?r) = Some FFreshStateAllocated" by (simp add: forward_next_def)
  from valid_forward_layout [OF v' this]
  have "rec_operation r = NewState" "is_some i" using True by (auto simp: reachable_layout_def fresh_id_ok_def forward_next_def)
  moreover have "candidate_id_ok ?r" using v' by (simp add: validate_Ok_iff)
  ultimately show ?thesis using True by (auto simp: allocation_input_ok_def candidate_id_ok_def forward_next_def is_some_iff)
next
  case False
  then show ?thesis using i by (simp add: allocation_input_ok_def is_some_def)
qed

lemma forward_successor_shape:
  assumes "forward_successor r i = Ok r'"
  obtains c a where "validate r = Ok ()" "forward (rec_phase r) = Some c" "next_forward_phase r c = Some a"
    "a \<notin> {FBootSyncStarted, FBootSyncComplete}" "unat (rec_generation r) < 2 ^ 64 - 1"
    "\<not> is_some i \<or> (c, a) = (FFreshStateAllocating, FFreshStateAllocated)"
    "r' = forward_next r c a i (rec_receipts r)" "validate r' = Ok ()"
proof -
  have v': "validate r' = Ok ()" by (rule fwd.keeps_valid [OF assms])
  from assms obtain c a g where facts: "validate r = Ok ()" "forward (rec_phase r) = Some c"
    "next_forward_phase r c = Some a" "a \<notin> {FBootSyncStarted, FBootSyncComplete}" "next_generation r = Ok g"
    "\<not> is_some i \<or> (c, a) = (FFreshStateAllocating, FFreshStateAllocated)"
    and shape: "r' = (let r1 = r\<lparr> rec_generation := g, rec_phase := phase_of_forward a \<rparr>
                      in if (c, a) = (FFreshStateAllocating, FFreshStateAllocated)
                         then r1\<lparr> rec_candidate := (rec_candidate r1)\<lparr> cand_id := i \<rparr> \<rparr> else r1)"
    unfolding forward_successor_def Let_def result_simps by auto
  have alloc: "c = FFreshStateAllocating \<Longrightarrow> a = FFreshStateAllocated"
    using facts(3) by (simp add: next_forward_phase_def)
  have "r' = forward_next r c a i (rec_receipts r)"
    using shape facts(5) alloc by (auto simp: forward_next_def room_iff Let_def)
  then show thesis using that facts v' by (simp add: room_iff)
qed

text \<open>
  C5: \<open>forward_successor\<close> succeeds exactly on a valid record in a forward phase that has a
  next phase outside boot publication, with a generation left and a fresh positive id exactly
  at the end of the allocation; the result is the same record one phase and one generation on.
\<close>

theorem forward_successor_exact:
  "forward_successor r i = Ok r' \<longleftrightarrow>
     validate r = Ok ()
     \<and> (\<exists>c a. forward (rec_phase r) = Some c \<and> next_forward_phase r c = Some a
          \<and> a \<notin> {FBootSyncStarted, FBootSyncComplete} \<and> unat (rec_generation r) < 2 ^ 64 - 1
          \<and> allocation_input_ok r c i \<and> r' = forward_next r c a i (rec_receipts r))"
proof
  assume "forward_successor r i = Ok r'"
  then show "validate r = Ok () \<and> (\<exists>c a. forward (rec_phase r) = Some c \<and> next_forward_phase r c = Some a
          \<and> a \<notin> {FBootSyncStarted, FBootSyncComplete} \<and> unat (rec_generation r) < 2 ^ 64 - 1
          \<and> allocation_input_ok r c i \<and> r' = forward_next r c a i (rec_receipts r))"
    by (rule forward_successor_shape) (metis forward_successor_input)
qed (use forward_successor_progress in blast)

section \<open>Exact rollback decision\<close>

lemma observed_initial_action_Ok_iff:
  "observed_initial_action name possible obs = Ok a \<longleftrightarrow> is_some obs = possible \<and> a = observed_action obs"
  by (cases possible; cases obs) (auto simp: observed_action_def)

lemma decide_plan_Ok_iff:
  "decide_plan r c obs = Ok plan \<longleftrightarrow>
     is_some (obs_previous_archive obs)
       = (archive_previous (rec_options r) \<and> ordinal c \<ge> ordinal FPreviousArchiveIntent)
     \<and> is_some (obs_usr_exchange obs) = (ordinal c \<ge> ordinal FUsrExchangeIntent)
     \<and> is_some (obs_fresh_db obs)
         = (rec_operation r = NewState \<and> ordinal c \<ge> ordinal FFreshStateAllocating)
     \<and> plan = decided_plan r c obs"
  unfolding decide_plan_def decided_plan_def Let_def result_simps observed_initial_action_Ok_iff
    external_effects_expected_def
  by (auto simp del: ordinal.simps)

lemma decision_observations:
  assumes v: "validate r = Ok ()" and c: "forward (rec_phase r) = Some c"
    and plan: "decide_plan r c obs = Ok plan"
    and id: "cand_id (rec_candidate r) = None \<or> obs_allocated_candidate_id obs = None"
    and r': "cand_id (rec_candidate r') = (if cand_id (rec_candidate r) = None
               then obs_allocated_candidate_id obs else cand_id (rec_candidate r))"
      "rec_rollback r' = Some plan" "rec_phase r' = RollbackDecided"
    and adv: "validate_advance r r' = Ok ()"
  shows "observations_ok r c obs"
proof -
  note facts = adv [unfolded validate_advance_Ok_iff]
  have op: "rec_operation r' = rec_operation r" and prev: "rec_previous r' = rec_previous r"
    using facts by (simp_all add: immutable_data_changed_def)
  have fresh: "plan_fresh_db plan = observed_action (obs_fresh_db obs)" and src: "plan_source plan = c"
    using plan by (simp_all add: decide_plan_Ok_iff decided_plan_def)
  have ok': "candidate_id_ok r'" "fresh_id_ok r' c"
    using facts r' src by (auto simp: validate_Ok_iff layout_phase_def split: if_splits)
  have alloc: "is_some (obs_allocated_candidate_id obs)
          = (c = FFreshStateAllocating \<and> obs_fresh_db obs = Some InitialPending)"
  proof
    assume some: "is_some (obs_allocated_candidate_id obs)"
    then have "cand_id (rec_candidate r) = None" using id by auto
    then have "allocation_observed_during_rollback r r'"
      using facts r' some by (auto simp: allocation_completed_def)
    then show "c = FFreshStateAllocating \<and> obs_fresh_db obs = Some InitialPending"
      using c r' fresh by (auto simp: allocation_observed_during_rollback_def)
  next
    assume p: "c = FFreshStateAllocating \<and> obs_fresh_db obs = Some InitialPending"
    then have "rec_operation r = NewState" "cand_id (rec_candidate r) = None"
      using valid_forward_layout [OF v c] valid_forward_no_plan [OF v c]
      by (auto simp: reachable_layout_def fresh_id_ok_def)
    then show "is_some (obs_allocated_candidate_id obs)"
      using ok'(2) p r' fresh op by (simp add: fresh_id_ok_def observed_action_def)
  qed
  have "\<forall>n. obs_allocated_candidate_id obs = Some n \<longrightarrow> 0 < sint n \<and> prev_id (rec_previous r) \<noteq> Some n"
  proof (intro allI impI)
    fix n assume n: "obs_allocated_candidate_id obs = Some n"
    then have "cand_id (rec_candidate r') = Some n" using id r' by simp
    moreover have "rec_operation r = NewState"
      using alloc n valid_forward_layout(2) [OF v c] by (simp add: reachable_layout_def)
    ultimately show "0 < sint n \<and> prev_id (rec_previous r) \<noteq> Some n"
      using ok'(1) op prev by (auto simp: candidate_id_ok_def)
  qed
  then show ?thesis
    using alloc plan by (simp add: observations_ok_def decide_plan_Ok_iff del: ordinal.simps)
qed

lemma rollback_decision_shape:
  assumes "rollback_decision r obs = Ok r'"
  obtains c plan where "validate r = Ok ()" "forward (rec_phase r) = Some c" "rollback_allowed r c"
    "unat (rec_generation r) < 2 ^ 64 - 1" "decide_plan r c obs = Ok plan"
    "cand_id (rec_candidate r) = None \<or> obs_allocated_candidate_id obs = None"
    "cand_id (rec_candidate r') = (if cand_id (rec_candidate r) = None
               then obs_allocated_candidate_id obs else cand_id (rec_candidate r))"
    "rec_rollback r' = Some plan" "rec_phase r' = RollbackDecided"
  using assms unfolding rollback_decision_def Let_def result_simps room_iff
  by (clarsimp simp: is_some_def split: if_splits)

text \<open>
  C4: \<open>rollback_decision\<close> succeeds exactly on a valid record in a forward phase that may still be
  rolled back, with a generation left and observations that classify exactly the effects the phase
  makes possible; the plan it persists is the one the phase and the observations determine.
\<close>

theorem rollback_decision_exact:
  "rollback_decision r obs = Ok r' \<longleftrightarrow>
     validate r = Ok ()
     \<and> (\<exists>c. forward (rec_phase r) = Some c \<and> rollback_allowed r c
          \<and> unat (rec_generation r) < 2 ^ 64 - 1 \<and> observations_ok r c obs \<and> r' = decision_next r c obs)"
proof
  assume ok: "rollback_decision r obs = Ok r'"
  then show "validate r = Ok () \<and> (\<exists>c. forward (rec_phase r) = Some c \<and> rollback_allowed r c
      \<and> unat (rec_generation r) < 2 ^ 64 - 1 \<and> observations_ok r c obs \<and> r' = decision_next r c obs)"
  proof (rule rollback_decision_shape)
    fix c plan
    assume facts: "validate r = Ok ()" "forward (rec_phase r) = Some c" "rollback_allowed r c"
      "unat (rec_generation r) < 2 ^ 64 - 1"
      and "decide_plan r c obs = Ok plan"
      "cand_id (rec_candidate r) = None \<or> obs_allocated_candidate_id obs = None"
      "cand_id (rec_candidate r') = (if cand_id (rec_candidate r) = None
               then obs_allocated_candidate_id obs else cand_id (rec_candidate r))"
      "rec_rollback r' = Some plan" "rec_phase r' = RollbackDecided"
    then have obs: "observations_ok r c obs"
      using decision_observations decision.checked [OF ok] by blast
    then have "r' = decision_next r c obs"
      using rollback_decision_progress [OF facts obs] ok by simp
    with facts obs show ?thesis by blast
  qed
qed (use rollback_decision_progress in blast)

section \<open>Steps\<close>


lemma forward_or_decision_step:
  assumes v: "validate r = Ok ()" and c: "forward (rec_phase r) = Some c" and "c \<noteq> FComplete"
    and room: "unat (rec_generation r) < 2 ^ 64 - 1"
  shows "\<exists>r'. journal_step r r'"
proof (cases "rollback_allowed r c")
  case True
  from rollback_decision_progress [OF v c True room quiet_observations_ok] show ?thesis
    by (blast intro: step_decision)
next
  case False
  then have "ordinal FBootSyncComplete \<le> ordinal c" by (auto simp: rollback_allowed_def)
  from commit_one_step [OF v c this \<open>c \<noteq> FComplete\<close> room] show ?thesis by blast
qed

text \<open>
  C6: No deadlock: a valid record with a generation left has a successor iff its phase is none of the
  three that block advancing.
\<close>

theorem stuck_only_when_terminal:
  assumes v: "validate r = Ok ()" and room: "unat (rec_generation r) < 2 ^ 64 - 1"
  shows "(\<exists>r'. journal_step r r') \<longleftrightarrow> \<not> blocks_advance (rec_phase r)"
proof
  assume "\<exists>r'. journal_step r r'"
  then show "\<not> blocks_advance (rec_phase r)"
    by (auto dest!: journal_step_advances simp: validate_advance_Ok_iff)
next
  assume go: "\<not> blocks_advance (rec_phase r)"
  show "\<exists>r'. journal_step r r'"
  proof (cases "forward (rec_phase r)")
    case (Some c)
    then have "c \<noteq> FComplete" using go by (auto simp: blocks_advance_def forward_Some_iff)
    then show ?thesis by (rule forward_or_decision_step [OF v Some _ room])
  next
    case None
    obtain plan where plan: "rec_rollback r = Some plan" by (rule valid_rollback_has_plan [OF v None])
    show ?thesis
    proof (cases "rec_phase r = BootRepairStarted")
      case True
      from boot_repair_unverified_progress [OF v plan room True] show ?thesis
        by (blast intro: step_repair_unverified)
    next
      case False
      then consider "routing_phase (rec_phase r)" | "intent_phase (rec_phase r)"
        | "rec_phase r = BootRepairRequired" | "rec_phase r = BootRepairComplete"
        using None go
        by (cases "rec_phase r") (auto simp: blocks_advance_def routing_phase_def intent_phase_def)
      then show ?thesis
        by cases
           (blast intro: step_rollback step_repair_started step_repair_finished
              elim: routing_progress [OF v plan room] intent_progress [OF v plan room]
              dest: boot_repair_started_progress [OF v plan room] boot_repair_rollback_complete_progress [OF v plan room])+
    qed
  qed
qed

theorem stuck_only_when_terminal_witness: "\<exists>r'. journal_step sample_record r'"
  using stuck_only_when_terminal [OF sample_valid]
  by (simp add: sample_record_def blocks_advance_def)

section \<open>Runs\<close>

text \<open>
  From the record \<open>preparing\<close> makes, every run has at most 27 steps and ends with a generation of
  at most 28, one more than its length: the generation counter is never exhausted.
\<close>

theorem runs_are_short:
  assumes "preparing tid epoch op cid token tree prev triggers boot qname = Ok r"
    and run: "(journal_step ^^ n) r r'"
  shows "n \<le> 27 \<and> unat (rec_generation r') = n + 1 \<and> validate r' = Ok ()"
proof -
  have r: "validate r = Ok ()" "rec_generation r = 1"
    using assms(1) by (auto simp: preparing_def Let_def result_simps)
  have "journal_step\<^sup>*\<^sup>* r r'" using run by (rule relpowp_imp_rtranclp)
  then show ?thesis
    using journal.run_length [OF run] run_generation [OF run] run_valid r by auto
qed

theorem runs_are_short_witness:
  "4 \<le> (27::nat) \<and> unat (rec_generation (sample_rollback 5 RollbackComplete Applied)) = 4 + 1
   \<and> validate (sample_rollback 5 RollbackComplete Applied) = Ok ()"
proof -
  have "preparing (rec_transition_id sample_record) (rec_creation_epoch sample_record) NewState None
      (cand_tree_token (rec_candidate sample_record)) (cand_usr_runtime_identity (rec_candidate sample_record))
      sample_previous True True (rec_quarantine_name sample_record) = Ok sample_record"
    by code_simp
  from runs_are_short [OF this sample_run] show ?thesis .
qed


lemma step_direction:
  assumes "journal_step r r'"
  shows "forward (rec_phase r) = None \<Longrightarrow> forward (rec_phase r') = None"
    and "forward (rec_phase r) = Some c \<Longrightarrow> \<not> rollback_allowed r c \<Longrightarrow>
           \<exists>a. forward (rec_phase r') = Some a \<and> ordinal c < ordinal a"
  using journal_step_advances [OF assms]
  by (auto simp: validate_advance_Ok_iff validate_phase_advance_def result_simps Let_def
      next_forward_phase_later split: option.splits if_splits)



text \<open>The fields no step changes.\<close>

definition same_identity :: "transition_record \<Rightarrow> transition_record \<Rightarrow> bool" where
  "same_identity r r' \<longleftrightarrow> rec_transition_id r = rec_transition_id r' \<and> \<not> immutable_data_changed r r'"

lemma same_identity_trans: "same_identity r s \<Longrightarrow> same_identity s t \<Longrightarrow> same_identity r t"
  by (auto simp: same_identity_def immutable_data_changed_def)

text \<open>
  Along every run the transition id, the format and version, the epoch, the operation, the
  previous state, the options, the quarantine name and the identity of the candidate tree stay as they
  are; a candidate id and a receipt pair, once recorded, are never changed or dropped.
\<close>

theorem runs_keep_identity:
  assumes run: "journal_step\<^sup>*\<^sup>* r r'"
  shows "same_identity r r'
         \<and> (cand_id (rec_candidate r) = None \<or> cand_id (rec_candidate r') = cand_id (rec_candidate r))
         \<and> (rec_receipts r = None \<or> rec_receipts r' = rec_receipts r)"
  using run
proof (induction rule: rtranclp_induct)
  case base
  then show ?case by (simp add: same_identity_def immutable_data_changed_def)
next
  case (step u w)
  have "same_identity u w"
    and "cand_id (rec_candidate u) = None \<or> cand_id (rec_candidate w) = cand_id (rec_candidate u)"
    and "rec_receipts u = None \<or> rec_receipts w = rec_receipts u"
    using journal_step_advances [OF step(2)]
    by (auto simp: validate_advance_Ok_iff same_identity_def allocation_completed_def
        allocation_observed_during_rollback_def receipt_entry_def)
  with step.IH show ?case using same_identity_trans by auto
qed

theorem runs_keep_identity_witness:
  "same_identity sample_record (sample_rollback 5 RollbackComplete Applied)"
  using runs_keep_identity [OF sample_run_star] by simp

definition action_evolves :: "rollback_action \<Rightarrow> rollback_action \<Rightarrow> bool" where
  "action_evolves a b \<longleftrightarrow> a = b \<or> a = Pending \<and> resolved b"

definition boot_evolves :: "boot_rollback \<Rightarrow> boot_rollback \<Rightarrow> bool" where
  "boot_evolves a b \<longleftrightarrow>
     a = b \<or> a = BootPendingUnverifiable \<and> b \<in> {BootApplied, BootAlreadySatisfied, BootUnverified}"

definition plan_evolves :: "rollback_plan \<Rightarrow> rollback_plan \<Rightarrow> bool" where
  "plan_evolves plan plan' \<longleftrightarrow>
     plan_source plan' = plan_source plan
     \<and> cr_disposition (plan_candidate plan') = cr_disposition (plan_candidate plan)
     \<and> plan_external_effects_may_remain plan' = plan_external_effects_may_remain plan
     \<and> list_all2 action_evolves (rollback_actions plan) (rollback_actions plan')
     \<and> boot_evolves (plan_boot plan) (plan_boot plan')"

lemma plan_evolves_refl: "plan_evolves plan plan"
  by (simp add: plan_evolves_def action_evolves_def boot_evolves_def rollback_actions_def)

lemma action_evolves_trans: "action_evolves a b \<Longrightarrow> action_evolves b c \<Longrightarrow> action_evolves a c"
  by (auto simp: action_evolves_def resolved_def)

lemma boot_evolves_trans: "boot_evolves a b \<Longrightarrow> boot_evolves b c \<Longrightarrow> boot_evolves a c"
  by (auto simp: boot_evolves_def)

lemma plan_evolves_trans: "plan_evolves a b \<Longrightarrow> plan_evolves b c \<Longrightarrow> plan_evolves a c"
  unfolding plan_evolves_def
  using list_all2_trans [of action_evolves action_evolves action_evolves] action_evolves_trans boot_evolves_trans
  by metis

lemma plan_advance_evolves:
  assumes "validate_rollback_plan_advance plan plan' p q = Ok ()"
  shows "plan_evolves plan plan'"
proof -
  note parts = assms [unfolded validate_rollback_plan_advance_def if_Err_Ok_iff not_not]
  have "list_all2 action_evolves (rollback_actions plan) (rollback_actions plan')"
    using conjunct1 [OF conjunct2 [OF parts]]
    by (simp add: rollback_actions_def upt_rec action_evolves_def split: if_splits)
  moreover have "boot_evolves (plan_boot plan) (plan_boot plan')"
    using conjunct1 [OF conjunct2 [OF conjunct2 [OF parts]]] by (auto simp: boot_advance_ok_def boot_evolves_def)
  ultimately show ?thesis using conjunct1 [OF parts] by (simp add: plan_evolves_def)
qed

lemma step_plan_evolves:
  assumes step: "journal_step r r'" and plan: "rec_rollback r = Some plan"
  shows "\<exists>plan'. rec_rollback r' = Some plan' \<and> plan_evolves plan plan'"
proof -
  note adv = journal_step_advances [OF step]
  have "forward (rec_phase r) = None"
    using plan journal_step_valid [OF step] valid_forward_no_plan by (cases "forward (rec_phase r)") fastforce+
  moreover from this have "forward (rec_phase r') = None" by (rule step_direction(1) [OF step])
  ultimately show ?thesis
    by (rule rollback_advance_facts [OF adv]) (use plan plan_advance_evolves in auto)
qed

text \<open>
  C9: A persisted rollback plan only moves towards completion: its source phase, the disposition of the
  candidate and the evidence of external effects never change, a settled action keeps its status and a
  pending one becomes applied or already satisfied.
\<close>

theorem rollback_plan_only_completes:
  assumes run: "journal_step\<^sup>*\<^sup>* r r'" and plan: "rec_rollback r = Some plan"
  shows "\<exists>plan'. rec_rollback r' = Some plan' \<and> plan_evolves plan plan'"
  using run
proof (induction rule: rtranclp_induct)
  case base
  then show ?case using plan plan_evolves_refl by blast
next
  case (step u w)
  then show ?case using step_plan_evolves plan_evolves_trans by metis
qed

theorem rollback_plan_only_completes_witness: "plan_evolves (sample_plan Pending) (sample_plan Applied)"
  using rollback_plan_only_completes [OF sample_run_plan, of "sample_plan Pending"]
  by (simp add: sample_rollback_def)

section \<open>Recovery\<close>

lemma rollback_origin:
  assumes run: "journal_step\<^sup>*\<^sup>* r r'" and fwd: "rec_rollback r = None" and plan: "rec_rollback r' = Some plan"
  shows "\<exists>u w. journal_step\<^sup>*\<^sup>* r u \<and> journal_step u w \<and> journal_step\<^sup>*\<^sup>* w r'
           \<and> rec_phase u = phase_of_forward (plan_source plan) \<and> rec_phase w = RollbackDecided"
  using run plan
proof (induction arbitrary: plan rule: rtranclp_induct)
  case base
  then show ?case using fwd by simp
next
  case (step u w)
  show ?case
  proof (cases "rec_rollback u")
    case None
    have "forward (rec_phase u) \<noteq> None"
      using None journal_step_valid [OF step(2)] valid_rollback_has_plan by (metis option.discI)
    moreover have "forward (rec_phase w) = None"
      using step.prems journal_step_valid [OF step(2)] valid_forward_no_plan
      by (cases "forward (rec_phase w)") fastforce+
    ultimately have "rec_phase w = RollbackDecided" "rec_phase u = phase_of_forward (plan_source plan)"
      using journal_step_advances [OF step(2)] step.prems
      by (auto simp: validate_advance_Ok_iff validate_phase_advance_def forward_Some_iff split: if_splits)
    then show ?thesis using step(1,2) by blast
  next
    case (Some plan0)
    then obtain plan' where "rec_rollback w = Some plan'" "plan_evolves plan0 plan'"
      using step_plan_evolves [OF step(2)] by blast
    then have "plan_source plan0 = plan_source plan" using step.prems by (simp add: plan_evolves_def)
    then show ?thesis using step.IH [OF Some] step(2) by (metis rtranclp.rtrancl_into_rtrancl)
  qed
qed

text \<open>
  C3: What a completed rollback means: a run from a forward record that ends in \<open>RollbackComplete\<close>
  decided the rollback in the phase its plan names, and every effect that phase made possible is
  recorded as undone: the archive of the previous state, the exchange of \<open>/usr\<close>, the candidate, the
  fresh database row, and the boot repair when boot publication had started.
\<close>

theorem completed_rollback_undid_everything:
  assumes "validate r = Ok ()" and "rec_rollback r = None" and run: "journal_step\<^sup>*\<^sup>* r r'"
    and "rec_phase r' = RollbackComplete"
  shows "\<exists>plan source. rec_rollback r' = Some plan \<and> plan_source plan = source
      \<and> (\<exists>u w. journal_step\<^sup>*\<^sup>* r u \<and> journal_step u w \<and> journal_step\<^sup>*\<^sup>* w r'
            \<and> rec_phase u = phase_of_forward source \<and> rec_phase w = RollbackDecided)
      \<and> resolved (plan_previous_archive plan)
          = (archive_previous (rec_options r') \<and> ordinal source \<ge> ordinal FPreviousArchiveIntent)
      \<and> resolved (plan_usr_exchange plan) = (ordinal source \<ge> ordinal FUsrExchangeIntent)
      \<and> resolved (cr_action (plan_candidate plan))
      \<and> resolved (plan_fresh_db plan)
          = (rec_operation r' = NewState \<and> ordinal source \<ge> ordinal FFreshStateAllocating)
      \<and> plan_boot plan \<in> (if source = FBootSyncStarted then {BootApplied, BootAlreadySatisfied}
                            else {BootNotRequired})"
proof -
  have v': "validate r' = Ok ()" using run_valid run assms by blast
  obtain plan where plan: "rec_rollback r' = Some plan"
    using valid_rollback_has_plan [OF v'] assms(4) by auto
  have ok: "plan_ok r' plan" and phase: "validate_rollback_phase RollbackComplete plan = Ok ()"
    using v' plan assms(4) by (auto simp: validate_Ok_iff rollback_ok_def)
  have settled: "\<And>a. a \<noteq> Pending \<Longrightarrow> resolved a = required a"
    by (case_tac a) (simp_all add: resolved_def required_def)
  have np: "plan_previous_archive plan \<noteq> Pending" "plan_usr_exchange plan \<noteq> Pending"
    "cr_action (plan_candidate plan) \<noteq> Pending" "plan_fresh_db plan \<noteq> Pending"
    and boot: "plan_boot plan \<in> {BootNotRequired, BootApplied, BootAlreadySatisfied}"
    using phase by (simp_all add: validate_rollback_phase_simps ordinary_actions_resolved_iff)
  have "plan_boot plan \<in> (if plan_source plan = FBootSyncStarted then {BootApplied, BootAlreadySatisfied}
                          else {BootNotRequired})"
    using ok boot by (auto simp: plan_ok_def)
  then show ?thesis
    using rollback_origin [OF run assms(2) plan] plan ok np
    by (simp add: settled plan_ok_def del: ordinal.simps)
qed

theorem completed_rollback_undid_everything_witness:
  "resolved (cr_action (plan_candidate (sample_plan Applied)))"
  using completed_rollback_undid_everything [OF sample_valid _ sample_run_star]
  by (simp add: sample_record_def sample_rollback_def)

lemma disposition_of_forward:
  assumes "forward (rec_phase r) = Some c"
  shows "recovery_disposition_of r = Some (if rollback_allowed r c then BeginRollback c else RollForward c)"
  using assms
  by (cases "rec_phase r")
     (auto simp: recovery_disposition_of_def phase_recovery_disposition_def rollback_allowed_def)

lemma disposition_of_rollback:
  assumes "forward (rec_phase r) = None"
  shows "recovery_disposition_of r
         = Some (if rec_phase r = BootRepairUnverified then ManualBootRepair
                 else if rec_phase r = RollbackComplete then FinalizeRollback
                 else ResumeRollback (rec_phase r))"
  using assms
  by (cases "rec_phase r") (auto simp: recovery_disposition_of_def phase_recovery_disposition_def)

text \<open>
  The policy begins a rollback exactly where a rollback can be decided: on a valid record with a
  generation left, \<open>recovery_disposition\<close> is \<open>BeginRollback\<close> of the current phase iff some
  observations make \<open>rollback_decision\<close> succeed.
\<close>

theorem begin_rollback_iff_decidable:
  assumes v: "validate r = Ok ()" and room: "unat (rec_generation r) < 2 ^ 64 - 1"
  shows "(\<exists>c. recovery_disposition_of r = Some (BeginRollback c) \<and> rec_phase r = phase_of_forward c)
         \<longleftrightarrow> (\<exists>obs r'. rollback_decision r obs = Ok r')"
proof (cases "forward (rec_phase r)")
  case None
  then show ?thesis
    by (auto simp: rollback_decision_def result_simps disposition_of_rollback)
next
  case (Some c)
  show ?thesis
  proof (cases "rollback_allowed r c")
    case True
    from rollback_decision_progress [OF v Some True room quiet_observations_ok] show ?thesis
      using Some True by (auto simp: disposition_of_forward forward_Some_iff)
  next
    case False
    then show ?thesis
      using Some by (auto simp: disposition_of_forward rollback_decision_def result_simps)
  qed
qed

theorem begin_rollback_iff_decidable_witness: "\<exists>obs r'. rollback_decision sample_record obs = Ok r'"
proof -
  have "unat (rec_generation sample_record) < 2 ^ 64 - 1"
    and "recovery_disposition_of sample_record = Some (BeginRollback FPreparing)"
    and "rec_phase sample_record = phase_of_forward FPreparing"
    by (simp_all add: sample_record_def recovery_disposition_of_def phase_recovery_disposition_def)
  then show ?thesis using begin_rollback_iff_decidable [OF sample_valid] by blast
qed





text \<open>
  \<open>preparing\<close> returns a record exactly when it passes validation, and then it is the first
  generation of the current payload version in phase \<open>Preparing\<close>, its candidate comes from where the
  operation says, the previous state is archived on commit iff it was an active one, and the
  commit disposition is \<open>Archive\<close> in exactly that case.
\<close>

theorem preparing_record:
  assumes "preparing tid epoch op cid token tree prev triggers boot qname = Ok r"
  shows "validate r = Ok () \<and> rec_phase r = Preparing \<and> rec_generation r = 1 \<and> rec_version r = PAYLOAD_VERSION
      \<and> rec_rollback r = None \<and> rec_receipts r = None \<and> rec_transition_id r = tid \<and> rec_operation r = op
      \<and> cand_origin (rec_candidate r) = expected_origin op \<and> rec_previous r = prev
      \<and> is_some cid = (op \<noteq> NewState)
      \<and> (archive_previous (rec_options r) \<longleftrightarrow> commit_disposition_of r = CommitArchive)
      \<and> recovery_disposition_of r = Some (BeginRollback FPreparing)"
proof -
  have v: "validate r = Ok ()" and p: "rec_phase r = Preparing" "rec_operation r = op" "cand_id (rec_candidate r) = cid"
    and rest: "rec_generation r = 1" "rec_version r = PAYLOAD_VERSION" "rec_rollback r = None"
      "rec_receipts r = None" "rec_transition_id r = tid" "cand_origin (rec_candidate r) = expected_origin op"
      "rec_previous r = prev" "archive_previous (rec_options r) = (prev_origin prev = ActiveState)"
    using assms by (auto simp: preparing_def Let_def result_simps)
  have "fresh_id_ok r FPreparing" "candidate_id_ok r"
    using valid_forward_layout [OF v] v p by (simp_all add: validate_Ok_iff)
  then have "is_some cid = (op \<noteq> NewState)" using p by (auto simp: fresh_id_ok_def candidate_id_ok_def)
  moreover have "archive_previous (rec_options r) \<longleftrightarrow> commit_disposition_of r = CommitArchive"
    using rest by (cases "prev_origin prev") (simp_all add: commit_disposition_of_def)
  moreover have "recovery_disposition_of r = Some (BeginRollback FPreparing)"
    using disposition_of_forward [of r FPreparing] p by (simp add: rollback_allowed_def)
  ultimately show ?thesis using v p rest by blast
qed

theorem preparing_record_witness:
  "validate sample_record = Ok () \<and> rec_phase sample_record = Preparing
   \<and> commit_disposition_of sample_record = CommitArchive"
proof -
  have "preparing (rec_transition_id sample_record) (rec_creation_epoch sample_record) NewState None
      (cand_tree_token (rec_candidate sample_record)) (cand_usr_runtime_identity (rec_candidate sample_record))
      sample_previous True True (rec_quarantine_name sample_record) = Ok sample_record"
    by code_simp
  from preparing_record [OF this] show ?thesis by (simp add: sample_record_def)
qed

end
