(* ===== verification/Wire_Int.thy ===== *)
theory Wire_Int
  imports Cast_Prelude
begin

text \<open>
  Big-endian integers as Rust's \<open>to_be_bytes\<close> and \<open>from_be_bytes\<close> lay them out, shared by the
  transition journal and the stone format.
\<close>

primrec nat_to_be :: "nat \<Rightarrow> nat \<Rightarrow> u8 list" where
  "nat_to_be 0 v = []"
| "nat_to_be (Suc n) v = nat_to_be n (v div 256) @ [word_of_nat (v mod 256)]"

definition be_to_nat :: "u8 list \<Rightarrow> nat" where
  "be_to_nat bs = foldl (\<lambda>acc b. acc * 256 + unat b) 0 bs"

definition to_be_bytes :: "'a::len word \<Rightarrow> u8 list" where
  "to_be_bytes x = nat_to_be (LENGTH('a) div 8) (unat x)"

definition from_be_bytes :: "u8 list \<Rightarrow> 'a::len word" where
  "from_be_bytes bs = word_of_nat (be_to_nat bs)"

definition ascii :: "string \<Rightarrow> u8 list" where
  "ascii s = map of_char s"

lemma length_nat_to_be [simp]: "length (nat_to_be n v) = n"
  by (induction n arbitrary: v) simp_all

lemma be_to_nat_append [simp]: "be_to_nat (bs @ [b]) = be_to_nat bs * 256 + unat b"
  by (simp add: be_to_nat_def)

lemma be_to_nat_Nil [simp]: "be_to_nat [] = 0"
  by (simp add: be_to_nat_def)

lemma unat_u8_less: "unat (b::u8) < 256"
  using unsigned_less [of b] by simp

lemma be_to_nat_less: "be_to_nat bs < 256 ^ length bs"
proof (induction bs rule: rev_induct)
  case (snoc b bs)
  have "be_to_nat bs * 256 + unat b < (be_to_nat bs + 1) * 256" using unat_u8_less [of b] by simp
  also have "\<dots> \<le> 256 ^ length bs * 256" using snoc by (intro mult_le_mono1) simp
  finally show ?case by simp
qed simp

lemma be_to_nat_to_be: "be_to_nat (nat_to_be n v) = v mod 256 ^ n"
proof (induction n arbitrary: v)
  case (Suc n)
  have "be_to_nat (nat_to_be (Suc n) v) = (v div 256 mod 256 ^ n) * 256 + v mod 256"
    by (simp add: Suc unat_of_nat)
  also have "\<dots> = v mod 256 ^ Suc n"
    using mod_mult2_eq [of v 256 "256 ^ n"] by simp
  finally show ?case .
qed simp

lemma nat_to_be_be_to_nat: "nat_to_be (length bs) (be_to_nat bs) = bs"
proof (induction bs rule: rev_induct)
  case (snoc b bs)
  have "(be_to_nat bs * 256 + unat b) div 256 = be_to_nat bs" "(be_to_nat bs * 256 + unat b) mod 256 = unat b"
    using unat_u8_less [of b] by simp_all
  then show ?case using snoc by simp
qed simp

section \<open>The contract of a fixed-width field\<close>

locale wire_field =
  fixes put :: "'a \<Rightarrow> u8 list" and get :: "u8 list \<Rightarrow> 'a" and width :: nat
  assumes put_length [simp]: "length (put x) = width"
    and get_put [simp]: "get (put x) = x"
    and put_get: "length bs = width \<Longrightarrow> put (get bs) = bs"
begin

text \<open>A field at the front of a stream is read back, with the rest of the stream.\<close>

lemma take_put [simp]: "take width (put x @ rest) = put x"
  by simp

lemma drop_put [simp]: "drop width (put x @ rest) = rest"
  by simp

lemma put_inj: "put x = put y \<longleftrightarrow> x = y"
  by (metis get_put)

lemma get_inj: "length a = width \<Longrightarrow> length b = width \<Longrightarrow> get a = get b \<longleftrightarrow> a = b"
  by (metis put_get)

end

lemma from_to_be_bytes:
  fixes x :: "'a::len word"
  assumes "LENGTH('a) mod 8 = 0"
  shows "from_be_bytes (to_be_bytes x) = x"
proof -
  have "8 * (LENGTH('a) div 8) = LENGTH('a)" using assms by presburger
  then have "(256::nat) ^ (LENGTH('a) div 8) = 2 ^ LENGTH('a)"
    using power_mult [of "2::nat" 8 "LENGTH('a) div 8"] by simp
  then show ?thesis
    by (simp add: from_be_bytes_def to_be_bytes_def be_to_nat_to_be unsigned_less)
qed

lemma to_from_be_bytes:
  assumes "LENGTH('a::len) mod 8 = 0" and "length bs = LENGTH('a) div 8"
  shows "to_be_bytes (from_be_bytes bs :: 'a word) = bs"
proof -
  have "8 * (LENGTH('a) div 8) = LENGTH('a)" using assms by presburger
  then have "(256::nat) ^ length bs = 2 ^ LENGTH('a)"
    using power_mult [of "2::nat" 8 "LENGTH('a) div 8"] assms(2) by simp
  then have "unat (word_of_nat (be_to_nat bs) :: 'a word) = be_to_nat bs"
    using be_to_nat_less [of bs] by (simp add: unat_of_nat)
  then show ?thesis
    using nat_to_be_be_to_nat [of bs] assms(2) by (simp add: to_be_bytes_def from_be_bytes_def)
qed

lemma length_to_be_bytes: "length (to_be_bytes (x::'a::len word)) = LENGTH('a) div 8"
  by (simp add: to_be_bytes_def)

lemmas be_bytes_laws = length_to_be_bytes from_to_be_bytes to_from_be_bytes

interpretation be_u8: wire_field "to_be_bytes :: u8 \<Rightarrow> u8 list" from_be_bytes 1
  by unfold_locales (simp_all add: be_bytes_laws)

interpretation be_u16: wire_field "to_be_bytes :: u16 \<Rightarrow> u8 list" from_be_bytes 2
  by unfold_locales (simp_all add: be_bytes_laws)

interpretation be_u32: wire_field "to_be_bytes :: u32 \<Rightarrow> u8 list" from_be_bytes 4
  by unfold_locales (simp_all add: be_bytes_laws)

interpretation be_u64: wire_field "to_be_bytes :: u64 \<Rightarrow> u8 list" from_be_bytes 8
  by unfold_locales (simp_all add: be_bytes_laws)

interpretation be_u128: wire_field "to_be_bytes :: u128 \<Rightarrow> u8 list" from_be_bytes 16
  by unfold_locales (simp_all add: be_bytes_laws)

end
