(* ===== verification/Journal_Codec.thy ===== *)
theory Journal_Codec
  imports Journal_Properties Wire_Int
begin

text \<open>
  The frame around a persisted record (\<open>transition_journal/codec.rs\<close>): magic, frame version,
  payload length, SHA-256 checksum, canonical JSON payload. The JSON codec (\<open>serde_json\<close>) and the
  digest (\<open>sha2\<close>) are parameters of \<open>encode\<close> and \<open>decode\<close>.
\<close>

definition MAGIC :: "u8 list" where
  "MAGIC = ascii ''CASTSTJ'' @ [0]"

definition FRAME_VERSION :: u16 where
  "FRAME_VERSION = 1"

definition MAGIC_END :: nat where
  "MAGIC_END = length MAGIC"

definition VERSION_END :: nat where
  "VERSION_END = MAGIC_END + 2"

definition LENGTH_END :: nat where
  "LENGTH_END = VERSION_END + 4"

definition CHECKSUM_END :: nat where
  "CHECKSUM_END = LENGTH_END + 32"

definition HEADER_SIZE :: nat where
  "HEADER_SIZE = CHECKSUM_END"

definition MAX_CANONICAL_RECORD_BYTES :: nat where
  "MAX_CANONICAL_RECORD_BYTES = 16 * 1024"

definition byte_range :: "nat \<Rightarrow> nat \<Rightarrow> 'a list \<Rightarrow> 'a list" where
  "byte_range from to xs = take (to - from) (drop from xs)"

definition enforce_record_size :: "nat \<Rightarrow> (unit, codec_error) result" where
  "enforce_record_size n = (if n > MAX_CANONICAL_RECORD_BYTES then Err (RecordTooLarge n) else Ok ())"

definition checksum :: "(u8 list \<Rightarrow> u8 list) \<Rightarrow> u8 list \<Rightarrow> u8 list \<Rightarrow> u8 list \<Rightarrow> u8 list" where
  "checksum sha256 version len payload = sha256 (MAGIC @ version @ len @ payload)"

type_synonym json_writer = "transition_record \<Rightarrow> (u8 list, string) result"
type_synonym json_reader = "u8 list \<Rightarrow> (transition_record, string) result"

definition encode :: "json_writer \<Rightarrow> (u8 list \<Rightarrow> u8 list) \<Rightarrow> transition_record \<Rightarrow> (u8 list, codec_error) result" where
  "encode to_vec sha256 r =
     res_then (validate r)
    (res_bind (map_err Json (to_vec r)) (\<lambda>payload.
     res_bind (ok_or (usize_checked_add HEADER_SIZE (length payload)) (RecordTooLarge usize_max)) (\<lambda>framed_len.
     res_then (enforce_record_size framed_len)
    (if length payload \<ge> 2 ^ 32 then Err (RecordTooLarge framed_len)
     else
       (let version = to_be_bytes FRAME_VERSION;
            len = to_be_bytes (word_of_nat (length payload) :: u32)
        in Ok (MAGIC @ version @ len @ checksum sha256 version len payload @ payload))))))"

text \<open>A \<open>u32\<close> always fits a \<open>usize\<close>: that conversion of the source has no failing case here.\<close>

definition decode :: "json_writer \<Rightarrow> json_reader \<Rightarrow> (u8 list \<Rightarrow> u8 list) \<Rightarrow> u8 list
    \<Rightarrow> (transition_record, codec_error) result" where
  "decode to_vec from_slice sha256 framed =
     res_then (enforce_record_size (length framed))
    (if length framed < HEADER_SIZE then Err (TruncatedHeader (length framed))
     else if take MAGIC_END framed \<noteq> MAGIC then Err InvalidMagic
     else
       (let version = byte_range MAGIC_END VERSION_END framed; len = byte_range VERSION_END LENGTH_END framed;
            frame_version = from_be_bytes version :: u16
        in if frame_version \<noteq> FRAME_VERSION then Err (UnsupportedFrameVersion frame_version)
           else
             (let payload_len = unat (from_be_bytes len :: u32)
              in res_bind (ok_or (usize_checked_add HEADER_SIZE payload_len) (RecordTooLarge usize_max))
                   (\<lambda>expected_len.
                      if expected_len \<noteq> length framed
                      then Err (LengthMismatch payload_len (length framed - HEADER_SIZE))
                      else
                        (let payload = drop HEADER_SIZE framed
                         in if byte_range LENGTH_END CHECKSUM_END framed \<noteq> checksum sha256 version len payload
                            then Err ChecksumMismatch
                            else res_bind (map_err Json (from_slice payload)) (\<lambda>r.
                              res_then (validate r)
                             (res_bind (map_err Json (to_vec r)) (\<lambda>again.
                                if again \<noteq> payload then Err NonCanonicalPayload else Ok r))))))))"

section \<open>Framing\<close>

lemma frame_offsets:
  "MAGIC_END = 8" "VERSION_END = 10" "LENGTH_END = 14" "CHECKSUM_END = 46" "HEADER_SIZE = 46"
  by (simp_all add: HEADER_SIZE_def CHECKSUM_END_def LENGTH_END_def VERSION_END_def MAGIC_END_def
      MAGIC_def ascii_def)

lemma length_MAGIC: "length MAGIC = 8"
  by (simp add: MAGIC_def ascii_def)

lemma drop_byte_range: "a \<le> b \<Longrightarrow> drop a xs = byte_range a b xs @ drop b xs"
  unfolding byte_range_def by (metis append_take_drop_id drop_drop le_add_diff_inverse2)

text \<open>A byte string is the concatenation of the fields the header names.\<close>

lemma frame_parts:
  "framed = take 8 framed @ byte_range 8 10 framed @ byte_range 10 14 framed @ byte_range 14 46 framed @ drop 46 framed"
  using drop_byte_range [of 8 10 framed] drop_byte_range [of 10 14 framed] drop_byte_range [of 14 46 framed]
  by (metis append_take_drop_id numeral_le_iff semiring_norm(68-73) order_refl le_num_One_iff)

lemma frame_slices:
  assumes "length m = 8" "length v = 2" "length l = 4" "length c = 32"
  shows "take 8 (m @ v @ l @ c @ p) = m" "byte_range 8 10 (m @ v @ l @ c @ p) = v"
    "byte_range 10 14 (m @ v @ l @ c @ p) = l" "byte_range 14 46 (m @ v @ l @ c @ p) = c" "drop 46 (m @ v @ l @ c @ p) = p"
  using assms by (simp_all add: byte_range_def)

definition frame :: "(u8 list \<Rightarrow> u8 list) \<Rightarrow> u8 list \<Rightarrow> u8 list" where
  "frame sha256 payload =
     (let version = to_be_bytes FRAME_VERSION; len = to_be_bytes (word_of_nat (length payload) :: u32)
      in MAGIC @ version @ len @ checksum sha256 version len payload @ payload)"

lemma encode_Ok_iff:
  "encode to_vec sha256 r = Ok framed \<longleftrightarrow>
     validate r = Ok ()
     \<and> (\<exists>payload. to_vec r = Ok payload \<and> 46 + length payload \<le> MAX_CANONICAL_RECORD_BYTES
          \<and> framed = frame sha256 payload)"
  unfolding encode_def result_simps enforce_record_size_def usize_checked_add_def frame_offsets frame_def
  by (auto simp: Let_def MAX_CANONICAL_RECORD_BYTES_def usize_max_def)

lemma decode_Ok_iff:
  "decode to_vec from_slice sha256 framed = Ok r \<longleftrightarrow>
     46 \<le> length framed \<and> length framed \<le> MAX_CANONICAL_RECORD_BYTES
     \<and> take 8 framed = MAGIC
     \<and> (from_be_bytes (byte_range 8 10 framed) :: u16) = FRAME_VERSION
     \<and> 46 + unat (from_be_bytes (byte_range 10 14 framed) :: u32) = length framed
     \<and> byte_range 14 46 framed
         = checksum sha256 (byte_range 8 10 framed) (byte_range 10 14 framed) (drop 46 framed)
     \<and> from_slice (drop 46 framed) = Ok r \<and> validate r = Ok () \<and> to_vec r = Ok (drop 46 framed)"
  unfolding decode_def Let_def result_simps enforce_record_size_def usize_checked_add_def frame_offsets
  by (auto simp: MAX_CANONICAL_RECORD_BYTES_def usize_max_def)

lemma decoded_frame:
  assumes "decode to_vec from_slice sha256 framed = Ok r"
  shows "framed = frame sha256 (drop 46 framed)"
proof -
  note facts = assms [unfolded decode_Ok_iff]
  have len: "length (byte_range 8 10 framed) = 2" "length (byte_range 10 14 framed) = 4"
    using conjunct1 [OF facts] by (simp_all add: byte_range_def)
  have version: "byte_range 8 10 framed = to_be_bytes FRAME_VERSION"
    using facts be_u16.put_get [OF len(1)] by simp
  have "unat (from_be_bytes (byte_range 10 14 framed) :: u32) = length (drop 46 framed)" using facts by auto
  then have "(from_be_bytes (byte_range 10 14 framed) :: u32) = word_of_nat (length (drop 46 framed))"
    by (metis of_nat_unat ucast_id)
  then have length_field: "byte_range 10 14 framed = to_be_bytes (word_of_nat (length (drop 46 framed)) :: u32)"
    using be_u32.put_get [OF len(2)] by metis
  show ?thesis
    using frame_parts [of framed] facts unfolding frame_def Let_def version length_field by metis
qed

text \<open>
  C10: Decoding accepts canonical bytes only: whenever \<open>decode\<close> returns a record, \<open>encode\<close> of that
  record returns exactly the bytes that were decoded.
\<close>

theorem decode_accepts_canonical_bytes_only:
  assumes "decode to_vec from_slice sha256 framed = Ok r"
  shows "encode to_vec sha256 r = Ok framed"
  using decoded_frame [OF assms] assms [unfolded decode_Ok_iff]
  by (auto simp: encode_Ok_iff intro!: exI [of _ "drop 46 framed"])

lemma decode_frame:
  assumes digest: "length (sha256 (MAGIC @ to_be_bytes FRAME_VERSION
                     @ to_be_bytes (word_of_nat (length payload) :: u32) @ payload)) = 32"
    and bound: "46 + length payload \<le> MAX_CANONICAL_RECORD_BYTES"
  shows "decode to_vec from_slice sha256 (frame sha256 payload) = Ok r \<longleftrightarrow>
           from_slice payload = Ok r \<and> validate r = Ok () \<and> to_vec r = Ok payload"
proof -
  let ?v = "to_be_bytes FRAME_VERSION" and ?l = "to_be_bytes (word_of_nat (length payload) :: u32)"
  let ?c = "checksum sha256 ?v ?l payload"
  have lens: "length MAGIC = 8" "length ?v = 2" "length ?l = 4" "length ?c = 32"
    using digest by (simp_all add: length_MAGIC checksum_def)
  have small: "length payload < 2 ^ 32" using bound by (simp add: MAX_CANONICAL_RECORD_BYTES_def)
  have "unat (word_of_nat (length payload) :: u32) = length payload"
    using small by (simp add: unat_of_nat)
  then show ?thesis
    using bound
    by (simp add: decode_Ok_iff frame_def Let_def frame_slices [OF lens] lens)
qed

text \<open>
  Round trip: with a digest of 32 bytes and a JSON codec that reads back what it wrote, a record that
  \<open>encode\<close> accepts is decoded to itself.
\<close>

theorem encode_decode_round_trip:
  assumes "encode to_vec sha256 r = Ok framed"
    and digest: "\<And>bytes. length (sha256 bytes) = 32"
    and json: "\<And>payload. to_vec r = Ok payload \<Longrightarrow> from_slice payload = Ok r"
  shows "decode to_vec from_slice sha256 framed = Ok r"
proof -
  obtain payload where p: "to_vec r = Ok payload" "46 + length payload \<le> MAX_CANONICAL_RECORD_BYTES"
    and f: "framed = frame sha256 payload" and v: "validate r = Ok ()"
    using assms(1) by (auto simp: encode_Ok_iff)
  show ?thesis using decode_frame [OF digest p(2)] p(1) v json f by simp
qed

theorem encode_decode_round_trip_witness:
  "decode (\<lambda>_. Ok [123, 125]) (\<lambda>_. Ok sample_record) (\<lambda>_. replicate 32 0)
     (frame (\<lambda>_. replicate 32 0) [123, 125]) = Ok sample_record"
proof -
  have "encode (\<lambda>_. Ok [123, 125]) (\<lambda>_. replicate 32 0) sample_record
      = Ok (frame (\<lambda>_. replicate 32 0) [123, 125])"
    by (simp add: encode_Ok_iff sample_valid MAX_CANONICAL_RECORD_BYTES_def)
  from encode_decode_round_trip [OF this] show ?thesis by simp
qed

theorem decode_accepts_canonical_bytes_only_witness:
  "encode (\<lambda>_. Ok [123, 125]) (\<lambda>_. replicate 32 0) sample_record
     = Ok (frame (\<lambda>_. replicate 32 0) [123, 125])"
proof (rule decode_accepts_canonical_bytes_only)
  show "decode (\<lambda>_. Ok [123, 125]) (\<lambda>_. Ok sample_record) (\<lambda>_. replicate 32 0)
     (frame (\<lambda>_. replicate 32 0) [123, 125]) = Ok sample_record"
    by (simp add: decode_frame sample_valid MAX_CANONICAL_RECORD_BYTES_def)
qed

text \<open>The bytes the checksum of a frame is taken over.\<close>

definition checksum_input :: "u8 list \<Rightarrow> u8 list" where
  "checksum_input framed = MAGIC @ byte_range 8 10 framed @ byte_range 10 14 framed @ drop 46 framed"

text \<open>
  Tampering is caught: when two byte strings with the same header both decode, either they are
  equal or the digest collides on the two inputs the frames are checked against.
\<close>

theorem decode_tampered_payload_collides:
  assumes "decode to_vec from_slice sha256 a = Ok r" and "decode to_vec from_slice sha256 b = Ok s"
    and header: "take HEADER_SIZE a = take HEADER_SIZE b" and "a \<noteq> b"
  shows "checksum_input a \<noteq> checksum_input b \<and> sha256 (checksum_input a) = sha256 (checksum_input b)"
proof -
  note fa = assms(1) [unfolded decode_Ok_iff] and fb = assms(2) [unfolded decode_Ok_iff]
  have same: "byte_range i j a = byte_range i j b" if "i \<le> j" "j \<le> 46" for i j
  proof -
    have "byte_range i j a = drop i (take j (take 46 a))" "byte_range i j b = drop i (take j (take 46 b))"
      using that by (simp_all add: byte_range_def take_drop min_def)
    then show ?thesis unfolding header [unfolded frame_offsets] by simp
  qed
  have "sha256 (checksum_input a) = sha256 (checksum_input b)"
    using fa fb same [of 14 46] by (simp add: checksum_def checksum_input_def)
  moreover have "drop 46 a \<noteq> drop 46 b"
    using assms(3,4) by (metis append_take_drop_id frame_offsets(5))
  then have "checksum_input a \<noteq> checksum_input b"
    using same [of 8 10] same [of 10 14] by (simp add: checksum_input_def)
  ultimately show ?thesis by blast
qed

theorem decode_tampered_payload_collides_witness:
  "checksum_input (frame (\<lambda>_. replicate 32 0) [1]) \<noteq> checksum_input (frame (\<lambda>_. replicate 32 0) [2])"
proof -
  define other where "other = sample_rollback 2 RollbackDecided Pending"
  have "sample_record \<noteq> other" by (simp add: sample_record_def other_def sample_rollback_def)
  moreover define wr where "wr = (\<lambda>r. Ok (if r = other then [2] else [1]) :: (u8 list, string) result)"
  moreover define rd where "rd = (\<lambda>p. Ok (if p = [2::u8] then other else sample_record) :: (transition_record, string) result)"
  ultimately have "decode wr rd (\<lambda>_. replicate 32 0) (frame (\<lambda>_. replicate 32 0) [1]) = Ok sample_record"
    and "decode wr rd (\<lambda>_. replicate 32 0) (frame (\<lambda>_. replicate 32 0) [2]) = Ok other"
    by (simp_all add: decode_frame sample_valid sample_rollback_valid other_def MAX_CANONICAL_RECORD_BYTES_def)
  moreover have "take HEADER_SIZE (frame (\<lambda>_. replicate 32 0) [1]) = take HEADER_SIZE (frame (\<lambda>_. replicate 32 0) [2])"
    and "frame (\<lambda>_. replicate 32 0) [1] \<noteq> frame (\<lambda>_. replicate 32 0) [2]"
    by (simp_all add: frame_def Let_def frame_offsets checksum_def length_MAGIC)
  ultimately show ?thesis using decode_tampered_payload_collides by blast
qed

end
