(* ===== verification/Stone_Header.thy ===== *)
theory Stone_Header
  imports Wire_Int
begin

text \<open>
  The 32-byte header of a stone archive (\<open>stone/src/header\<close>) over the byte-stream primitives of
  \<open>stone/src/ext.rs\<close>. A plain reader is the list of the bytes it has left; reading past the end is
  the \<open>UnexpectedEof\<close> of \<open>read_exact\<close>.
\<close>

section \<open>Plain readers\<close>

text \<open>The kinds of \<open>std::io::ErrorKind\<close> the codecs produce.\<close>

datatype io_error = UnexpectedEof | InvalidData | WriteZero | IoOther

definition read_array :: "nat \<Rightarrow> u8 list \<Rightarrow> (u8 list \<times> u8 list, io_error) result" where
  "read_array n reader =
     (if length reader < n then Err UnexpectedEof else Ok (take n reader, drop n reader))"

section \<open>Version 1\<close>

definition INTEGRITY_CHECK :: "u8 list" where
  "INTEGRITY_CHECK = [0, 0, 1, 0, 0, 2, 0, 0, 3, 0, 0, 4, 0, 0, 5, 0, 0, 6, 0, 0, 7]"

datatype stone_header_v1_file_type = Binary | Delta | Repository | BuildManifest | UnknownFileType

fun file_type_byte :: "stone_header_v1_file_type \<Rightarrow> u8" where
  "file_type_byte Binary = 1"
| "file_type_byte Delta = 2"
| "file_type_byte Repository = 3"
| "file_type_byte BuildManifest = 4"
| "file_type_byte UnknownFileType = 255"

definition file_type_of_byte :: "u8 \<Rightarrow> stone_header_v1_file_type" where
  "file_type_of_byte b =
     (if b = 1 then Binary else if b = 2 then Delta else if b = 3 then Repository
      else if b = 4 then BuildManifest else UnknownFileType)"

record stone_header_v1 =
  num_payloads :: u16
  file_type :: stone_header_v1_file_type

datatype stone_header_v1_decode_error = Corrupt

definition header_v1_decode :: "u8 list \<Rightarrow> (stone_header_v1, stone_header_v1_decode_error) result" where
  "header_v1_decode bytes =
     (let payloads = take 2 bytes; rest = drop 2 bytes;
          integrity_check = take 21 rest; type_bytes = drop 21 rest
      in if integrity_check \<noteq> INTEGRITY_CHECK then Err Corrupt
         else Ok \<lparr> num_payloads = from_be_bytes payloads, file_type = file_type_of_byte (hd type_bytes) \<rparr>)"

definition header_v1_encode :: "stone_header_v1 \<Rightarrow> u8 list" where
  "header_v1_encode h =
     to_be_bytes (num_payloads h) @ INTEGRITY_CHECK @ [file_type_byte (file_type h)]"

section \<open>The agnostic header\<close>

definition STONE_HEADER_MAGIC :: "u8 list" where
  "STONE_HEADER_MAGIC = 0 # ascii ''mos''"

record stone_agnostic_header =
  hdr_magic :: "u8 list"
  hdr_data :: "u8 list"
  hdr_version :: "u8 list"

definition agnostic_header_decode ::
    "u8 list \<Rightarrow> (stone_agnostic_header \<times> u8 list, io_error) result" where
  "agnostic_header_decode reader =
     res_bind (read_array 4 reader) (\<lambda>(magic, reader1).
     res_bind (read_array 24 reader1) (\<lambda>(data, reader2).
     res_bind (read_array 4 reader2) (\<lambda>(version, reader3).
     Ok (\<lparr> hdr_magic = magic, hdr_data = data, hdr_version = version \<rparr>, reader3))))"

definition agnostic_header_encode :: "stone_agnostic_header \<Rightarrow> u8 list" where
  "agnostic_header_encode h = hdr_magic h @ hdr_data h @ hdr_version h"

datatype stone_header_version = V1

fun stone_header_version_word :: "stone_header_version \<Rightarrow> u32" where
  "stone_header_version_word V1 = 1"

datatype stone_header = StoneHeaderV1 stone_header_v1

fun stone_header_version_of :: "stone_header \<Rightarrow> stone_header_version" where
  "stone_header_version_of (StoneHeaderV1 h) = V1"

fun stone_header_num_payloads :: "stone_header \<Rightarrow> u16" where
  "stone_header_num_payloads (StoneHeaderV1 h) = num_payloads h"

definition STONE_HEADER_SIZE :: nat where
  "STONE_HEADER_SIZE = 32"

fun stone_header_encode :: "stone_header \<Rightarrow> u8 list" where
  "stone_header_encode (StoneHeaderV1 v1) =
     agnostic_header_encode
       \<lparr> hdr_magic = STONE_HEADER_MAGIC, hdr_data = header_v1_encode v1,
         hdr_version = to_be_bytes (stone_header_version_word (stone_header_version_of (StoneHeaderV1 v1))) \<rparr>"

datatype stone_header_decode_error =
    HeaderNotEnoughBytes
  | HeaderInvalidMagic
  | HeaderUnknownVersion u32
  | HeaderV1 stone_header_v1_decode_error
  | HeaderIo io_error

fun header_error_of_io :: "io_error \<Rightarrow> stone_header_decode_error" where
  "header_error_of_io UnexpectedEof = HeaderNotEnoughBytes"
| "header_error_of_io e = HeaderIo e"

definition stone_header_decode :: "u8 list \<Rightarrow> (stone_header \<times> u8 list, stone_header_decode_error) result" where
  "stone_header_decode reader =
     res_bind (map_err header_error_of_io (agnostic_header_decode reader)) (\<lambda>(header, rest).
       if STONE_HEADER_MAGIC \<noteq> hdr_magic header then Err HeaderInvalidMagic
       else
         (let v = from_be_bytes (hdr_version header) :: u32
          in if v = 1
             then res_bind (map_err HeaderV1 (header_v1_decode (hdr_data header)))
                    (\<lambda>v1. Ok (StoneHeaderV1 v1, rest))
             else Err (HeaderUnknownVersion v)))"

section \<open>Laws\<close>

lemma read_array_Ok_iff:
  "read_array n reader = Ok (x, rest) \<longleftrightarrow> length x = n \<and> reader = x @ rest"
  by (auto simp: read_array_def min_def)

lemma read_array_append [simp]: "length x = n \<Longrightarrow> read_array n (x @ rest) = Ok (x, rest)"
  by (simp add: read_array_Ok_iff)

lemma file_type_of_byte_byte [simp]: "file_type_of_byte (file_type_byte t) = t"
  by (cases t) (simp_all add: file_type_of_byte_def)

lemma file_type_byte_of_byte:
  "file_type_of_byte b \<noteq> UnknownFileType \<or> b = 255 \<Longrightarrow> file_type_byte (file_type_of_byte b) = b"
  by (auto simp: file_type_of_byte_def)

lemma length_INTEGRITY_CHECK [simp]: "length INTEGRITY_CHECK = 21"
  by (simp add: INTEGRITY_CHECK_def)

lemma length_STONE_HEADER_MAGIC [simp]: "length STONE_HEADER_MAGIC = 4"
  by (simp add: STONE_HEADER_MAGIC_def ascii_def)

lemma length_header_v1_encode [simp]: "length (header_v1_encode h) = 24"
  by (simp add: header_v1_encode_def)

lemma header_v1_decode_encode [simp]: "header_v1_decode (header_v1_encode h) = Ok h"
  by (simp add: header_v1_decode_def header_v1_encode_def Let_def)

lemma header_v1_encode_decode:
  assumes "header_v1_decode bytes = Ok h" and "length bytes = 24"
    and "file_type h \<noteq> UnknownFileType \<or> last bytes = 255"
  shows "header_v1_encode h = bytes"
proof -
  have h: "h = \<lparr> num_payloads = from_be_bytes (take 2 bytes), file_type = file_type_of_byte (hd (drop 23 bytes)) \<rparr>"
    and check: "take 21 (drop 2 bytes) = INTEGRITY_CHECK"
    using assms(1) by (auto simp: header_v1_decode_def Let_def split: if_splits)
  have "length (drop 23 bytes) = 1" using assms(2) by simp
  then obtain b where b: "drop 23 bytes = [b]" by (metis One_nat_def length_0_conv length_Suc_conv)
  then have "last bytes = b"
    by (metis append_take_drop_id last_snoc)
  then have "file_type_byte (file_type_of_byte b) = b"
    using assms(3) b h by (intro file_type_byte_of_byte) auto
  moreover have "bytes = take 2 bytes @ take 21 (drop 2 bytes) @ drop 23 bytes"
    using append_take_drop_id [of 2 bytes] append_take_drop_id [of 21 "drop 2 bytes"] by (simp add: drop_drop)
  moreover have "to_be_bytes (from_be_bytes (take 2 bytes) :: u16) = take 2 bytes"
    using assms(2) by (intro be_u16.put_get) simp
  ultimately show ?thesis
    unfolding header_v1_encode_def h using check b by simp
qed

lemma agnostic_header_decode_Ok_iff:
  "agnostic_header_decode reader = Ok (h, rest) \<longleftrightarrow>
     length (hdr_magic h) = 4 \<and> length (hdr_data h) = 24 \<and> length (hdr_version h) = 4
     \<and> reader = agnostic_header_encode h @ rest"
  by (cases h) (auto simp: agnostic_header_decode_def agnostic_header_encode_def result_simps read_array_Ok_iff)

lemma length_stone_header_encode: "length (stone_header_encode h) = STONE_HEADER_SIZE"
  by (cases h) (simp add: agnostic_header_encode_def STONE_HEADER_SIZE_def)

lemma stone_header_decode_encode:
  "stone_header_decode (stone_header_encode h @ rest) = Ok (h, rest)
   \<and> length (stone_header_encode h) = STONE_HEADER_SIZE"
proof (cases h)
  case (StoneHeaderV1 v1)
  let ?a = "\<lparr> hdr_magic = STONE_HEADER_MAGIC, hdr_data = header_v1_encode v1,
              hdr_version = to_be_bytes (1::u32) \<rparr>"
  have "agnostic_header_decode (stone_header_encode h @ rest) = Ok (?a, rest)"
    using StoneHeaderV1 by (simp add: agnostic_header_decode_Ok_iff)
  then show ?thesis
    using StoneHeaderV1 length_stone_header_encode [of h] by (simp add: stone_header_decode_def)
qed

text \<open>
  Header round trip: the 32 bytes \<open>encode\<close> writes are read back to the same header, and the reader
  is left at the byte after them.
\<close>

theorem stone_header_round_trip:
  "stone_header_decode (stone_header_encode h @ rest) = Ok (h, rest)
   \<and> length (stone_header_encode h) = STONE_HEADER_SIZE"
  by (rule stone_header_decode_encode)

text \<open>
  C16: A header is accepted only in its encoding: the bytes of every decoded header are the ones
  \<open>encode\<close> writes, where the one freedom is the file type byte of the unknown types.
\<close>

theorem stone_header_decode_canonical:
  assumes "stone_header_decode reader = Ok (h, rest)"
    and "h = StoneHeaderV1 v1" and "file_type v1 \<noteq> UnknownFileType"
  shows "reader = stone_header_encode h @ rest"
proof -
  obtain a where a: "agnostic_header_decode reader = Ok (a, rest)" and magic: "hdr_magic a = STONE_HEADER_MAGIC"
    and v: "(from_be_bytes (hdr_version a) :: u32) = 1" and d: "header_v1_decode (hdr_data a) = Ok v1"
    using assms by (auto simp: stone_header_decode_def result_simps Let_def split: if_splits)
  have len: "length (hdr_data a) = 24" "length (hdr_version a) = 4"
    and reader: "reader = agnostic_header_encode a @ rest"
    using a by (simp_all add: agnostic_header_decode_Ok_iff)
  have "header_v1_encode v1 = hdr_data a"
    using header_v1_encode_decode [OF d len(1)] assms(3) by blast
  moreover have "to_be_bytes (1::u32) = hdr_version a" using be_u32.put_get [OF len(2)] v by simp
  ultimately show ?thesis using reader magic assms(2) by (simp add: agnostic_header_encode_def)
qed

theorem stone_header_decode_canonical_witness:
  "[0, 109, 111, 115, 0, 4, 0, 0, 1, 0, 0, 2, 0, 0, 3, 0, 0, 4, 0, 0, 5, 0, 0, 6, 0, 0, 7, 1, 0, 0, 0, 1, 9]
     = stone_header_encode (StoneHeaderV1 \<lparr> num_payloads = 4, file_type = Binary \<rparr>) @ [9]"
proof (rule stone_header_decode_canonical)
  show "stone_header_decode
      [0, 109, 111, 115, 0, 4, 0, 0, 1, 0, 0, 2, 0, 0, 3, 0, 0, 4, 0, 0, 5, 0, 0, 6, 0, 0, 7, 1, 0, 0, 0, 1, 9]
     = Ok (StoneHeaderV1 \<lparr> num_payloads = 4, file_type = Binary \<rparr>, [9])"
    by code_simp
qed (rule refl, simp)

end
