(* ===== verification/Utf8.thy ===== *)
theory Utf8
  imports Cast_Prelude
begin

text \<open>
  The bytes \<open>str::from_utf8\<close> of the standard library accepts.
\<close>

definition is_continuation :: "u8 \<Rightarrow> bool" where
  "is_continuation b \<longleftrightarrow> 0x80 \<le> b \<and> b \<le> 0xBF"

text \<open>
  Well-formed UTF-8, as \<open>String::from_utf8\<close> accepts it: the length of the character at the front,
  0 where there is none, and the loop over the characters.
\<close>

definition utf8_char_len :: "u8 list \<Rightarrow> nat" where
  "utf8_char_len s =
     (case s of
        [] \<Rightarrow> 0
      | a # s1 \<Rightarrow>
          if a < 0x80 then 1
          else
            (case s1 of
               [] \<Rightarrow> 0
             | b # s2 \<Rightarrow>
                 if 0xC2 \<le> a \<and> a \<le> 0xDF then (if is_continuation b then 2 else 0)
                 else
                   (case s2 of
                      [] \<Rightarrow> 0
                    | c # s3 \<Rightarrow>
                        if 0xE0 \<le> a \<and> a \<le> 0xEF then
                          (if (if a = 0xE0 then 0xA0 \<le> b \<and> b \<le> 0xBF
                               else if a = 0xED then 0x80 \<le> b \<and> b \<le> 0x9F
                               else is_continuation b) \<and> is_continuation c then 3 else 0)
                        else
                          (case s3 of
                             [] \<Rightarrow> 0
                           | d # s4 \<Rightarrow>
                               if 0xF0 \<le> a \<and> a \<le> 0xF4
                                  \<and> (if a = 0xF0 then 0x90 \<le> b \<and> b \<le> 0xBF
                                     else if a = 0xF4 then 0x80 \<le> b \<and> b \<le> 0x8F
                                     else is_continuation b)
                                  \<and> is_continuation c \<and> is_continuation d then 4 else 0))))"

function utf8_valid :: "u8 list \<Rightarrow> bool" where
  "utf8_valid s =
     (if s = [] then True
      else if utf8_char_len s = 0 then False
      else utf8_valid (drop (utf8_char_len s) s))"
  by pat_completeness auto
termination by (relation "measure length") auto

declare utf8_valid.simps [simp del]

lemma utf8_char_len_le: "utf8_char_len s \<le> length s"
  by (simp add: utf8_char_len_def split: list.split)

lemma utf8_char_len_append:
  assumes "utf8_char_len s \<noteq> 0"
  shows "utf8_char_len (s @ t) = utf8_char_len s"
proof -
  consider "s = []" | a where "s = [a]" | a b where "s = [a, b]" | a b c where "s = [a, b, c]"
    | a b c d r where "s = a # b # c # d # r"
    by (metis list.exhaust)
  then show ?thesis
    using assms by cases (auto simp: utf8_char_len_def split: if_splits)
qed

lemma utf8_valid_append:
  assumes "utf8_valid s" and "utf8_valid t"
  shows "utf8_valid (s @ t)"
  using assms(1)
proof (induction s rule: utf8_valid.induct)
  case (1 s)
  show ?case
  proof (cases "s = []")
    case False
    then have n: "utf8_char_len s \<noteq> 0" and rest: "utf8_valid (drop (utf8_char_len s) s)"
      using "1.prems" utf8_valid.simps [of s] by (auto split: if_splits)
    have "utf8_valid (drop (utf8_char_len s) s @ t)" using "1.IH" False n rest by blast
    then show ?thesis
      using n utf8_char_len_append [OF n] utf8_char_len_le [of s] utf8_valid.simps [of "s @ t"] by simp
  qed (simp add: assms(2))
qed

lemma utf8_valid_nul: "utf8_valid s \<Longrightarrow> utf8_valid (s @ [0])"
  by (rule utf8_valid_append) (simp_all add: utf8_valid.simps utf8_char_len_def)

end
