(* ===== verification/Stone_Payload.thy ===== *)
theory Stone_Payload
  imports Stone_Header Utf8
begin

text \<open>
  Payload headers and the machinery records are read with (\<open>stone/src/payload/mod.rs\<close>): the
  \<open>RecordReader\<close> that bounds one record, the field readers of \<open>stone/src/ext.rs\<close> over it, and the
  loops over the records of a payload. The memory allocator is a parameter: \<open>alloc n\<close> says whether a
  reservation of \<open>n\<close> elements succeeds. The input of a reader is a list of bytes that ends in EOF.
\<close>

section \<open>Payload headers\<close>

datatype stone_payload_kind =
    KindMeta | KindContent | KindLayout | KindIndex | KindAttributes | KindUnknown

fun payload_kind_byte :: "stone_payload_kind \<Rightarrow> u8" where
  "payload_kind_byte KindMeta = 1"
| "payload_kind_byte KindContent = 2"
| "payload_kind_byte KindLayout = 3"
| "payload_kind_byte KindIndex = 4"
| "payload_kind_byte KindAttributes = 5"
| "payload_kind_byte KindUnknown = 255"

definition payload_kind_of_byte :: "u8 \<Rightarrow> stone_payload_kind" where
  "payload_kind_of_byte b =
     (if b = 1 then KindMeta else if b = 2 then KindContent else if b = 3 then KindLayout
      else if b = 4 then KindIndex else if b = 5 then KindAttributes else KindUnknown)"

datatype stone_payload_compression = CompressionNone | CompressionZstd | CompressionUnknown

fun compression_byte :: "stone_payload_compression \<Rightarrow> u8" where
  "compression_byte CompressionNone = 1"
| "compression_byte CompressionZstd = 2"
| "compression_byte CompressionUnknown = 255"

definition compression_of_byte :: "u8 \<Rightarrow> stone_payload_compression" where
  "compression_of_byte b = (if b = 1 then CompressionNone else if b = 2 then CompressionZstd else CompressionUnknown)"

record stone_payload_header =
  ph_stored_size :: u64
  ph_plain_size :: u64
  ph_checksum :: "u8 list"
  ph_num_records :: nat
  ph_version :: u16
  ph_kind :: stone_payload_kind
  ph_compression :: stone_payload_compression

definition STONE_PAYLOAD_HEADER_SIZE :: nat where
  "STONE_PAYLOAD_HEADER_SIZE = 32"

datatype stone_payload_decode_error =
    LimitExceeded string u64 u64
  | InvalidLength string u64 u64
  | LengthTooSmall string u64 u64
  | LengthOverflow string
  | Allocation string u64
  | PayloadIo io_error

text \<open>A \<open>u32\<close> record count always fits a \<open>usize\<close>.\<close>

definition payload_header_decode ::
    "u8 list \<Rightarrow> (stone_payload_header \<times> u8 list, stone_payload_decode_error) result" where
  "payload_header_decode r0 =
     map_err PayloadIo
      (res_bind (read_array 8 r0) (\<lambda>(stored_size, r1).
       res_bind (read_array 8 r1) (\<lambda>(plain_size, r2).
       res_bind (read_array 8 r2) (\<lambda>(checksum, r3).
       res_bind (read_array 4 r3) (\<lambda>(num_records, r4).
       res_bind (read_array 2 r4) (\<lambda>(version, r5).
       res_bind (read_array 1 r5) (\<lambda>(kind, r6).
       res_bind (read_array 1 r6) (\<lambda>(compression, r7).
       Ok (\<lparr> ph_stored_size = from_be_bytes stored_size,
             ph_plain_size = from_be_bytes plain_size,
             ph_checksum = checksum,
             ph_num_records = unat (from_be_bytes num_records :: u32),
             ph_version = from_be_bytes version,
             ph_kind = payload_kind_of_byte (hd kind),
             ph_compression = compression_of_byte (hd compression) \<rparr>, r7)))))))))"

definition payload_header_encode :: "stone_payload_header \<Rightarrow> u8 list" where
  "payload_header_encode h =
     to_be_bytes (ph_stored_size h) @ to_be_bytes (ph_plain_size h) @ ph_checksum h
     @ to_be_bytes (word_of_nat (ph_num_records h) :: u32) @ to_be_bytes (ph_version h)
     @ [payload_kind_byte (ph_kind h)] @ [compression_byte (ph_compression h)]"

section \<open>Record readers\<close>

record record_reader =
  rr_inner :: "u8 list"
  rr_limit :: u64
  rr_consumed :: u64

definition record_reader_new :: "u8 list \<Rightarrow> u64 \<Rightarrow> record_reader" where
  "record_reader_new inner limit = \<lparr> rr_inner = inner, rr_limit = limit, rr_consumed = 0 \<rparr>"

definition rr_remaining :: "record_reader \<Rightarrow> nat" where
  "rr_remaining rr = unat (rr_limit rr) - unat (rr_consumed rr)"

definition rr_read :: "nat \<Rightarrow> record_reader \<Rightarrow> (u8 list \<times> record_reader, io_error) result" where
  "rr_read buf_len rr =
     (if buf_len = 0 then Ok ([], rr)
      else if rr_remaining rr = 0 then Err InvalidData
      else
        (let allowed = min (rr_remaining rr) buf_len; bytes = take allowed (rr_inner rr)
         in case checked_add (rr_consumed rr) (word_of_nat (length bytes)) of
              None \<Rightarrow> Err InvalidData
            | Some consumed \<Rightarrow> Ok (bytes, rr\<lparr> rr_inner := drop allowed (rr_inner rr), rr_consumed := consumed \<rparr>)))"

text \<open>\<open>read_exact\<close> of the standard library: read until the buffer is full, an empty read is EOF.\<close>

function rr_read_exact :: "nat \<Rightarrow> record_reader \<Rightarrow> (u8 list \<times> record_reader, io_error) result" where
  "rr_read_exact n rr =
     (if n = 0 then Ok ([], rr)
      else
        (case rr_read n rr of
           Err e \<Rightarrow> Err e
         | Ok (bytes, rr') \<Rightarrow>
             (if bytes = [] then Err UnexpectedEof
              else
                (case rr_read_exact (n - length bytes) rr' of
                   Err e \<Rightarrow> Err e
                 | Ok (bytes', rr'') \<Rightarrow> Ok (bytes @ bytes', rr'')))))"
  by pat_completeness auto
termination by (relation "measure fst") (auto simp: neq_Nil_conv)

declare rr_read_exact.simps [simp del]

type_synonym 'a record_read = "record_reader \<Rightarrow> ('a \<times> record_reader, stone_payload_decode_error) result"

definition rd_bind :: "'a record_read \<Rightarrow> ('a \<Rightarrow> 'b record_read) \<Rightarrow> 'b record_read" where
  "rd_bind m f = (\<lambda>rr. res_bind (m rr) (\<lambda>(x, rr'). f x rr'))"

definition rd_return :: "'a \<Rightarrow> 'a record_read" where
  "rd_return x = (\<lambda>rr. Ok (x, rr))"

definition rd_fail :: "stone_payload_decode_error \<Rightarrow> 'a record_read" where
  "rd_fail e = (\<lambda>rr. Err e)"

definition rd_array :: "nat \<Rightarrow> u8 list record_read" where
  "rd_array n = (\<lambda>rr. map_err PayloadIo (rr_read_exact n rr))"

definition rd_u8 :: "u8 record_read" where
  "rd_u8 = rd_bind (rd_array 1) (\<lambda>bytes. rd_return (hd bytes))"

definition rd_u16 :: "u16 record_read" where
  "rd_u16 = rd_bind (rd_array 2) (\<lambda>bytes. rd_return (from_be_bytes bytes))"

definition rd_u32 :: "u32 record_read" where
  "rd_u32 = rd_bind (rd_array 4) (\<lambda>bytes. rd_return (from_be_bytes bytes))"

definition rd_u64 :: "u64 record_read" where
  "rd_u64 = rd_bind (rd_array 8) (\<lambda>bytes. rd_return (from_be_bytes bytes))"

definition rd_u128 :: "u128 record_read" where
  "rd_u128 = rd_bind (rd_array 16) (\<lambda>bytes. rd_return (from_be_bytes bytes))"

definition ensure_additional :: "string \<Rightarrow> u64 \<Rightarrow> unit record_read" where
  "ensure_additional field len =
     (\<lambda>rr. case checked_add (rr_consumed rr) len of
             None \<Rightarrow> Err (LengthOverflow field)
           | Some requested \<Rightarrow>
               (if requested > rr_limit rr then Err (LimitExceeded field (rr_limit rr) requested)
                else Ok ((), rr)))"

definition read_vec :: "(nat \<Rightarrow> bool) \<Rightarrow> nat \<Rightarrow> u8 list record_read" where
  "read_vec alloc n = (if alloc n then rd_array n else rd_fail (PayloadIo IoOther))"

definition read_string :: "(nat \<Rightarrow> bool) \<Rightarrow> u64 \<Rightarrow> u8 list record_read" where
  "read_string alloc len =
     rd_bind (read_vec alloc (unat len))
       (\<lambda>bytes. if utf8_valid bytes then rd_return bytes else rd_fail (PayloadIo InvalidData))"

definition read_sized_vec :: "(nat \<Rightarrow> bool) \<Rightarrow> string \<Rightarrow> u64 \<Rightarrow> u8 list record_read" where
  "read_sized_vec alloc field len =
     rd_bind (ensure_additional field len) (\<lambda>_. read_vec alloc (unat len))"

definition read_sized_string :: "(nat \<Rightarrow> bool) \<Rightarrow> string \<Rightarrow> u64 \<Rightarrow> u8 list record_read" where
  "read_sized_string alloc field len =
     rd_bind (ensure_additional field len) (\<lambda>_. read_string alloc len)"

text \<open>\<open>trim_end_matches('\0')\<close>.\<close>

definition trim_end_nul :: "u8 list \<Rightarrow> u8 list" where
  "trim_end_nul s = rev (dropWhile (\<lambda>b. b = 0) (rev s))"

section \<open>Payloads of records\<close>

primrec decode_loop :: "'r record_read \<Rightarrow> u64 \<Rightarrow> nat \<Rightarrow> u8 list
    \<Rightarrow> ('r list \<times> u8 list, stone_payload_decode_error) result" where
  "decode_loop decode max_record_bytes 0 reader = Ok ([], reader)"
| "decode_loop decode max_record_bytes (Suc n) reader =
     res_bind (decode (record_reader_new reader max_record_bytes)) (\<lambda>(r, rr).
     res_bind (decode_loop decode max_record_bytes n (rr_inner rr)) (\<lambda>(rs, reader').
     Ok (r # rs, reader')))"

definition decode_records :: "(nat \<Rightarrow> bool) \<Rightarrow> 'r record_read \<Rightarrow> u8 list \<Rightarrow> nat \<Rightarrow> u64
    \<Rightarrow> ('r list \<times> u8 list, stone_payload_decode_error) result" where
  "decode_records alloc decode reader num_records max_record_bytes =
     (if alloc num_records then decode_loop decode max_record_bytes num_records reader
      else Err (Allocation ''payload records'' (word_of_nat num_records)))"

definition encode_records :: "('r \<Rightarrow> u8 list) \<Rightarrow> 'r list \<Rightarrow> u8 list" where
  "encode_records encode records = concat (map encode records)"

definition records_total_size :: "('r \<Rightarrow> nat) \<Rightarrow> 'r list \<Rightarrow> nat" where
  "records_total_size size_of records = sum_list (map size_of records)"

section \<open>Reading exactly\<close>

definition rr_ok :: "record_reader \<Rightarrow> bool" where
  "rr_ok rr \<longleftrightarrow> rr_consumed rr \<le> rr_limit rr"

definition rr_advance :: "nat \<Rightarrow> record_reader \<Rightarrow> record_reader" where
  "rr_advance n rr = rr\<lparr> rr_inner := drop n (rr_inner rr), rr_consumed := rr_consumed rr + word_of_nat n \<rparr>"

lemma rr_new_ok [simp]: "rr_ok (record_reader_new inner limit)"
  by (simp add: rr_ok_def record_reader_new_def)

lemma rr_advance_zero [simp]: "rr_advance 0 rr = rr"
  by (simp add: rr_advance_def)

lemma rr_consumed_advance:
  assumes "rr_ok rr" and "n \<le> rr_remaining rr"
  shows "unat (rr_consumed rr + word_of_nat n) = unat (rr_consumed rr) + n"
    and "unat (rr_consumed rr) + n < 2 ^ 64" and "n < 2 ^ 64"
proof -
  have "unat (rr_limit rr) < 2 ^ 64" using unsigned_less [of "rr_limit rr"] by simp
  moreover have "unat (rr_consumed rr) \<le> unat (rr_limit rr)" using assms(1) by (simp add: rr_ok_def word_le_nat_alt)
  ultimately show lt: "unat (rr_consumed rr) + n < 2 ^ 64" and "n < 2 ^ 64"
    using assms(2) by (simp_all add: rr_remaining_def)
  then show "unat (rr_consumed rr + word_of_nat n) = unat (rr_consumed rr) + n"
    by (simp add: unat_word_ariths unat_of_nat)
qed

lemma rr_advance_simps:
  assumes "rr_ok rr" and "n \<le> rr_remaining rr"
  shows "rr_ok (rr_advance n rr)" "rr_remaining (rr_advance n rr) = rr_remaining rr - n"
    "rr_inner (rr_advance n rr) = drop n (rr_inner rr)" "rr_limit (rr_advance n rr) = rr_limit rr"
    "unat (rr_consumed (rr_advance n rr)) = unat (rr_consumed rr) + n"
  using rr_consumed_advance [OF assms] assms
  by (auto simp: rr_advance_def rr_ok_def rr_remaining_def word_le_nat_alt)

lemma rr_advance_advance:
  "rr_advance m (rr_advance n rr) = rr_advance (n + m) rr"
  by (simp add: rr_advance_def add.commute ac_simps)

lemma rr_read_closed:
  assumes "rr_ok rr" and "n \<noteq> 0" and "rr_remaining rr \<noteq> 0"
  defines "k \<equiv> min (min (rr_remaining rr) n) (length (rr_inner rr))"
  shows "rr_read n rr = Ok (take k (rr_inner rr), rr_advance k rr)"
proof -
  let ?a = "min (rr_remaining rr) n"
  have k: "length (take ?a (rr_inner rr)) = k" by (simp add: k_def)
  have "k \<le> rr_remaining rr" by (simp add: k_def)
  note adv = rr_consumed_advance [OF assms(1) this]
  have "checked_add (rr_consumed rr) (word_of_nat k) = Some (rr_consumed rr + word_of_nat k)"
    using adv by (simp add: checked_add_Some_iff unat_of_nat)
  moreover have "take ?a (rr_inner rr) = take k (rr_inner rr)" "drop ?a (rr_inner rr) = drop k (rr_inner rr)"
    by (simp_all add: k_def min_def)
  ultimately show ?thesis
    unfolding rr_read_def Let_def k using assms(2,3) by (simp add: rr_advance_def)
qed

text \<open>What reading exactly \<open>n\<close> bytes does: the bytes, or EOF, or the limit of the record.\<close>

lemma rr_read_exact_closed:
  assumes ok: "rr_ok rr"
  shows "rr_read_exact n rr =
     (if n \<le> rr_remaining rr \<and> n \<le> length (rr_inner rr) then Ok (take n (rr_inner rr), rr_advance n rr)
      else if n \<le> rr_remaining rr \<or> length (rr_inner rr) < rr_remaining rr then Err UnexpectedEof
      else Err InvalidData)"
  using ok
proof (induction n rr rule: rr_read_exact.induct)
  case (1 n rr)
  define k where "k = min (min (rr_remaining rr) n) (length (rr_inner rr))"
  show ?case
  proof (cases "n = 0 \<or> rr_remaining rr = 0")
    case True
    then show ?thesis by (auto simp: rr_read_exact.simps [of n rr] rr_read_def)
  next
    case False
    then have read: "rr_read n rr = Ok (take k (rr_inner rr), rr_advance k rr)"
      using rr_read_closed [OF "1.prems"] by (simp add: k_def)
    show ?thesis
    proof (cases "rr_inner rr = []")
      case True
      then show ?thesis using False read by (simp add: rr_read_exact.simps [of n rr] k_def)
    next
      case nonempty: False
      have k: "0 < k" "k \<le> rr_remaining rr" "k \<le> n" "k \<le> length (rr_inner rr)"
        using False nonempty by (simp_all add: k_def)
      note adv = rr_advance_simps [OF "1.prems" k(2)]
      have "take k (rr_inner rr) \<noteq> []" using k nonempty by simp
      then have IH: "rr_read_exact (n - k) (rr_advance k rr) =
          (if n - k \<le> rr_remaining rr - k \<and> n - k \<le> length (rr_inner rr) - k
           then Ok (take (n - k) (drop k (rr_inner rr)), rr_advance (n - k) (rr_advance k rr))
           else if n - k \<le> rr_remaining rr - k \<or> length (rr_inner rr) - k < rr_remaining rr - k
           then Err UnexpectedEof else Err InvalidData)"
        using "1.IH" [OF _ read refl _ adv(1)] False k adv by simp
      have cut: "take k (rr_inner rr) @ take (n - k) (drop k (rr_inner rr)) = take n (rr_inner rr)"
        using k by (metis le_add_diff_inverse take_add)
      have unfold: "rr_read_exact n rr =
          (case rr_read_exact (n - k) (rr_advance k rr) of
             Err e \<Rightarrow> Err e | Ok (bytes, rr'') \<Rightarrow> Ok (take k (rr_inner rr) @ bytes, rr''))"
        unfolding rr_read_exact.simps [of n rr] read using False nonempty k by simp
      consider "n \<le> rr_remaining rr" "n \<le> length (rr_inner rr)" "k = n"
        | "n \<le> rr_remaining rr" "length (rr_inner rr) < n" "k = length (rr_inner rr)"
        | "rr_remaining rr < n" "length (rr_inner rr) < rr_remaining rr" "k = length (rr_inner rr)"
        | "rr_remaining rr < n" "rr_remaining rr \<le> length (rr_inner rr)" "k = rr_remaining rr"
        unfolding k_def by linarith
      then show ?thesis
        unfolding unfold IH by cases (use cut in \<open>simp_all add: rr_advance_advance\<close>)
    qed
  qed
qed

section \<open>What a reader program reads\<close>

text \<open>
  \<open>reads m room bs x\<close>: on a reader with at least \<open>room\<close> bytes left of its limit and \<open>bs\<close> at the front
  of its input, \<open>m\<close> returns \<open>x\<close> and has read exactly \<open>bs\<close>. \<open>bounded_read m\<close>: whatever \<open>m\<close> returns, it
  has read a prefix of the input within the limit.
\<close>

named_theorems reads_intros \<open>what the reader programs read\<close>
named_theorems bounded_intros \<open>reader programs stay within the limit\<close>

definition reads :: "'a record_read \<Rightarrow> nat \<Rightarrow> u8 list \<Rightarrow> 'a \<Rightarrow> bool" where
  "reads m room bs x \<longleftrightarrow>
     length bs \<le> room
     \<and> (\<forall>rr rest. rr_ok rr \<longrightarrow> rr_inner rr = bs @ rest \<longrightarrow> room \<le> rr_remaining rr
          \<longrightarrow> m rr = Ok (x, rr_advance (length bs) rr))"

definition bounded_read :: "'a record_read \<Rightarrow> bool" where
  "bounded_read m \<longleftrightarrow>
     (\<forall>rr x rr'. rr_ok rr \<longrightarrow> m rr = Ok (x, rr')
        \<longrightarrow> (\<exists>n. n \<le> rr_remaining rr \<and> n \<le> length (rr_inner rr) \<and> rr' = rr_advance n rr))"

lemma reads_return: "reads (rd_return x) room [] x"
  by (simp add: reads_def rd_return_def)

lemma reads_bind:
  assumes m: "reads m room bs x" and f: "reads (f x) (room - length bs) cs y"
  shows "reads (rd_bind m f) room (bs @ cs) y"
proof -
  have len: "length bs \<le> room" "length cs \<le> room - length bs" using m f by (simp_all add: reads_def)
  have "rd_bind m f rr = Ok (y, rr_advance (length (bs @ cs)) rr)"
    if ok: "rr_ok rr" and inner: "rr_inner rr = (bs @ cs) @ rest" and room: "room \<le> rr_remaining rr" for rr rest
  proof -
    have 1: "m rr = Ok (x, rr_advance (length bs) rr)"
      using m ok inner room by (simp add: reads_def)
    have le: "length bs \<le> rr_remaining rr" using len(1) room by simp
    have "f x (rr_advance (length bs) rr) = Ok (y, rr_advance (length cs) (rr_advance (length bs) rr))"
      using f rr_advance_simps [OF ok le] inner room by (simp add: reads_def)
    then show ?thesis using 1 by (simp add: rd_bind_def rr_advance_advance)
  qed
  then show ?thesis using len by (auto simp: reads_def)
qed

lemma reads_bind_nil:
  assumes "reads m room [] x" and "reads (f x) room cs y"
  shows "reads (rd_bind m f) room cs y"
  using reads_bind [of m room "[]" x f cs y] assms by simp

lemma reads_bind_last:
  assumes "reads m room bs x" and "reads (f x) (room - length bs) [] y"
  shows "reads (rd_bind m f) room bs y"
  using reads_bind [of m room bs x f "[]" y] assms by simp

lemma reads_array [reads_intros]: "length bs = n \<Longrightarrow> n \<le> room \<Longrightarrow> reads (rd_array n) room bs bs"
  by (simp add: reads_def rd_array_def rr_read_exact_closed)

lemma reads_field:
  assumes "length bs = n" and "n \<le> room" and "g bs = x"
  shows "reads (rd_bind (rd_array n) (\<lambda>bytes. rd_return (g bytes))) room bs x"
  by (rule reads_bind_last [OF reads_array [OF assms(1,2)]]) (simp add: assms(3) reads_return)

lemma reads_ints [reads_intros]:
  "1 \<le> room \<Longrightarrow> reads rd_u8 room [b] b"
  "2 \<le> room \<Longrightarrow> reads rd_u16 room (to_be_bytes x16) x16"
  "4 \<le> room \<Longrightarrow> reads rd_u32 room (to_be_bytes x32) x32"
  "8 \<le> room \<Longrightarrow> reads rd_u64 room (to_be_bytes x64) x64"
  "16 \<le> room \<Longrightarrow> reads rd_u128 room (to_be_bytes x128) x128"
  unfolding rd_u8_def rd_u16_def rd_u32_def rd_u64_def rd_u128_def
  by (rule reads_field; simp)+

lemma reads_ensure_additional [reads_intros]:
  assumes "unat len \<le> room"
  shows "reads (ensure_additional field len) room [] ()"
proof -
  have "ensure_additional field len rr = Ok ((), rr)" if ok: "rr_ok rr" and room: "room \<le> rr_remaining rr" for rr
  proof -
    have le: "unat len \<le> rr_remaining rr" using assms room by simp
    have "unat (rr_consumed rr) + unat len \<le> unat (rr_limit rr)"
      using le ok by (simp add: rr_remaining_def rr_ok_def word_le_nat_alt)
    moreover have "checked_add (rr_consumed rr) len = Some (rr_consumed rr + len)"
      using rr_consumed_advance(2) [OF ok le] by (simp add: checked_add_Some_iff)
    ultimately show ?thesis
      using checked_add_unat [of "rr_consumed rr" len] by (simp add: ensure_additional_def word_less_nat_alt)
  qed
  then show ?thesis by (auto simp: reads_def)
qed

lemma reads_vec [reads_intros]: "alloc n \<Longrightarrow> length bs = n \<Longrightarrow> n \<le> room \<Longrightarrow> reads (read_vec alloc n) room bs bs"
  by (simp add: read_vec_def reads_array)

lemma reads_sized_vec [reads_intros]:
  assumes "alloc (length bs)" and "unat len = length bs" and "length bs \<le> room"
  shows "reads (read_sized_vec alloc field len) room bs bs"
  unfolding read_sized_vec_def
  using assms by (intro reads_bind_nil [OF reads_ensure_additional]) (simp_all add: reads_vec)

lemma reads_sized_string [reads_intros]:
  assumes "alloc (length bs)" and "unat len = length bs" and "length bs \<le> room" and "utf8_valid bs"
  shows "reads (read_sized_string alloc field len) room bs bs"
  unfolding read_sized_string_def read_string_def
  using assms
  by (intro reads_bind_nil [OF reads_ensure_additional] reads_bind_last [OF reads_vec])
     (simp_all add: reads_return)

section \<open>Staying within the limit\<close>

lemma bounded_return [bounded_intros]: "bounded_read (rd_return x)"
  by (auto simp: bounded_read_def rd_return_def intro: exI [of _ 0])

lemma bounded_fail [bounded_intros]: "bounded_read (rd_fail e)"
  by (simp add: bounded_read_def rd_fail_def)

lemma bounded_bind [bounded_intros]:
  assumes m: "bounded_read m" and f: "\<And>x. bounded_read (f x)"
  shows "bounded_read (rd_bind m f)"
  unfolding bounded_read_def
proof (intro allI impI)
  fix rr y rr'
  assume ok: "rr_ok rr" and "rd_bind m f rr = Ok (y, rr')"
  then obtain x rr1 where 1: "m rr = Ok (x, rr1)" and 2: "f x rr1 = Ok (y, rr')"
    by (auto simp: rd_bind_def result_simps)
  obtain n where n: "n \<le> rr_remaining rr" "n \<le> length (rr_inner rr)" "rr1 = rr_advance n rr"
    using m ok 1 unfolding bounded_read_def by blast
  note adv = rr_advance_simps [OF ok n(1)]
  obtain k where k: "k \<le> rr_remaining rr1" "k \<le> length (rr_inner rr1)" "rr' = rr_advance k rr1"
    using f [of x] adv(1) 2 n(3) unfolding bounded_read_def by blast
  show "\<exists>n. n \<le> rr_remaining rr \<and> n \<le> length (rr_inner rr) \<and> rr' = rr_advance n rr"
    using n k adv by (intro exI [of _ "n + k"]) (auto simp: rr_advance_advance)
qed

lemma bounded_array [bounded_intros]: "bounded_read (rd_array n)"
  by (auto simp: bounded_read_def rd_array_def rr_read_exact_closed split: if_splits)

lemma bounded_ints [bounded_intros]:
  "bounded_read rd_u8" "bounded_read rd_u16" "bounded_read rd_u32" "bounded_read rd_u64" "bounded_read rd_u128"
  by (simp_all add: rd_u8_def rd_u16_def rd_u32_def rd_u64_def rd_u128_def bounded_intros)

lemma bounded_ensure [bounded_intros]: "bounded_read (ensure_additional field len)"
  by (auto simp: bounded_read_def ensure_additional_def split: option.splits if_splits intro: exI [of _ 0])

lemma bounded_if [bounded_intros]: "bounded_read m \<Longrightarrow> bounded_read m' \<Longrightarrow> bounded_read (if c then m else m')"
  by simp

lemma bounded_sized [bounded_intros]:
  "bounded_read (read_sized_vec alloc field len)" "bounded_read (read_sized_string alloc field len)"
  unfolding read_sized_vec_def read_sized_string_def read_string_def read_vec_def
  by (intro bounded_intros)+

section \<open>Reservations\<close>

text \<open>A program that asks the allocator only for sizes within the limit of its record.\<close>

named_theorems alloc_intros \<open>reader programs reserve within the limit\<close>

definition alloc_local :: "((nat \<Rightarrow> bool) \<Rightarrow> 'a record_read) \<Rightarrow> bool" where
  "alloc_local f \<longleftrightarrow>
     (\<forall>a a' rr. rr_ok rr \<longrightarrow> (\<forall>n \<le> unat (rr_limit rr). a n = a' n) \<longrightarrow> f a rr = f a' rr)"

lemma alloc_const [alloc_intros]: "alloc_local (\<lambda>_. m)"
  by (simp add: alloc_local_def)

lemma alloc_bind [alloc_intros]:
  assumes m: "alloc_local m" and b: "\<And>a. bounded_read (m a)" and f: "\<And>x. alloc_local (\<lambda>a. f a x)"
  shows "alloc_local (\<lambda>a. rd_bind (m a) (f a))"
  unfolding alloc_local_def
proof (intro allI impI)
  fix a a' :: "nat \<Rightarrow> bool" and rr
  assume ok: "rr_ok rr" and same: "\<forall>n \<le> unat (rr_limit rr). a n = a' n"
  have m_same: "m a rr = m a' rr" using m ok same by (simp add: alloc_local_def)
  show "rd_bind (m a) (f a) rr = rd_bind (m a') (f a') rr"
  proof (cases "m a' rr")
    case (Ok p)
    obtain x rr1 where p: "p = (x, rr1)" by (cases p)
    then obtain n where "n \<le> rr_remaining rr" "rr1 = rr_advance n rr"
      using b [of a'] ok Ok unfolding bounded_read_def by blast
    then have "f a x rr1 = f a' x rr1"
      using f [of x] rr_advance_simps [OF ok] same by (simp add: alloc_local_def)
    then show ?thesis using Ok p m_same by (simp add: rd_bind_def)
  qed (simp add: rd_bind_def m_same)
qed

lemma alloc_if [alloc_intros]:
  "alloc_local m \<Longrightarrow> alloc_local m' \<Longrightarrow> alloc_local (\<lambda>a. if c then m a else m' a)"
  by (cases c) simp_all

lemma ensure_additional_Ok:
  assumes "ensure_additional field len rr = Ok (u, rr')"
  shows "rr' = rr" and "unat len \<le> unat (rr_limit rr)"
proof -
  have "rr' = rr \<and> unat len \<le> unat (rr_limit rr)"
  proof (cases "checked_add (rr_consumed rr) len")
    case None
    then show ?thesis using assms by (simp add: ensure_additional_def)
  next
    case (Some req)
    then have "req \<le> rr_limit rr" "rr' = rr"
      using assms by (simp_all add: ensure_additional_def split: if_splits)
    then show ?thesis using checked_add_unat [OF Some] by (simp add: word_le_nat_alt)
  qed
  then show "rr' = rr" and "unat len \<le> unat (rr_limit rr)" by simp_all
qed

lemma alloc_ensured:
  assumes g: "\<And>a a'. a (unat len) = a' (unat len) \<Longrightarrow> g a = g a'"
  shows "alloc_local (\<lambda>a. rd_bind (ensure_additional field len) (\<lambda>_. g a))"
  unfolding alloc_local_def
proof (intro allI impI)
  fix a a' :: "nat \<Rightarrow> bool" and rr :: record_reader
  assume same: "\<forall>n \<le> unat (rr_limit rr). a n = a' n"
  show "rd_bind (ensure_additional field len) (\<lambda>_. g a) rr = rd_bind (ensure_additional field len) (\<lambda>_. g a') rr"
  proof (cases "ensure_additional field len rr")
    case (Ok p)
    obtain u rr' where "p = (u, rr')" by (cases p)
    then have "unat len \<le> unat (rr_limit rr)" using ensure_additional_Ok(2) Ok by blast
    then have "g a = g a'" using same by (intro g) simp
    then show ?thesis by simp
  qed (simp add: rd_bind_def)
qed

lemma alloc_sized [alloc_intros]:
  "alloc_local (\<lambda>a. read_sized_vec a field len)" "alloc_local (\<lambda>a. read_sized_string a field len)"
  unfolding read_sized_vec_def read_sized_string_def
  by (rule alloc_ensured, simp add: read_string_def read_vec_def)+

section \<open>Text\<close>

lemma trim_end_nul_snoc [simp]: "trim_end_nul (s @ [0]) = trim_end_nul s"
  by (simp add: trim_end_nul_def)

lemma trim_end_nul_id: "s = [] \<or> last s \<noteq> 0 \<Longrightarrow> trim_end_nul s = s"
  by (cases s rule: rev_cases) (simp_all add: trim_end_nul_def)

definition clean_text :: "u8 list \<Rightarrow> bool" where
  "clean_text s \<longleftrightarrow> utf8_valid s \<and> (s = [] \<or> last s \<noteq> 0)"

section \<open>The contract of a record type\<close>

lemma record_reader_new_simps [simp]:
  "rr_inner (record_reader_new inner limit) = inner" "rr_limit (record_reader_new inner limit) = limit"
  "rr_remaining (record_reader_new inner limit) = unat limit"
  "rr_inner (rr_advance n (record_reader_new inner limit)) = drop n inner"
  by (simp_all add: rr_remaining_def record_reader_new_def rr_advance_def)

locale record_codec =
  fixes enc :: "'r \<Rightarrow> u8 list" and dec :: "(nat \<Rightarrow> bool) \<Rightarrow> 'r record_read" and size_of :: "'r \<Rightarrow> nat"
    and storable :: "'r \<Rightarrow> bool"
  assumes enc_size: "length (enc r) = size_of r"
    and dec_reads: "storable r \<Longrightarrow> size_of r \<le> room \<Longrightarrow> (\<And>n. n \<le> size_of r \<Longrightarrow> alloc n)
                      \<Longrightarrow> reads (dec alloc) room (enc r) r"
    and dec_bounded: "bounded_read (dec alloc)"
    and dec_local: "alloc_local dec"
begin

lemma encode_records_size: "length (encode_records enc rs) = records_total_size size_of rs"
  by (induction rs) (simp_all add: encode_records_def records_total_size_def enc_size)

lemma decode_one:
  assumes "storable r" and "size_of r \<le> unat limit" and "\<And>n. n \<le> unat limit \<Longrightarrow> alloc n"
  shows "dec alloc (record_reader_new (enc r @ rest) limit)
         = Ok (r, rr_advance (size_of r) (record_reader_new (enc r @ rest) limit))"
proof -
  have "reads (dec alloc) (unat limit) (enc r) r" using assms by (intro dec_reads) auto
  then show ?thesis
    using rr_new_ok record_reader_new_simps(1,3) unfolding reads_def enc_size by (metis order_refl)
qed

lemma decode_loop_encode:
  assumes "list_all (\<lambda>r. storable r \<and> size_of r \<le> unat limit) rs" and "\<And>n. n \<le> unat limit \<Longrightarrow> alloc n"
  shows "decode_loop (dec alloc) limit (length rs) (encode_records enc rs @ rest) = Ok (rs, rest)"
  using assms(1)
proof (induction rs)
  case (Cons r rs)
  have "dec alloc (record_reader_new (enc r @ encode_records enc rs @ rest) limit)
      = Ok (r, rr_advance (size_of r) (record_reader_new (enc r @ encode_records enc rs @ rest) limit))"
    using Cons.prems assms(2) by (intro decode_one) auto
  then show ?case
    using Cons by (simp add: encode_records_def enc_size [symmetric])
qed (simp add: encode_records_def)

lemma decode_records_encode:
  assumes "list_all (\<lambda>r. storable r \<and> size_of r \<le> unat limit) rs" and "\<And>n. n \<le> unat limit \<Longrightarrow> alloc n"
    and "alloc (length rs)"
  shows "decode_records alloc (dec alloc) (encode_records enc rs @ rest) (length rs) limit = Ok (rs, rest)"
  using decode_loop_encode [OF assms(1,2)] assms(3) by (simp add: decode_records_def)

lemma decode_loop_consumes:
  "decode_loop (dec alloc) limit n reader = Ok (rs, rest) \<Longrightarrow>
     length rs = n \<and> (\<exists>bs. reader = bs @ rest \<and> length bs \<le> n * unat limit)"
proof (induction n arbitrary: reader rs)
  case (Suc n)
  then obtain r rr rs' where r: "dec alloc (record_reader_new reader limit) = Ok (r, rr)"
    and rest: "decode_loop (dec alloc) limit n (rr_inner rr) = Ok (rs', rest)" and rs: "rs = r # rs'"
    by (auto simp: result_simps)
  obtain k where k: "k \<le> unat limit" "k \<le> length reader" "rr = rr_advance k (record_reader_new reader limit)"
    using dec_bounded [of alloc, unfolded bounded_read_def, rule_format, OF rr_new_ok r] by auto
  then have inner: "rr_inner rr = drop k reader" by simp
  obtain bs where bs: "drop k reader = bs @ rest" "length bs \<le> n * unat limit" and len: "length rs' = n"
    using Suc.IH [OF rest] inner by auto
  have "reader = (take k reader @ bs) @ rest" using bs(1) by (metis append.assoc append_take_drop_id)
  moreover have "length (take k reader @ bs) \<le> Suc n * unat limit" using k bs(2) by simp
  ultimately show ?case using rs len by (intro conjI exI [of _ "take k reader @ bs"]) simp_all
qed simp

lemma decode_loop_local:
  assumes "\<forall>k \<le> unat limit. a k = a' k"
  shows "decode_loop (dec a) limit n reader = decode_loop (dec a') limit n reader"
proof (induction n arbitrary: reader)
  case (Suc n)
  have "dec a (record_reader_new reader limit) = dec a' (record_reader_new reader limit)"
    by (rule dec_local [unfolded alloc_local_def, rule_format]) (use assms in simp_all)
  then show ?case using Suc by simp
qed simp

lemma decode_records_local:
  assumes "\<forall>k \<le> unat limit. a k = a' k" and "a n = a' n"
  shows "decode_records a (dec a) reader n limit = decode_records a' (dec a') reader n limit"
  using decode_loop_local [OF assms(1)] assms(2) by (simp add: decode_records_def)

end

end
