(* ===== verification/Stone_Records.thy ===== *)
theory Stone_Records
  imports Stone_Payload
begin

text \<open>
  The record types of a stone archive: index and attribute records
  (\<open>payload/index.rs\<close>, \<open>payload/attribute.rs\<close>), metadata (\<open>payload/meta.rs\<close>) and file layout
  (\<open>payload/layout.rs\<close>). A Rust \<open>String\<close> is the list of its UTF-8 bytes.
\<close>

section \<open>Index records\<close>

record stone_index_record =
  idx_start :: u64
  idx_end :: u64
  idx_digest :: u128

definition index_decode :: "stone_index_record record_read" where
  "index_decode =
     rd_bind rd_u64 (\<lambda>start. rd_bind rd_u64 (\<lambda>end'. rd_bind rd_u128 (\<lambda>digest.
     rd_return \<lparr> idx_start = start, idx_end = end', idx_digest = digest \<rparr>)))"

definition index_encode :: "stone_index_record \<Rightarrow> u8 list" where
  "index_encode r = to_be_bytes (idx_start r) @ to_be_bytes (idx_end r) @ to_be_bytes (idx_digest r)"

definition index_size :: "stone_index_record \<Rightarrow> nat" where
  "index_size r = 32"

section \<open>Attribute records\<close>

record stone_attribute_record =
  attr_key :: "u8 list"
  attr_value :: "u8 list"

definition rd_option :: "'a option \<Rightarrow> stone_payload_decode_error \<Rightarrow> 'a record_read" where
  "rd_option v e = (case v of Some x \<Rightarrow> rd_return x | None \<Rightarrow> rd_fail e)"

definition attribute_decode :: "(nat \<Rightarrow> bool) \<Rightarrow> stone_attribute_record record_read" where
  "attribute_decode alloc =
     rd_bind rd_u64 (\<lambda>key_length. rd_bind rd_u64 (\<lambda>value_length.
     rd_bind (rd_option (checked_add key_length value_length) (LengthOverflow ''attribute key and value''))
       (\<lambda>variable_length.
     rd_bind (ensure_additional ''attribute key and value'' variable_length) (\<lambda>_.
     rd_bind (read_sized_vec alloc ''attribute key'' key_length) (\<lambda>key.
     rd_bind (read_sized_vec alloc ''attribute value'' value_length) (\<lambda>val.
     rd_return \<lparr> attr_key = key, attr_value = val \<rparr>))))))"

definition attribute_encode :: "stone_attribute_record \<Rightarrow> u8 list" where
  "attribute_encode r =
     to_be_bytes (word_of_nat (length (attr_key r)) :: u64) @ to_be_bytes (word_of_nat (length (attr_value r)) :: u64)
     @ attr_key r @ attr_value r"

definition attribute_size :: "stone_attribute_record \<Rightarrow> nat" where
  "attribute_size r = 8 + 8 + length (attr_key r) + length (attr_value r)"

section \<open>Metadata records\<close>

datatype meta_dependency =
    DepPackageName | DepSharedLibrary | DepPkgConfig | DepInterpreter | DepCMake | DepPython
  | DepBinary | DepSystemBinary | DepPkgConfig32 | DepUnknown

fun dependency_byte :: "meta_dependency \<Rightarrow> u8" where
  "dependency_byte DepPackageName = 0"
| "dependency_byte DepSharedLibrary = 1"
| "dependency_byte DepPkgConfig = 2"
| "dependency_byte DepInterpreter = 3"
| "dependency_byte DepCMake = 4"
| "dependency_byte DepPython = 5"
| "dependency_byte DepBinary = 6"
| "dependency_byte DepSystemBinary = 7"
| "dependency_byte DepPkgConfig32 = 8"
| "dependency_byte DepUnknown = 255"

definition decode_dependency :: "u8 \<Rightarrow> meta_dependency" where
  "decode_dependency i =
     (if i = 0 then DepPackageName else if i = 1 then DepSharedLibrary else if i = 2 then DepPkgConfig
      else if i = 3 then DepInterpreter else if i = 4 then DepCMake else if i = 5 then DepPython
      else if i = 6 then DepBinary else if i = 7 then DepSystemBinary else if i = 8 then DepPkgConfig32
      else DepUnknown)"

text \<open>The signed integers are the words of their two's complement.\<close>

datatype meta_primitive =
    MetaInt8 u8
  | MetaUint8 u8
  | MetaInt16 u16
  | MetaUint16 u16
  | MetaInt32 u32
  | MetaUint32 u32
  | MetaInt64 u64
  | MetaUint64 u64
  | MetaString "u8 list"
  | MetaDependency meta_dependency "u8 list"
  | MetaProvider meta_dependency "u8 list"
  | MetaUnknown "u8 list"

fun meta_primitive_size :: "meta_primitive \<Rightarrow> nat" where
  "meta_primitive_size (MetaInt8 i) = 1"
| "meta_primitive_size (MetaUint8 i) = 1"
| "meta_primitive_size (MetaInt16 i) = 2"
| "meta_primitive_size (MetaUint16 i) = 2"
| "meta_primitive_size (MetaInt32 i) = 4"
| "meta_primitive_size (MetaUint32 i) = 4"
| "meta_primitive_size (MetaInt64 i) = 8"
| "meta_primitive_size (MetaUint64 i) = 8"
| "meta_primitive_size (MetaString s) = length s + 1"
| "meta_primitive_size (MetaDependency d s) = length s + 2"
| "meta_primitive_size (MetaProvider d s) = length s + 2"
| "meta_primitive_size (MetaUnknown data) = length data"

datatype meta_tag =
    TagName | TagArchitecture | TagVersion | TagSummary | TagDescription | TagHomepage | TagSourceID
  | TagDepends | TagProvides | TagConflicts | TagRelease | TagLicense | TagBuildRelease | TagPackageURI
  | TagPackageHash | TagPackageSize | TagBuildDepends | TagSourceURI | TagSourcePath | TagSourceRef
  | TagUnknown

fun meta_tag_word :: "meta_tag \<Rightarrow> u16" where
  "meta_tag_word TagName = 1"
| "meta_tag_word TagArchitecture = 2"
| "meta_tag_word TagVersion = 3"
| "meta_tag_word TagSummary = 4"
| "meta_tag_word TagDescription = 5"
| "meta_tag_word TagHomepage = 6"
| "meta_tag_word TagSourceID = 7"
| "meta_tag_word TagDepends = 8"
| "meta_tag_word TagProvides = 9"
| "meta_tag_word TagConflicts = 10"
| "meta_tag_word TagRelease = 11"
| "meta_tag_word TagLicense = 12"
| "meta_tag_word TagBuildRelease = 13"
| "meta_tag_word TagPackageURI = 14"
| "meta_tag_word TagPackageHash = 15"
| "meta_tag_word TagPackageSize = 16"
| "meta_tag_word TagBuildDepends = 17"
| "meta_tag_word TagSourceURI = 18"
| "meta_tag_word TagSourcePath = 19"
| "meta_tag_word TagSourceRef = 20"
| "meta_tag_word TagUnknown = 65535"

definition meta_tag_of_word :: "u16 \<Rightarrow> meta_tag" where
  "meta_tag_of_word w =
     (if w = 1 then TagName else if w = 2 then TagArchitecture else if w = 3 then TagVersion
      else if w = 4 then TagSummary else if w = 5 then TagDescription else if w = 6 then TagHomepage
      else if w = 7 then TagSourceID else if w = 8 then TagDepends else if w = 9 then TagProvides
      else if w = 10 then TagConflicts else if w = 11 then TagRelease else if w = 12 then TagLicense
      else if w = 13 then TagBuildRelease else if w = 14 then TagPackageURI else if w = 15 then TagPackageHash
      else if w = 16 then TagPackageSize else if w = 17 then TagBuildDepends else if w = 18 then TagSourceURI
      else if w = 19 then TagSourcePath else if w = 20 then TagSourceRef else TagUnknown)"

record stone_meta_record =
  meta_tag_of :: meta_tag
  meta_primitive_of :: meta_primitive

definition require_length :: "u32 \<Rightarrow> u32 \<Rightarrow> unit record_read" where
  "require_length len expected =
     (if len = expected then rd_return ()
      else rd_fail (InvalidLength ''metadata primitive'' (ucast expected) (ucast len)))"

definition meta_text :: "(nat \<Rightarrow> bool) \<Rightarrow> string \<Rightarrow> u32 \<Rightarrow> u8 list record_read" where
  "meta_text alloc field len =
     rd_bind (read_sized_string alloc field (ucast len)) (\<lambda>s. rd_return (trim_end_nul s))"

definition meta_primitive_decode :: "(nat \<Rightarrow> bool) \<Rightarrow> u8 \<Rightarrow> u32 \<Rightarrow> meta_primitive record_read" where
  "meta_primitive_decode alloc kind len =
     (if kind = 1 then rd_bind (require_length len 1) (\<lambda>_. rd_bind rd_u8 (\<lambda>i. rd_return (MetaInt8 i)))
      else if kind = 2 then rd_bind (require_length len 1) (\<lambda>_. rd_bind rd_u8 (\<lambda>i. rd_return (MetaUint8 i)))
      else if kind = 3 then rd_bind (require_length len 2) (\<lambda>_. rd_bind rd_u16 (\<lambda>i. rd_return (MetaInt16 i)))
      else if kind = 4 then rd_bind (require_length len 2) (\<lambda>_. rd_bind rd_u16 (\<lambda>i. rd_return (MetaUint16 i)))
      else if kind = 5 then rd_bind (require_length len 4) (\<lambda>_. rd_bind rd_u32 (\<lambda>i. rd_return (MetaInt32 i)))
      else if kind = 6 then rd_bind (require_length len 4) (\<lambda>_. rd_bind rd_u32 (\<lambda>i. rd_return (MetaUint32 i)))
      else if kind = 7 then rd_bind (require_length len 8) (\<lambda>_. rd_bind rd_u64 (\<lambda>i. rd_return (MetaInt64 i)))
      else if kind = 8 then rd_bind (require_length len 8) (\<lambda>_. rd_bind rd_u64 (\<lambda>i. rd_return (MetaUint64 i)))
      else if kind = 9 then
        rd_bind (meta_text alloc ''metadata string'' len) (\<lambda>s. rd_return (MetaString s))
      else if kind = 10 \<or> kind = 11 then
        (if len = 0 then rd_fail (LengthTooSmall ''metadata dependency/provider'' 1 0)
         else rd_bind rd_u8 (\<lambda>dep.
              rd_bind (meta_text alloc ''metadata dependency/provider string'' (len - 1)) (\<lambda>s.
              rd_return (if kind = 10 then MetaDependency (decode_dependency dep) s
                         else MetaProvider (decode_dependency dep) s))))
      else rd_bind (read_sized_vec alloc ''unknown metadata primitive'' (ucast len))
             (\<lambda>data. rd_return (MetaUnknown data)))"

definition meta_decode :: "(nat \<Rightarrow> bool) \<Rightarrow> stone_meta_record record_read" where
  "meta_decode alloc =
     rd_bind rd_u32 (\<lambda>len. rd_bind rd_u16 (\<lambda>tag. rd_bind rd_u8 (\<lambda>kind. rd_bind (rd_array 1) (\<lambda>_.
     rd_bind (ensure_additional ''metadata primitive'' (ucast len)) (\<lambda>_.
     rd_bind (meta_primitive_decode alloc kind len) (\<lambda>primitive.
     rd_return \<lparr> meta_tag_of = meta_tag_of_word tag, meta_primitive_of = primitive \<rparr>))))))"

fun meta_kind :: "meta_primitive \<Rightarrow> u8" where
  "meta_kind (MetaInt8 i) = 1"
| "meta_kind (MetaUint8 i) = 2"
| "meta_kind (MetaInt16 i) = 3"
| "meta_kind (MetaUint16 i) = 4"
| "meta_kind (MetaInt32 i) = 5"
| "meta_kind (MetaUint32 i) = 6"
| "meta_kind (MetaInt64 i) = 7"
| "meta_kind (MetaUint64 i) = 8"
| "meta_kind (MetaString s) = 9"
| "meta_kind (MetaDependency d s) = 10"
| "meta_kind (MetaProvider d s) = 11"
| "meta_kind (MetaUnknown data) = 255"

fun meta_primitive_encode :: "meta_primitive \<Rightarrow> u8 list" where
  "meta_primitive_encode (MetaInt8 i) = [i]"
| "meta_primitive_encode (MetaUint8 i) = [i]"
| "meta_primitive_encode (MetaInt16 i) = to_be_bytes i"
| "meta_primitive_encode (MetaUint16 i) = to_be_bytes i"
| "meta_primitive_encode (MetaInt32 i) = to_be_bytes i"
| "meta_primitive_encode (MetaUint32 i) = to_be_bytes i"
| "meta_primitive_encode (MetaInt64 i) = to_be_bytes i"
| "meta_primitive_encode (MetaUint64 i) = to_be_bytes i"
| "meta_primitive_encode (MetaString s) = s @ [0]"
| "meta_primitive_encode (MetaDependency d s) = [dependency_byte d] @ s @ [0]"
| "meta_primitive_encode (MetaProvider d s) = [dependency_byte d] @ s @ [0]"
| "meta_primitive_encode (MetaUnknown data) = data"

definition meta_encode :: "stone_meta_record \<Rightarrow> u8 list" where
  "meta_encode r =
     to_be_bytes (word_of_nat (meta_primitive_size (meta_primitive_of r)) :: u32)
     @ to_be_bytes (meta_tag_word (meta_tag_of r)) @ [meta_kind (meta_primitive_of r)] @ [0]
     @ meta_primitive_encode (meta_primitive_of r)"

definition meta_size :: "stone_meta_record \<Rightarrow> nat" where
  "meta_size r = 4 + 2 + 1 + 1 + meta_primitive_size (meta_primitive_of r)"

section \<open>Layout records\<close>

datatype layout_file_type =
    TypeRegular | TypeSymlink | TypeDirectory | TypeCharacterDevice | TypeBlockDevice | TypeFifo
  | TypeSocket | TypeUnknown

fun layout_file_type_byte :: "layout_file_type \<Rightarrow> u8" where
  "layout_file_type_byte TypeRegular = 1"
| "layout_file_type_byte TypeSymlink = 2"
| "layout_file_type_byte TypeDirectory = 3"
| "layout_file_type_byte TypeCharacterDevice = 4"
| "layout_file_type_byte TypeBlockDevice = 5"
| "layout_file_type_byte TypeFifo = 6"
| "layout_file_type_byte TypeSocket = 7"
| "layout_file_type_byte TypeUnknown = 255"

definition layout_file_type_of_byte :: "u8 \<Rightarrow> layout_file_type" where
  "layout_file_type_of_byte b =
     (if b = 1 then TypeRegular else if b = 2 then TypeSymlink else if b = 3 then TypeDirectory
      else if b = 4 then TypeCharacterDevice else if b = 5 then TypeBlockDevice else if b = 6 then TypeFifo
      else if b = 7 then TypeSocket else TypeUnknown)"

datatype layout_file =
    LayoutRegular u128 "u8 list"
  | LayoutSymlink "u8 list" "u8 list"
  | LayoutDirectory "u8 list"
  | LayoutCharacterDevice "u8 list"
  | LayoutBlockDevice "u8 list"
  | LayoutFifo "u8 list"
  | LayoutSocket "u8 list"
  | LayoutUnknown "u8 list" "u8 list"

fun layout_source :: "layout_file \<Rightarrow> u8 list" where
  "layout_source (LayoutRegular hash t) = to_be_bytes hash"
| "layout_source (LayoutSymlink s t) = s"
| "layout_source (LayoutUnknown s t) = s"
| "layout_source f = []"

fun layout_target :: "layout_file \<Rightarrow> u8 list" where
  "layout_target (LayoutRegular hash t) = t"
| "layout_target (LayoutSymlink s t) = t"
| "layout_target (LayoutDirectory t) = t"
| "layout_target (LayoutCharacterDevice t) = t"
| "layout_target (LayoutBlockDevice t) = t"
| "layout_target (LayoutFifo t) = t"
| "layout_target (LayoutSocket t) = t"
| "layout_target (LayoutUnknown s t) = t"

fun layout_file_type_of :: "layout_file \<Rightarrow> layout_file_type" where
  "layout_file_type_of (LayoutRegular hash t) = TypeRegular"
| "layout_file_type_of (LayoutSymlink s t) = TypeSymlink"
| "layout_file_type_of (LayoutDirectory t) = TypeDirectory"
| "layout_file_type_of (LayoutCharacterDevice t) = TypeCharacterDevice"
| "layout_file_type_of (LayoutBlockDevice t) = TypeBlockDevice"
| "layout_file_type_of (LayoutFifo t) = TypeFifo"
| "layout_file_type_of (LayoutSocket t) = TypeSocket"
| "layout_file_type_of (LayoutUnknown s t) = TypeUnknown"

record stone_layout_record =
  lay_uid :: u32
  lay_gid :: u32
  lay_mode :: u32
  lay_tag :: u32
  lay_file :: layout_file

fun empty_source_field :: "layout_file_type \<Rightarrow> string" where
  "empty_source_field TypeDirectory = ''directory layout source''"
| "empty_source_field TypeCharacterDevice = ''character-device layout source''"
| "empty_source_field TypeBlockDevice = ''block-device layout source''"
| "empty_source_field TypeFifo = ''FIFO layout source''"
| "empty_source_field TypeSocket = ''socket layout source''"
| "empty_source_field t = ''layout source''"

definition require_empty_source :: "u16 \<Rightarrow> layout_file_type \<Rightarrow> unit record_read" where
  "require_empty_source source_length t =
     (if source_length = 0 then rd_return ()
      else rd_fail (InvalidLength (empty_source_field t) 0 (ucast source_length)))"

definition layout_text :: "(nat \<Rightarrow> bool) \<Rightarrow> string \<Rightarrow> u16 \<Rightarrow> u8 list record_read" where
  "layout_text alloc field len =
     rd_bind (read_sized_string alloc field (ucast len)) (\<lambda>s. rd_return (trim_end_nul s))"

definition layout_entry_decode :: "(nat \<Rightarrow> bool) \<Rightarrow> layout_file_type \<Rightarrow> u16 \<Rightarrow> u16 \<Rightarrow> layout_file record_read" where
  "layout_entry_decode alloc t source_length target_length =
     (case t of
        TypeRegular \<Rightarrow>
          (if source_length \<noteq> 16 then rd_fail (InvalidLength ''regular layout digest'' 16 (ucast source_length))
           else rd_bind (read_sized_vec alloc ''regular layout digest'' (ucast source_length)) (\<lambda>source.
                if length source \<noteq> 16
                then rd_fail (InvalidLength ''regular layout digest'' 16 (word_of_nat (length source)))
                else rd_bind (layout_text alloc ''layout target'' target_length) (\<lambda>target.
                     rd_return (LayoutRegular (from_be_bytes source) target))))
      | TypeSymlink \<Rightarrow>
          rd_bind (layout_text alloc ''symlink source'' source_length) (\<lambda>source.
          rd_bind (layout_text alloc ''layout target'' target_length) (\<lambda>target.
          rd_return (LayoutSymlink source target)))
      | TypeDirectory \<Rightarrow>
          rd_bind (require_empty_source source_length t) (\<lambda>_.
          rd_bind (layout_text alloc ''layout target'' target_length) (\<lambda>target.
          rd_return (LayoutDirectory target)))
      | TypeCharacterDevice \<Rightarrow>
          rd_bind (require_empty_source source_length t) (\<lambda>_.
          rd_bind (layout_text alloc ''layout target'' target_length) (\<lambda>target.
          rd_return (LayoutCharacterDevice target)))
      | TypeBlockDevice \<Rightarrow>
          rd_bind (require_empty_source source_length t) (\<lambda>_.
          rd_bind (layout_text alloc ''layout target'' target_length) (\<lambda>target.
          rd_return (LayoutBlockDevice target)))
      | TypeFifo \<Rightarrow>
          rd_bind (require_empty_source source_length t) (\<lambda>_.
          rd_bind (layout_text alloc ''layout target'' target_length) (\<lambda>target.
          rd_return (LayoutFifo target)))
      | TypeSocket \<Rightarrow>
          rd_bind (require_empty_source source_length t) (\<lambda>_.
          rd_bind (layout_text alloc ''layout target'' target_length) (\<lambda>target.
          rd_return (LayoutSocket target)))
      | TypeUnknown \<Rightarrow>
          rd_bind (layout_text alloc ''unknown layout source'' source_length) (\<lambda>source.
          rd_bind (layout_text alloc ''layout target'' target_length) (\<lambda>target.
          rd_return (LayoutUnknown source target))))"

definition layout_decode :: "(nat \<Rightarrow> bool) \<Rightarrow> stone_layout_record record_read" where
  "layout_decode alloc =
     rd_bind rd_u32 (\<lambda>uid. rd_bind rd_u32 (\<lambda>gid. rd_bind rd_u32 (\<lambda>mode. rd_bind rd_u32 (\<lambda>tag.
     rd_bind rd_u16 (\<lambda>source_length. rd_bind rd_u16 (\<lambda>target_length.
     rd_bind rd_u8 (\<lambda>type_byte. rd_bind (rd_array 11) (\<lambda>_.
     rd_bind (rd_option (checked_add (ucast source_length :: u64) (ucast target_length))
                (LengthOverflow ''layout source and target'')) (\<lambda>variable_length.
     rd_bind (ensure_additional ''layout source and target'' variable_length) (\<lambda>_.
     rd_bind (layout_entry_decode alloc (layout_file_type_of_byte type_byte) source_length target_length)
       (\<lambda>entry.
     rd_return \<lparr> lay_uid = uid, lay_gid = gid, lay_mode = mode, lay_tag = tag, lay_file = entry \<rparr>)))))))))))"

definition layout_encode :: "stone_layout_record \<Rightarrow> u8 list" where
  "layout_encode r =
     to_be_bytes (lay_uid r) @ to_be_bytes (lay_gid r) @ to_be_bytes (lay_mode r) @ to_be_bytes (lay_tag r)
     @ to_be_bytes (word_of_nat (length (layout_source (lay_file r))) :: u16)
     @ to_be_bytes (word_of_nat (length (layout_target (lay_file r))) :: u16)
     @ [layout_file_type_byte (layout_file_type_of (lay_file r))] @ replicate 11 0
     @ layout_source (lay_file r) @ layout_target (lay_file r)"

definition layout_size :: "stone_layout_record \<Rightarrow> nat" where
  "layout_size r =
     4 + 4 + 4 + 4 + 2 + 2 + 1 + 11 + length (layout_source (lay_file r)) + length (layout_target (lay_file r))"

section \<open>Records are read back\<close>

definition index_storable :: "stone_index_record \<Rightarrow> bool" where
  "index_storable r \<longleftrightarrow> True"

definition attribute_storable :: "stone_attribute_record \<Rightarrow> bool" where
  "attribute_storable r \<longleftrightarrow> length (attr_key r) + length (attr_value r) < 2 ^ 64"

definition meta_storable :: "stone_meta_record \<Rightarrow> bool" where
  "meta_storable r \<longleftrightarrow>
     meta_primitive_size (meta_primitive_of r) < 2 ^ 32
     \<and> (case meta_primitive_of r of
          MetaString s \<Rightarrow> clean_text s
        | MetaDependency d s \<Rightarrow> clean_text s
        | MetaProvider d s \<Rightarrow> clean_text s
        | _ \<Rightarrow> True)"

definition layout_storable :: "stone_layout_record \<Rightarrow> bool" where
  "layout_storable r \<longleftrightarrow>
     length (layout_source (lay_file r)) < 2 ^ 16 \<and> length (layout_target (lay_file r)) < 2 ^ 16
     \<and> clean_text (layout_target (lay_file r))
     \<and> (case lay_file r of
          LayoutSymlink s t \<Rightarrow> clean_text s
        | LayoutUnknown s t \<Rightarrow> clean_text s
        | _ \<Rightarrow> True)"

lemma bounded_option [bounded_intros]: "bounded_read (rd_option v e)"
  by (cases v) (simp_all add: rd_option_def bounded_intros)

text \<open>One rule per field reader: the field at the front of the input, then the rest of the program.\<close>

named_theorems field_intros \<open>a field at the front of the input\<close>

lemma unat_ucast_wire [simp]:
  "unat (ucast (w32 :: u32) :: u64) = unat w32" "unat (ucast (w16 :: u16) :: u64) = unat w16"
  using unsigned_less [of w32, where 'a = nat] unsigned_less [of w16, where 'a = nat]
  by (simp_all add: unsigned_ucast_eq take_bit_nat_eq_self_iff)

lemma reads_done: "x = y \<Longrightarrow> reads (rd_return x) room [] y"
  by (simp add: reads_return)

lemma reads_append_Nil: "reads m room (bs @ []) x \<Longrightarrow> reads m room bs x"
  by simp

lemma field_ints [field_intros]:
  "1 \<le> room \<Longrightarrow> reads (f b) (room - 1) cs y \<Longrightarrow> reads (rd_bind rd_u8 f) room (b # cs) y"
  "2 \<le> room \<Longrightarrow> reads (f16 x16) (room - 2) cs y \<Longrightarrow> reads (rd_bind rd_u16 f16) room (to_be_bytes x16 @ cs) y"
  "4 \<le> room \<Longrightarrow> reads (f32 x32) (room - 4) cs y \<Longrightarrow> reads (rd_bind rd_u32 f32) room (to_be_bytes x32 @ cs) y"
  "8 \<le> room \<Longrightarrow> reads (f64 x64) (room - 8) cs y \<Longrightarrow> reads (rd_bind rd_u64 f64) room (to_be_bytes x64 @ cs) y"
  "16 \<le> room \<Longrightarrow> reads (f128 x128) (room - 16) cs y \<Longrightarrow> reads (rd_bind rd_u128 f128) room (to_be_bytes x128 @ cs) y"
  using reads_bind [OF reads_ints(1), of room f b cs y] reads_bind [OF reads_ints(2), of room f16 x16 cs y]
    reads_bind [OF reads_ints(3), of room f32 x32 cs y] reads_bind [OF reads_ints(4), of room f64 x64 cs y]
    reads_bind [OF reads_ints(5), of room f128 x128 cs y] by simp_all

lemma field_array:
  "length bs = n \<Longrightarrow> n \<le> room \<Longrightarrow> reads (f bs) (room - n) cs y \<Longrightarrow> reads (rd_bind (rd_array n) f) room (bs @ cs) y"
  by (rule reads_bind [OF reads_array]) simp_all

lemma field_pad [field_intros]:
  "1 \<le> room \<Longrightarrow> reads (f [b]) (room - 1) cs y \<Longrightarrow> reads (rd_bind (rd_array 1) f) room (b # cs) y"
  using field_array [of "[b]" 1] by simp

lemma field_option: "v = Some x \<Longrightarrow> reads (f x) room cs y \<Longrightarrow> reads (rd_bind (rd_option v e) f) room cs y"
  by (simp add: rd_option_def rd_bind_def rd_return_def)

lemma field_ensure [field_intros]:
  "unat len \<le> room \<Longrightarrow> reads (f ()) room cs y \<Longrightarrow> reads (rd_bind (ensure_additional field len) f) room cs y"
  by (rule reads_bind_nil [OF reads_ensure_additional])

lemma field_vec [field_intros]:
  "alloc (length bs) \<Longrightarrow> unat len = length bs \<Longrightarrow> length bs \<le> room \<Longrightarrow> reads (f bs) (room - length bs) cs y
     \<Longrightarrow> reads (rd_bind (read_sized_vec alloc field len) f) room (bs @ cs) y"
  by (rule reads_bind [OF reads_sized_vec])

lemma payload_header_decode_encode:
  assumes "length (ph_checksum h) = 8" and "ph_num_records h < 2 ^ 32"
  shows "payload_header_decode (payload_header_encode h @ rest) = Ok (h, rest)
         \<and> length (payload_header_encode h) = STONE_PAYLOAD_HEADER_SIZE"
proof -
  have one: "read_array (Suc 0) (b # bs) = Ok ([b], bs)" for b bs by (simp add: read_array_Ok_iff)
  have kind: "payload_kind_of_byte (payload_kind_byte k) = k" for k
    by (cases k) (simp_all add: payload_kind_of_byte_def)
  have comp: "compression_of_byte (compression_byte c) = c" for c
    by (cases c) (simp_all add: compression_of_byte_def)
  show ?thesis
    using assms by (simp add: payload_header_decode_def payload_header_encode_def one kind comp
        unat_word_of_nat STONE_PAYLOAD_HEADER_SIZE_def)
qed

interpretation index: record_codec index_encode "\<lambda>_. index_decode" index_size index_storable
proof
  fix r :: stone_index_record and room
  assume room: "index_size r \<le> room"
  show "reads index_decode room (index_encode r) r"
    unfolding index_decode_def index_encode_def
    by (rule reads_append_Nil, unfold append_assoc append_Nil append_Cons, intro field_intros)
       (use room in \<open>simp_all add: index_size_def reads_done\<close>)
qed (simp_all add: index_encode_def index_size_def index_decode_def bounded_intros alloc_intros)

lemma attribute_reads:
  assumes st: "attribute_storable r" and room: "attribute_size r \<le> room"
    and alloc: "\<And>n. n \<le> attribute_size r \<Longrightarrow> alloc n"
  shows "reads (attribute_decode alloc) room (attribute_encode r) r"
proof -
  let ?k = "word_of_nat (length (attr_key r)) :: u64" and ?v = "word_of_nat (length (attr_value r)) :: u64"
  have lens: "unat ?k = length (attr_key r)" "unat ?v = length (attr_value r)"
    using st by (simp_all add: attribute_storable_def unat_of_nat)
  have sum: "checked_add ?k ?v = Some (?k + ?v)"
    using st lens by (simp add: checked_add_Some_iff attribute_storable_def)
  have sum_nat: "unat (?k + ?v) = length (attr_key r) + length (attr_value r)"
    using checked_add_unat [OF sum] lens by simp
  show ?thesis
    unfolding attribute_decode_def attribute_encode_def
    by (rule reads_append_Nil, unfold append_assoc, intro field_intros field_option [OF sum] alloc)
       (use room lens sum_nat in \<open>simp_all add: attribute_size_def reads_done\<close>)
qed

interpretation attributes: record_codec attribute_encode attribute_decode attribute_size attribute_storable
proof
  show "bounded_read (attribute_decode alloc)" for alloc
    unfolding attribute_decode_def by (intro bounded_intros)
  show "alloc_local attribute_decode"
    unfolding attribute_decode_def [abs_def] by (intro alloc_intros bounded_intros)
  show "length (attribute_encode r) = attribute_size r" for r
    by (simp add: attribute_encode_def attribute_size_def)
qed (rule attribute_reads)

section \<open>Metadata records are read back\<close>

lemma reads_map_last:
  "reads m room bs x \<Longrightarrow> g x = y \<Longrightarrow> reads (rd_bind m (\<lambda>x. rd_return (g x))) room bs y"
  by (rule reads_bind_last, assumption) (simp add: reads_return)

lemma reads_int_map:
  "1 \<le> room \<Longrightarrow> reads (rd_bind rd_u8 (\<lambda>i. rd_return (g i))) room [b] (g b)"
  "2 \<le> room \<Longrightarrow> reads (rd_bind rd_u16 (\<lambda>i. rd_return (g16 i))) room (to_be_bytes x16) (g16 x16)"
  "4 \<le> room \<Longrightarrow> reads (rd_bind rd_u32 (\<lambda>i. rd_return (g32 i))) room (to_be_bytes x32) (g32 x32)"
  "8 \<le> room \<Longrightarrow> reads (rd_bind rd_u64 (\<lambda>i. rd_return (g64 i))) room (to_be_bytes x64) (g64 x64)"
  by (rule reads_map_last [OF _ refl], simp add: reads_ints)+

lemma reads_meta_text:
  assumes "clean_text s" and "alloc (length s + 1)" and "unat len = length s + 1" and "length s + 1 \<le> room"
  shows "reads (meta_text alloc field len) room (s @ [0]) s"
proof -
  have "utf8_valid (s @ [0])" and trim: "trim_end_nul (s @ [0]) = s"
    using assms(1) utf8_valid_nul trim_end_nul_id by (auto simp: clean_text_def)
  then show ?thesis
    unfolding meta_text_def using assms by (intro reads_map_last [OF reads_sized_string]) simp_all
qed

lemma field_meta_text [field_intros]:
  assumes "clean_text s" and "alloc (length s + 1)" and "unat len = length s + 1" and "length s + 1 \<le> room"
    and "reads (f s) (room - (length s + 1)) cs y"
  shows "reads (rd_bind (meta_text alloc field len) f) room (s @ 0 # cs) y"
  using reads_bind [OF reads_meta_text [of s alloc len room field, OF assms(1-4)], of f cs y] assms(5) by simp

lemma dependency_byte_inverse [simp]: "decode_dependency (dependency_byte d) = d"
  by (cases d) (simp_all add: decode_dependency_def)

lemma meta_tag_inverse [simp]: "meta_tag_of_word (meta_tag_word t) = t"
  by (cases t) (simp_all add: meta_tag_of_word_def)

lemma meta_encode_length: "length (meta_primitive_encode p) = meta_primitive_size p"
  by (cases p) simp_all

lemma require_length_bind [simp]: "rd_bind (require_length len len) f = f ()"
  by (simp add: require_length_def rd_bind_def rd_return_def)

text \<open>A dependency or provider: the kind byte, the text and its terminator.\<close>

lemma tagged_text_length:
  assumes "length s + 2 < 2 ^ 32"
  defines "len \<equiv> word_of_nat (length s + 2) :: u32"
  shows "len \<noteq> 0" and "unat (len - 1) = length s + 1"
proof -
  have "unat len = length s + 2" unfolding len_def using assms(1) by (intro unat_word_of_nat) simp
  then show "len \<noteq> 0" by auto
  have "len - 1 = word_of_nat (length s + 1)" by (simp add: len_def)
  then show "unat (len - 1) = length s + 1"
    using assms(1) unat_word_of_nat [of "length s + 1", where 'a = 32] by simp
qed

lemma tagged_text_reads:
  fixes mk :: "meta_dependency \<Rightarrow> u8 list \<Rightarrow> meta_primitive"
  assumes "length s + 2 < 2 ^ 32" and "length s + 2 \<le> room" and "alloc (length s + 1)" and "clean_text s"
  shows "reads (rd_bind rd_u8 (\<lambda>dep. rd_bind (meta_text alloc field (word_of_nat (length s + 2) - 1)) (\<lambda>s.
            rd_return (mk (decode_dependency dep) s)))) room (dependency_byte d # s @ [0]) (mk d s)"
  using assms tagged_text_length(2) [OF assms(1)] by (intro field_intros) (simp_all add: reads_return)

lemma meta_primitive_reads:
  assumes "meta_primitive_size p < 2 ^ 32" and "meta_primitive_size p \<le> room"
    and alloc: "\<And>n. n \<le> meta_primitive_size p \<Longrightarrow> alloc n"
    and clean: "\<And>d s. p = MetaString s \<or> p = MetaDependency d s \<or> p = MetaProvider d s \<Longrightarrow> clean_text s"
  shows "reads (meta_primitive_decode alloc (meta_kind p) (word_of_nat (meta_primitive_size p))) room
           (meta_primitive_encode p) p"
proof (cases p)
  case (MetaString s)
  then have "reads (meta_text alloc ''metadata string'' (word_of_nat (length s + 1))) room (s @ [0]) s"
    using assms unat_word_of_nat [of "length s + 1", where 'a = 32] by (intro reads_meta_text) simp_all
  then show ?thesis
    using MetaString by (simp add: meta_primitive_decode_def reads_map_last)
next
  case (MetaDependency d s)
  have sized: "length s + 2 < 2 ^ 32" "length s + 2 \<le> room" "alloc (length s + 1)" "clean_text s"
    using assms MetaDependency by simp_all
  show ?thesis
    unfolding meta_primitive_decode_def MetaDependency meta_kind.simps meta_primitive_size.simps meta_primitive_encode.simps
    using tagged_text_reads [where alloc = alloc and mk = MetaDependency and d = d, OF sized]
      tagged_text_length(1) [OF sized(1)] by simp
next
  case (MetaProvider d s)
  have sized: "length s + 2 < 2 ^ 32" "length s + 2 \<le> room" "alloc (length s + 1)" "clean_text s"
    using assms MetaProvider by simp_all
  show ?thesis
    unfolding meta_primitive_decode_def MetaProvider meta_kind.simps meta_primitive_size.simps meta_primitive_encode.simps
    using tagged_text_reads [where alloc = alloc and mk = MetaProvider and d = d, OF sized]
      tagged_text_length(1) [OF sized(1)] by simp
next
  case (MetaUnknown data)
  then have "reads (read_sized_vec alloc ''unknown metadata primitive'' (ucast (word_of_nat (length data) :: u32)))
      room data data"
    using assms by (intro reads_sized_vec) (simp_all add: unat_of_nat)
  then show ?thesis
    using MetaUnknown by (simp add: meta_primitive_decode_def reads_map_last)
qed (use assms(2) in \<open>simp_all add: meta_primitive_decode_def reads_int_map\<close>)

lemma meta_reads:
  assumes st: "meta_storable r" and room: "meta_size r \<le> room" and alloc: "\<And>n. n \<le> meta_size r \<Longrightarrow> alloc n"
  shows "reads (meta_decode alloc) room (meta_encode r) r"
proof -
  let ?p = "meta_primitive_of r"
  let ?len = "word_of_nat (meta_primitive_size ?p) :: u32"
  have size: "meta_primitive_size ?p < 2 ^ 32" using st by (simp add: meta_storable_def)
  then have len: "unat ?len = meta_primitive_size ?p" by (intro unat_word_of_nat) simp
  have "reads (meta_primitive_decode alloc (meta_kind ?p) ?len) (room - 4 - 2 - 1 - 1) (meta_primitive_encode ?p) ?p"
    using size room alloc st
    by (intro meta_primitive_reads) (auto simp: meta_size_def meta_storable_def)
  then have "reads (rd_bind (meta_primitive_decode alloc (meta_kind ?p) ?len)
      (\<lambda>p. rd_return \<lparr> meta_tag_of = meta_tag_of_word (meta_tag_word (meta_tag_of r)), meta_primitive_of = p \<rparr>))
      (room - 4 - 2 - 1 - 1) (meta_primitive_encode ?p) r"
    by (rule reads_map_last) simp
  then show ?thesis
    unfolding meta_decode_def meta_encode_def append_Cons append_Nil
    by (intro field_intros) (use room len in \<open>simp_all add: meta_size_def\<close>)
qed

lemma bounded_meta [bounded_intros]:
  "bounded_read (meta_text alloc field len)" "bounded_read (require_length len n)"
  unfolding meta_text_def require_length_def by (intro bounded_intros)+

lemma alloc_meta_text [alloc_intros]: "alloc_local (\<lambda>a. meta_text a field len)"
  unfolding meta_text_def by (intro alloc_intros bounded_intros)

lemma meta_primitive_decode_bounds:
  "bounded_read (meta_primitive_decode alloc kind len)" "alloc_local (\<lambda>a. meta_primitive_decode a kind len)"
  unfolding meta_primitive_decode_def by (intro bounded_intros alloc_intros)+

interpretation meta: record_codec meta_encode meta_decode meta_size meta_storable
proof
  show "bounded_read (meta_decode alloc)" for alloc
    unfolding meta_decode_def by (intro bounded_intros meta_primitive_decode_bounds)
  show "alloc_local meta_decode"
    unfolding meta_decode_def [abs_def] by (intro alloc_intros bounded_intros meta_primitive_decode_bounds)
  show "length (meta_encode r) = meta_size r" for r
    by (simp add: meta_encode_def meta_size_def meta_encode_length)
qed (rule meta_reads)

section \<open>Layout records are read back\<close>

lemma file_type_byte_inverse [simp]: "layout_file_type_of_byte (layout_file_type_byte t) = t"
  by (cases t) (simp_all add: layout_file_type_of_byte_def)

lemma reads_layout_text:
  assumes "clean_text s" and "alloc (length s)" and "unat len = length s" and "length s \<le> room"
  shows "reads (layout_text alloc field len) room s s"
proof -
  have "utf8_valid s" and trim: "trim_end_nul s = s"
    using assms(1) trim_end_nul_id by (auto simp: clean_text_def)
  then show ?thesis
    unfolding layout_text_def using assms by (intro reads_map_last [OF reads_sized_string]) simp_all
qed

lemma reads_layout_target:
  assumes "clean_text s" and "alloc (length s)" and "unat len = length s" and "length s \<le> room" and "g s = y"
  shows "reads (rd_bind (layout_text alloc field len) (\<lambda>t. rd_return (g t))) room s y"
  using assms by (intro reads_map_last [OF reads_layout_text]) simp_all

lemma reads_layout_source:
  assumes "clean_text s" and "alloc (length s)" and "unat len = length s" and "length s \<le> room"
    and "reads (f s) (room - length s) cs y"
  shows "reads (rd_bind (layout_text alloc field len) f) room (s @ cs) y"
  using reads_bind [OF reads_layout_text [of s alloc len room field, OF assms(1-4)], of f cs y] assms(5) by simp

lemma reads_empty_source:
  "reads (f ()) room cs y \<Longrightarrow> reads (rd_bind (require_empty_source 0 t) f) room cs y"
  by (simp add: require_empty_source_def rd_bind_def rd_return_def)

lemma layout_entry_reads:
  fixes f :: layout_file
  defines "s \<equiv> layout_source f" and "t \<equiv> layout_target f"
  assumes lens: "length s < 2 ^ 16" "length t < 2 ^ 16" and room: "length s + length t \<le> room"
    and alloc: "\<And>n. n \<le> length s + length t \<Longrightarrow> alloc n" and t: "clean_text t"
    and clean: "\<And>t. f = LayoutSymlink s t \<or> f = LayoutUnknown s t \<Longrightarrow> clean_text s"
  shows "reads (layout_entry_decode alloc (layout_file_type_of f) (word_of_nat (length s)) (word_of_nat (length t)))
           room (s @ t) f"
proof -
  have un: "unat (word_of_nat (length s) :: u16) = length s" "unat (word_of_nat (length t) :: u16) = length t"
    using lens by (simp_all add: unat_word_of_nat)
  have a: "alloc (length s)" "alloc (length t)" using alloc by simp_all
  have target: "reads (rd_bind (layout_text alloc field (word_of_nat (length t))) (\<lambda>t. rd_return (g t))) room' t (g t)"
    if "length t \<le> room'" for field room' and g :: "u8 list \<Rightarrow> layout_file"
    using t a(2) un(2) that by (intro reads_layout_target) simp_all
  show ?thesis
  proof (cases f)
    case (LayoutRegular h t')
    then have "s = to_be_bytes h" "t = t'" by (simp_all add: s_def t_def)
    then show ?thesis
      unfolding layout_entry_decode_def LayoutRegular layout_file_type_of.simps layout_file_type.case
      using room a un LayoutRegular target [where g = "LayoutRegular h"]
      by (auto intro!: field_vec)
  next
    case (LayoutSymlink s' t')
    then have "f = LayoutSymlink s t" by (simp add: s_def t_def)
    then show ?thesis
      unfolding layout_entry_decode_def using room a un target clean
      by (auto intro!: reads_layout_source)
  next
    case (LayoutUnknown s' t')
    then have "f = LayoutUnknown s t" by (simp add: s_def t_def)
    then show ?thesis
      unfolding layout_entry_decode_def using room a un target clean
      by (auto intro!: reads_layout_source)
  qed (use room target in \<open>simp_all add: s_def t_def layout_entry_decode_def reads_empty_source\<close>)
qed

lemma layout_reads:
  assumes st: "layout_storable r" and room: "layout_size r \<le> room" and alloc: "\<And>n. n \<le> layout_size r \<Longrightarrow> alloc n"
  shows "reads (layout_decode alloc) room (layout_encode r) r"
proof -
  let ?s = "layout_source (lay_file r)" and ?t = "layout_target (lay_file r)"
  let ?sl = "word_of_nat (length ?s) :: u16" and ?tl = "word_of_nat (length ?t) :: u16"
  have lens: "unat ?sl = length ?s" "unat ?tl = length ?t" "length ?s < 2 ^ 16" "length ?t < 2 ^ 16"
    using st by (simp_all add: layout_storable_def unat_word_of_nat)
  have sum: "checked_add (ucast ?sl :: u64) (ucast ?tl) = Some (ucast ?sl + ucast ?tl)"
    using lens by (simp add: checked_add_Some_iff)
  have sum_nat: "unat (ucast ?sl + ucast ?tl :: u64) = length ?s + length ?t"
    using checked_add_unat [OF sum] lens by simp
  have clean: "clean_text ?s" if "lay_file r = LayoutSymlink s t \<or> lay_file r = LayoutUnknown s t" for s t
    using st that by (auto simp: layout_storable_def)
  have "reads (layout_entry_decode alloc (layout_file_type_of (lay_file r)) ?sl ?tl)
      (room - 4 - 4 - 4 - 4 - 2 - 2 - 1 - 11) (?s @ ?t) (lay_file r)"
    using lens room st alloc
    by (intro layout_entry_reads clean) (auto simp: layout_storable_def layout_size_def)
  then have "reads (rd_bind (layout_entry_decode alloc (layout_file_type_of (lay_file r)) ?sl ?tl)
      (\<lambda>f. rd_return \<lparr> lay_uid = lay_uid r, lay_gid = lay_gid r, lay_mode = lay_mode r, lay_tag = lay_tag r,
                      lay_file = f \<rparr>))
      (room - 4 - 4 - 4 - 4 - 2 - 2 - 1 - 11) (?s @ ?t) r"
    by (rule reads_map_last) simp
  then show ?thesis
    unfolding layout_decode_def layout_encode_def append_Cons append_Nil
    by (intro field_intros field_array field_option [OF sum])
       (use room lens sum_nat in \<open>simp_all add: layout_size_def\<close>)
qed

lemma bounded_layout [bounded_intros]:
  "bounded_read (layout_text alloc field len)" "bounded_read (require_empty_source len t)"
  unfolding layout_text_def require_empty_source_def by (intro bounded_intros)+

lemma alloc_layout_text [alloc_intros]: "alloc_local (\<lambda>a. layout_text a field len)"
  unfolding layout_text_def by (intro alloc_intros bounded_intros)

lemma layout_entry_decode_bounds:
  "bounded_read (layout_entry_decode alloc t source_length target_length)"
  "alloc_local (\<lambda>a. layout_entry_decode a t source_length target_length)"
  unfolding layout_entry_decode_def
  by (cases t; simp only: layout_file_type.case; intro bounded_intros alloc_intros)+

interpretation layout: record_codec layout_encode layout_decode layout_size layout_storable
proof
  show "bounded_read (layout_decode alloc)" for alloc
    unfolding layout_decode_def by (intro bounded_intros layout_entry_decode_bounds)
  show "alloc_local layout_decode"
    unfolding layout_decode_def [abs_def] by (intro alloc_intros bounded_intros layout_entry_decode_bounds)
  show "length (layout_encode r) = layout_size r" for r
    by (simp add: layout_encode_def layout_size_def)
qed (rule layout_reads)

end
