(* ===== verification/Stone_Write.thy ===== *)
theory Stone_Write
  imports Stone_Records
begin

text \<open>
  Writing a stone archive (\<open>stone/src/write.rs\<close>, \<open>write/zstd.rs\<close>, \<open>write/digest.rs\<close>). The zstd encoder
  and the XXH3 digests are parameters, collected in \<open>stone_write_env\<close>: \<open>wr_zstd pledged bytes\<close> is the
  frame the encoder makes of all the bytes it was fed between two resets, \<open>wr_read_size\<close> the most it is
  fed in one call. The writers below an archive are vectors and files that accept everything.
\<close>

record stone_write_env =
  wr_read_size :: nat
  wr_zstd :: "u64 option \<Rightarrow> u8 list \<Rightarrow> (u8 list, io_error) result"
  wr_xxh3 :: "u8 list \<Rightarrow> u64"
  wr_xxh3_128 :: "u8 list \<Rightarrow> u128"

section \<open>The zstd writer\<close>

text \<open>The bytes its encoder was fed, and the number of plain bytes it counted.\<close>

record zstd_writer =
  zw_plain_bytes :: nat
  zw_fed :: "u8 list"

definition zstd_writer_new :: "u8 list \<Rightarrow> zstd_writer" where
  "zstd_writer_new fed = \<lparr> zw_plain_bytes = 0, zw_fed = fed \<rparr>"

definition zstd_write :: "nat \<Rightarrow> u8 list \<Rightarrow> zstd_writer \<Rightarrow> nat \<times> zstd_writer" where
  "zstd_write read_size buf w =
     (let input = take (min read_size (length buf)) buf
      in (length input, w\<lparr> zw_plain_bytes := zw_plain_bytes w + length buf, zw_fed := zw_fed w @ input \<rparr>))"

text \<open>\<open>write_all\<close> of the standard library over it.\<close>

function zstd_write_all :: "nat \<Rightarrow> u8 list \<Rightarrow> zstd_writer \<Rightarrow> (zstd_writer, io_error) result" where
  "zstd_write_all read_size buf w =
     (if buf = [] then Ok w
      else
        (case zstd_write read_size buf w of
           (n, w') \<Rightarrow> if n = 0 then Err WriteZero else zstd_write_all read_size (drop n buf) w'))"
  by pat_completeness auto
termination by (relation "measure (\<lambda>(r, buf, w). length buf)") auto

declare zstd_write_all.simps [simp del]

fun zstd_write_chunks :: "nat \<Rightarrow> u8 list list \<Rightarrow> zstd_writer \<Rightarrow> (zstd_writer, io_error) result" where
  "zstd_write_chunks read_size [] w = Ok w"
| "zstd_write_chunks read_size (c # cs) w =
     res_bind (zstd_write_all read_size c w) (zstd_write_chunks read_size cs)"

section \<open>The digest writer over the zstd writer\<close>

record digest_writer =
  dw_bytes :: nat
  dw_hashed :: "u8 list"
  dw_inner :: zstd_writer

definition digest_write :: "nat \<Rightarrow> u8 list \<Rightarrow> digest_writer \<Rightarrow> nat \<times> digest_writer" where
  "digest_write read_size buf w =
     (case zstd_write read_size buf (dw_inner w) of
        (n, inner) \<Rightarrow>
          (n, w\<lparr> dw_bytes := dw_bytes w + length buf, dw_hashed := dw_hashed w @ buf, dw_inner := inner \<rparr>))"

function digest_write_all :: "nat \<Rightarrow> u8 list \<Rightarrow> digest_writer \<Rightarrow> (digest_writer, io_error) result" where
  "digest_write_all read_size buf w =
     (if buf = [] then Ok w
      else
        (case digest_write read_size buf w of
           (n, w') \<Rightarrow> if n = 0 then Err WriteZero else digest_write_all read_size (drop n buf) w'))"
  by pat_completeness auto
termination by (relation "measure (\<lambda>(r, buf, w). length buf)") auto

declare digest_write_all.simps [simp del]

fun digest_copy :: "nat \<Rightarrow> u8 list list \<Rightarrow> digest_writer \<Rightarrow> (digest_writer, io_error) result" where
  "digest_copy read_size [] w = Ok w"
| "digest_copy read_size (c # cs) w = res_bind (digest_write_all read_size c w) (digest_copy read_size cs)"

section \<open>Payloads\<close>

datatype inner_payload =
    InnerMeta "stone_meta_record list"
  | InnerAttributes "stone_attribute_record list"
  | InnerLayout "stone_layout_record list"
  | InnerIndex "stone_index_record list"

fun pledged_size :: "inner_payload \<Rightarrow> nat" where
  "pledged_size (InnerMeta records) = records_total_size meta_size records"
| "pledged_size (InnerAttributes records) = records_total_size attribute_size records"
| "pledged_size (InnerLayout records) = records_total_size layout_size records"
| "pledged_size (InnerIndex records) = records_total_size index_size records"

fun payload_num_records :: "inner_payload \<Rightarrow> nat" where
  "payload_num_records (InnerMeta records) = length records"
| "payload_num_records (InnerAttributes records) = length records"
| "payload_num_records (InnerLayout records) = length records"
| "payload_num_records (InnerIndex records) = length records"

fun payload_kind :: "inner_payload \<Rightarrow> stone_payload_kind" where
  "payload_kind (InnerMeta records) = KindMeta"
| "payload_kind (InnerAttributes records) = KindAttributes"
| "payload_kind (InnerLayout records) = KindLayout"
| "payload_kind (InnerIndex records) = KindIndex"

text \<open>What the record encoders pass to \<open>write_all\<close>, call by call.\<close>

fun meta_primitive_writes :: "meta_primitive \<Rightarrow> u8 list list" where
  "meta_primitive_writes (MetaString s) = [s, [0]]"
| "meta_primitive_writes (MetaDependency d s) = [[dependency_byte d], s, [0]]"
| "meta_primitive_writes (MetaProvider d s) = [[dependency_byte d], s, [0]]"
| "meta_primitive_writes p = [meta_primitive_encode p]"

definition meta_writes :: "stone_meta_record \<Rightarrow> u8 list list" where
  "meta_writes r =
     [to_be_bytes (word_of_nat (meta_primitive_size (meta_primitive_of r)) :: u32),
      to_be_bytes (meta_tag_word (meta_tag_of r)), [meta_kind (meta_primitive_of r)], [0]]
     @ meta_primitive_writes (meta_primitive_of r)"

definition attribute_writes :: "stone_attribute_record \<Rightarrow> u8 list list" where
  "attribute_writes r =
     [to_be_bytes (word_of_nat (length (attr_key r)) :: u64),
      to_be_bytes (word_of_nat (length (attr_value r)) :: u64), attr_key r, attr_value r]"

definition layout_writes :: "stone_layout_record \<Rightarrow> u8 list list" where
  "layout_writes r =
     [to_be_bytes (lay_uid r), to_be_bytes (lay_gid r), to_be_bytes (lay_mode r), to_be_bytes (lay_tag r),
      to_be_bytes (word_of_nat (length (layout_source (lay_file r))) :: u16),
      to_be_bytes (word_of_nat (length (layout_target (lay_file r))) :: u16),
      [layout_file_type_byte (layout_file_type_of (lay_file r))], replicate 11 0,
      layout_source (lay_file r), layout_target (lay_file r)]"

definition index_writes :: "stone_index_record \<Rightarrow> u8 list list" where
  "index_writes r = [to_be_bytes (idx_start r), to_be_bytes (idx_end r), to_be_bytes (idx_digest r)]"

fun payload_writes :: "inner_payload \<Rightarrow> u8 list list" where
  "payload_writes (InnerMeta records) = concat (map meta_writes records)"
| "payload_writes (InnerAttributes records) = concat (map attribute_writes records)"
| "payload_writes (InnerLayout records) = concat (map layout_writes records)"
| "payload_writes (InnerIndex records) = concat (map index_writes records)"

record encoded_payload =
  ep_header :: stone_payload_header
  ep_content :: "u8 list"

definition encode_payload :: "stone_write_env \<Rightarrow> inner_payload \<Rightarrow> (encoded_payload, io_error) result" where
  "encode_payload env payload =
     res_bind (zstd_write_chunks (wr_read_size env) (payload_writes payload) (zstd_writer_new [])) (\<lambda>w.
     res_bind (wr_zstd env (Some (word_of_nat (pledged_size payload))) (zw_fed w)) (\<lambda>content.
     Ok \<lparr> ep_header =
            \<lparr> ph_stored_size = word_of_nat (length content),
              ph_plain_size = word_of_nat (zw_plain_bytes w),
              ph_checksum = to_be_bytes (wr_xxh3 env content),
              ph_num_records = payload_num_records payload,
              ph_version = 1,
              ph_kind = payload_kind payload,
              ph_compression = CompressionZstd \<rparr>,
          ep_content = content \<rparr>))"

section \<open>Archives\<close>

text \<open>
  The content writer: the bytes its encoder was fed so far stand for the buffer of compressed bytes,
  which is complete, with its size and its digest, once the frame is finished.
\<close>

record stone_content_writer =
  cw_fed :: "u8 list"
  cw_plain_size :: u64
  cw_indices :: "stone_index_record list"
  cw_pledged :: "u64 option"

record stone_writer =
  sw_file_type :: stone_header_v1_file_type
  sw_payloads :: "encoded_payload list"
  sw_content :: "stone_content_writer option"

definition stone_writer_new :: "stone_header_v1_file_type \<Rightarrow> stone_writer" where
  "stone_writer_new ft = \<lparr> sw_file_type = ft, sw_payloads = [], sw_content = None \<rparr>"

datatype stone_write_payload =
    WriteMeta "stone_meta_record list"
  | WriteAttributes "stone_attribute_record list"
  | WriteLayout "stone_layout_record list"

fun inner_of_write :: "stone_write_payload \<Rightarrow> inner_payload" where
  "inner_of_write (WriteMeta records) = InnerMeta records"
| "inner_of_write (WriteAttributes records) = InnerAttributes records"
| "inner_of_write (WriteLayout records) = InnerLayout records"

definition add_payload ::
    "stone_write_env \<Rightarrow> stone_writer \<Rightarrow> stone_write_payload \<Rightarrow> (stone_writer, io_error) result" where
  "add_payload env w payload =
     res_bind (encode_payload env (inner_of_write payload)) (\<lambda>p. Ok (w\<lparr> sw_payloads := sw_payloads w @ [p] \<rparr>))"

definition with_content :: "stone_writer \<Rightarrow> u64 option \<Rightarrow> stone_writer" where
  "with_content w pledged =
     w\<lparr> sw_content := Some \<lparr> cw_fed = [], cw_plain_size = 0, cw_indices = [], cw_pledged = pledged \<rparr> \<rparr>"

text \<open>The content comes as the chunks \<open>io::copy\<close> hands on.\<close>

definition add_content ::
    "stone_write_env \<Rightarrow> stone_content_writer \<Rightarrow> u8 list list \<Rightarrow> (stone_content_writer, io_error) result" where
  "add_content env cw content =
     (let start = cw_plain_size cw in
      res_bind (digest_copy (wr_read_size env) content
                  \<lparr> dw_bytes = 0, dw_hashed = [], dw_inner = zstd_writer_new (cw_fed cw) \<rparr>) (\<lambda>w.
      let plain_size = cw_plain_size cw + word_of_nat (dw_bytes w)
      in Ok (cw\<lparr> cw_fed := zw_fed (dw_inner w), cw_plain_size := plain_size,
                cw_indices := cw_indices cw @ [\<lparr> idx_start = start, idx_end = plain_size,
                                                idx_digest = wr_xxh3_128 env (dw_hashed w) \<rparr>] \<rparr>)))"

text \<open>
  The free function \<open>finalize\<close>: the archive written for the payloads and the finished content, the
  latter as its buffer of compressed bytes, its plain size and its checksum. The payload count is
  16-bit arithmetic.
\<close>

definition content_header :: "u8 list \<Rightarrow> u64 \<Rightarrow> u64 \<Rightarrow> stone_payload_header" where
  "content_header buffer plain_size checksum =
     \<lparr> ph_stored_size = word_of_nat (length buffer), ph_plain_size = plain_size,
       ph_checksum = to_be_bytes checksum, ph_num_records = 0, ph_version = 1, ph_kind = KindContent,
       ph_compression = CompressionZstd \<rparr>"

definition write_encoded :: "encoded_payload \<Rightarrow> u8 list" where
  "write_encoded p = payload_header_encode (ep_header p) @ ep_content p"

definition finalize ::
    "stone_header_v1_file_type \<Rightarrow> encoded_payload list \<Rightarrow> (u8 list \<times> u64 \<times> u64) option \<Rightarrow> u8 list" where
  "finalize ft encoded content =
     stone_header_encode (StoneHeaderV1
       \<lparr> num_payloads = word_of_nat (length encoded) + (if content \<noteq> None then 1 else 0), file_type = ft \<rparr>)
     @ concat (map write_encoded encoded)
     @ (case content of
          None \<Rightarrow> []
        | Some (buffer, plain_size, checksum) \<Rightarrow>
            payload_header_encode (content_header buffer plain_size checksum) @ buffer)"

definition finalize_writer :: "stone_write_env \<Rightarrow> stone_writer \<Rightarrow> (u8 list, io_error) result" where
  "finalize_writer env w =
     (case sw_content w of
        None \<Rightarrow> Ok (finalize (sw_file_type w) (sw_payloads w) None)
      | Some cw \<Rightarrow>
          res_bind (wr_zstd env (cw_pledged cw) (cw_fed cw)) (\<lambda>buffer.
          res_bind (encode_payload env (InnerIndex (cw_indices cw))) (\<lambda>p.
          Ok (finalize (sw_file_type w) (sw_payloads w @ [p])
                (Some (buffer, cw_plain_size cw, wr_xxh3 env buffer))))))"

section \<open>What is fed and what is counted\<close>

lemma zstd_write_all_Nil [simp]: "zstd_write_all read_size [] w = Ok w"
  by (simp add: zstd_write_all.simps)

lemma zstd_write_all_Cons:
  assumes "0 < read_size" and "buf \<noteq> []"
  shows "zstd_write_all read_size buf w =
     zstd_write_all read_size (drop read_size buf)
       (w\<lparr> zw_plain_bytes := zw_plain_bytes w + length buf, zw_fed := zw_fed w @ take read_size buf \<rparr>)"
  using assms by (simp add: zstd_write_all.simps [of read_size buf w] zstd_write_def Let_def min_def)

text \<open>The encoder is fed every byte, once; the count is right exactly where one call took the whole buffer.\<close>

lemma zstd_write_all_fed:
  assumes "0 < read_size"
  shows "\<exists>w'. zstd_write_all read_size buf w = Ok w' \<and> zw_fed w' = zw_fed w @ buf
     \<and> zw_plain_bytes w + length buf \<le> zw_plain_bytes w'
     \<and> (zw_plain_bytes w' = zw_plain_bytes w + length buf \<longleftrightarrow> length buf \<le> read_size)"
proof (induction "length buf" arbitrary: buf w rule: less_induct)
  case less
  show ?case
  proof (cases "buf = []")
    case False
    let ?w = "w\<lparr> zw_plain_bytes := zw_plain_bytes w + length buf, zw_fed := zw_fed w @ take read_size buf \<rparr>"
    have "length (drop read_size buf) < length buf" using False assms by simp
    from less [OF this, of ?w] obtain w' where w':
      "zstd_write_all read_size (drop read_size buf) ?w = Ok w'"
      "zw_fed w' = zw_fed ?w @ drop read_size buf"
      "zw_plain_bytes ?w + length (drop read_size buf) \<le> zw_plain_bytes w'"
      "zw_plain_bytes w' = zw_plain_bytes ?w + length (drop read_size buf) \<longleftrightarrow> length (drop read_size buf) \<le> read_size"
      by blast
    then show ?thesis using zstd_write_all_Cons [OF assms False] by auto
  qed simp
qed

lemma zstd_write_chunks_fed:
  assumes "0 < read_size"
  shows "\<exists>w'. zstd_write_chunks read_size cs w = Ok w' \<and> zw_fed w' = zw_fed w @ concat cs
     \<and> zw_plain_bytes w + length (concat cs) \<le> zw_plain_bytes w'
     \<and> (zw_plain_bytes w' = zw_plain_bytes w + length (concat cs) \<longleftrightarrow> (\<forall>c \<in> set cs. length c \<le> read_size))"
proof (induction cs arbitrary: w)
  case (Cons c cs)
  obtain w1 where 1: "zstd_write_all read_size c w = Ok w1" "zw_fed w1 = zw_fed w @ c"
    "zw_plain_bytes w + length c \<le> zw_plain_bytes w1"
    "zw_plain_bytes w1 = zw_plain_bytes w + length c \<longleftrightarrow> length c \<le> read_size"
    using zstd_write_all_fed [OF assms] by blast
  obtain w2 where 2: "zstd_write_chunks read_size cs w1 = Ok w2" "zw_fed w2 = zw_fed w1 @ concat cs"
    "zw_plain_bytes w1 + length (concat cs) \<le> zw_plain_bytes w2"
    "zw_plain_bytes w2 = zw_plain_bytes w1 + length (concat cs) \<longleftrightarrow> (\<forall>c \<in> set cs. length c \<le> read_size)"
    using Cons.IH by blast
  have "zw_plain_bytes w2 = zw_plain_bytes w + (length c + length (concat cs))
      \<longleftrightarrow> zw_plain_bytes w1 = zw_plain_bytes w + length c \<and> zw_plain_bytes w2 = zw_plain_bytes w1 + length (concat cs)"
    using 1(3) 2(3) by linarith
  then show ?case using 1 2 by auto
qed simp

lemma digest_write_all_small:
  assumes "length buf \<le> read_size"
  shows "digest_write_all read_size buf w = Ok (w\<lparr> dw_bytes := dw_bytes w + length buf, dw_hashed := dw_hashed w @ buf,
     dw_inner := (dw_inner w)\<lparr> zw_plain_bytes := zw_plain_bytes (dw_inner w) + length buf,
                               zw_fed := zw_fed (dw_inner w) @ buf \<rparr> \<rparr>)"
  using assms
  by (cases buf) (simp_all add: digest_write_all.simps digest_write_def zstd_write_def Let_def min_def)

lemma digest_copy_small:
  "\<forall>c \<in> set cs. length c \<le> read_size \<Longrightarrow>
     \<exists>w'. digest_copy read_size cs w = Ok w' \<and> dw_bytes w' = dw_bytes w + length (concat cs)
       \<and> dw_hashed w' = dw_hashed w @ concat cs \<and> zw_fed (dw_inner w') = zw_fed (dw_inner w) @ concat cs"
proof (induction cs arbitrary: w)
  case (Cons c cs)
  then have "length c \<le> read_size" by simp
  note c = digest_write_all_small [OF this, of w]
  show ?case using Cons.IH [of "w\<lparr> dw_bytes := dw_bytes w + length c, dw_hashed := dw_hashed w @ c,
     dw_inner := (dw_inner w)\<lparr> zw_plain_bytes := zw_plain_bytes (dw_inner w) + length c,
                               zw_fed := zw_fed (dw_inner w) @ c \<rparr> \<rparr>"] Cons.prems c by auto
qed simp

section \<open>What an encoded payload holds\<close>

fun payload_encode :: "inner_payload \<Rightarrow> u8 list" where
  "payload_encode (InnerMeta records) = encode_records meta_encode records"
| "payload_encode (InnerAttributes records) = encode_records attribute_encode records"
| "payload_encode (InnerLayout records) = encode_records layout_encode records"
| "payload_encode (InnerIndex records) = encode_records index_encode records"

lemma concat_primitive_writes: "concat (meta_primitive_writes p) = meta_primitive_encode p"
  by (cases p) simp_all

lemma concat_concat_map: "concat (concat (map f xs)) = concat (map (\<lambda>x. concat (f x)) xs)"
  by (induction xs) simp_all

lemma concat_writes:
  "concat (meta_writes m) = meta_encode m" "concat (attribute_writes a) = attribute_encode a"
  "concat (layout_writes l) = layout_encode l" "concat (index_writes i) = index_encode i"
  by (simp_all add: meta_writes_def meta_encode_def attribute_writes_def attribute_encode_def layout_writes_def
      layout_encode_def index_writes_def index_encode_def concat_primitive_writes)

lemma concat_payload_writes: "concat (payload_writes p) = payload_encode p"
  by (cases p) (simp_all add: concat_concat_map concat_writes encode_records_def)

lemma pledged_size_exact: "pledged_size p = length (payload_encode p)"
  by (cases p) (simp_all add: meta.encode_records_size attributes.encode_records_size layout.encode_records_size
      index.encode_records_size)

end
