(* ===== verification/Stone_Read.thy ===== *)
theory Stone_Read
  imports Stone_Records
begin

text \<open>
  Reading an untrusted stone archive (\<open>stone/src/read/mod.rs\<close>, \<open>content_reader.rs\<close>): resource ceilings,
  the admission of payloads, the decoding of their bodies and the iteration over them. The archive is a
  \<open>Cursor\<close> over bytes that do not change; a position is an index into them. The zstd decoder, the XXH3
  digest and the allocator are parameters, collected in the record \<open>stone_env\<close>.
\<close>

section \<open>The code the reader calls\<close>

text \<open>
  A stream of plain bytes: what it yields, and the error it ends in where it does not end in EOF.
  \<open>env_unzstd window_log stored\<close> opens a zstd decoder over the stored bytes.
\<close>

type_synonym plain_stream = "u8 list \<times> io_error option"

record stone_env =
  env_alloc :: "nat \<Rightarrow> bool"
  env_unzstd :: "u32 \<Rightarrow> u8 list \<Rightarrow> (plain_stream, io_error) result"
  env_xxh3 :: "u8 list \<Rightarrow> u64"

section \<open>Limits\<close>

record stone_decode_limits =
  max_payloads :: u64
  max_records_per_payload :: u64
  max_record_bytes :: u64
  max_stored_payload_bytes :: u64
  max_plain_payload_bytes :: u64
  max_total_records :: u64
  max_total_record_bytes :: u64
  max_total_stored_bytes :: u64
  max_total_plain_bytes :: u64
  max_zstd_window_log :: u32

definition MIB :: u64 where
  "MIB = 1024 * 1024"

definition GIB :: u64 where
  "GIB = 1024 * MIB"

definition default_limits :: stone_decode_limits where
  "default_limits =
     \<lparr> max_payloads = 1024, max_records_per_payload = 4000000, max_record_bytes = 64 * MIB,
       max_stored_payload_bytes = 8 * GIB, max_plain_payload_bytes = 32 * GIB, max_total_records = 8000000,
       max_total_record_bytes = 48 * GIB, max_total_stored_bytes = 16 * GIB, max_total_plain_bytes = 64 * GIB,
       max_zstd_window_log = 30 \<rparr>"

datatype (plugins del: transfer "quickcheck") stone_read_error =
    DecoderPoisoned
  | MultipleContent
  | ReadUnknownCompression
  | UnsupportedPayloadVersion u16
  | InvalidLimits string
  | InvalidLimitRelationship string u64 u64
  | ReadLimitExceeded string u64 u64
  | ArithmeticOverflow string
  | PayloadBodyOutOfBounds u64 u64 u64
  | StoredPayloadTruncated u64 u64
  | PlainPayloadTruncated u64 u64
  | PlainPayloadTooLarge u64
  | PlainPayloadUnconsumed u64 u64
  | PlainPayloadSizeMismatch u64 u64
  | ImpossibleRecordDeclaration u64 u64 u64
  | InvalidContentReference string
  | InvalidIndexRange u64 u64
  | IndexOutsideContent u64 u64
  | TrailingOrChangedArchive u64 u64 u64
  | HeaderDecode stone_header_decode_error
  | PayloadDecode stone_payload_decode_error
  | PayloadChecksum u64 u64
  | ReadIo io_error

definition enforce_limit :: "string \<Rightarrow> u64 \<Rightarrow> u64 \<Rightarrow> (unit, stone_read_error) result" where
  "enforce_limit resource limit actual =
     (if actual > limit then Err (ReadLimitExceeded resource limit actual) else Ok ())"

definition checked_total :: "string \<Rightarrow> u64 \<Rightarrow> u64 \<Rightarrow> u64 \<Rightarrow> (u64, stone_read_error) result" where
  "checked_total resource current additional limit =
     res_bind (ok_or (checked_add current additional) (ArithmeticOverflow resource)) (\<lambda>actual.
     res_then (enforce_limit resource limit actual) (Ok actual))"

definition limit_relationship :: "string \<Rightarrow> u64 \<Rightarrow> u64 \<Rightarrow> (unit, stone_read_error) result" where
  "limit_relationship resource per_payload aggregate =
     (if per_payload > aggregate then Err (InvalidLimitRelationship resource per_payload aggregate) else Ok ())"

definition validate_limits :: "stone_decode_limits \<Rightarrow> (unit, stone_read_error) result" where
  "validate_limits limits =
     (if \<not> (10 \<le> max_zstd_window_log limits \<and> max_zstd_window_log limits \<le> 31)
      then Err (InvalidLimits ''max_zstd_window_log must be between 10 and 31'')
      else
        res_then (limit_relationship ''stored payload bytes''
          (max_stored_payload_bytes limits) (max_total_stored_bytes limits))
       (res_then (limit_relationship ''plain payload bytes''
          (max_plain_payload_bytes limits) (max_total_plain_bytes limits))
       (res_then (limit_relationship ''record bytes'' (max_record_bytes limits) (max_total_record_bytes limits))
       (limit_relationship ''record count'' (max_records_per_payload limits) (max_total_records limits)))))"

definition max_archive_bytes :: "stone_decode_limits \<Rightarrow> (u64, stone_read_error) result" where
  "max_archive_bytes limits =
     res_bind (ok_or (checked_mul (max_payloads limits) (word_of_nat STONE_PAYLOAD_HEADER_SIZE))
                (ArithmeticOverflow ''maximum payload-header bytes'')) (\<lambda>payload_headers.
     ok_or (Option.bind (checked_add (word_of_nat STONE_HEADER_SIZE) payload_headers)
              (\<lambda>bytes. checked_add bytes (max_total_stored_bytes limits)))
       (ArithmeticOverflow ''maximum archive bytes''))"

section \<open>Admission\<close>

record decode_state =
  ds_records :: u64
  ds_record_bytes :: u64
  ds_stored_bytes :: u64
  ds_plain_bytes :: u64
  ds_content_seen :: bool
  ds_content_plain_size :: "u64 option"
  ds_max_index_end :: u64

definition decode_state_default :: decode_state where
  "decode_state_default =
     \<lparr> ds_records = 0, ds_record_bytes = 0, ds_stored_bytes = 0, ds_plain_bytes = 0, ds_content_seen = False,
       ds_content_plain_size = None, ds_max_index_end = 0 \<rparr>"

definition is_record_payload :: "stone_payload_kind \<Rightarrow> bool" where
  "is_record_payload kind \<longleftrightarrow> kind \<in> {KindMeta, KindLayout, KindIndex, KindAttributes}"

fun minimum_per_record :: "stone_payload_kind \<Rightarrow> u64 option" where
  "minimum_per_record KindMeta = Some 8"
| "minimum_per_record KindLayout = Some 32"
| "minimum_per_record KindIndex = Some 32"
| "minimum_per_record KindAttributes = Some 16"
| "minimum_per_record KindContent = None"
| "minimum_per_record KindUnknown = None"

definition validate_minimum_record_bytes :: "stone_payload_header \<Rightarrow> (unit, stone_read_error) result" where
  "validate_minimum_record_bytes header =
     (case minimum_per_record (ph_kind header) of
        None \<Rightarrow> Ok ()
      | Some per_record \<Rightarrow>
          res_bind (ok_or (checked_mul (word_of_nat (ph_num_records header)) per_record)
                     (ArithmeticOverflow ''minimum record bytes'')) (\<lambda>minimum.
          if minimum > ph_plain_size header
          then Err (ImpossibleRecordDeclaration (word_of_nat (ph_num_records header)) minimum (ph_plain_size header))
          else Ok ()))"

text \<open>The steps of \<open>DecodeState::admit\<close>: totals, record payloads, the content payload.\<close>

definition admit_totals ::
    "decode_state \<Rightarrow> stone_payload_header \<Rightarrow> stone_decode_limits \<Rightarrow> (decode_state, stone_read_error) result" where
  "admit_totals state header limits =
     res_bind (checked_total ''aggregate record count'' (ds_records state) (word_of_nat (ph_num_records header))
                 (max_total_records limits)) (\<lambda>records.
     res_bind (checked_total ''aggregate stored payload bytes'' (ds_stored_bytes state) (ph_stored_size header)
                 (max_total_stored_bytes limits)) (\<lambda>stored.
     res_bind (checked_total ''aggregate plain payload bytes'' (ds_plain_bytes state) (ph_plain_size header)
                 (max_total_plain_bytes limits)) (\<lambda>plain.
     Ok (state\<lparr> ds_records := records, ds_stored_bytes := stored, ds_plain_bytes := plain \<rparr>))))"

definition admit_records ::
    "decode_state \<Rightarrow> stone_payload_header \<Rightarrow> stone_decode_limits \<Rightarrow> (decode_state, stone_read_error) result" where
  "admit_records state header limits =
     (if is_record_payload (ph_kind header)
      then res_bind (checked_total ''aggregate record bytes'' (ds_record_bytes state) (ph_plain_size header)
                       (max_total_record_bytes limits)) (\<lambda>record_bytes.
           res_then (validate_minimum_record_bytes header) (Ok (state\<lparr> ds_record_bytes := record_bytes \<rparr>)))
      else Ok state)"

definition admit_content :: "decode_state \<Rightarrow> stone_payload_header \<Rightarrow> (decode_state, stone_read_error) result" where
  "admit_content state header =
     (if ph_kind header = KindContent
      then (if ds_content_seen state then Err MultipleContent
            else if ds_max_index_end state > ph_plain_size header
            then Err (IndexOutsideContent (ds_max_index_end state) (ph_plain_size header))
            else Ok (state\<lparr> ds_content_seen := True, ds_content_plain_size := Some (ph_plain_size header) \<rparr>))
      else Ok state)"

definition admit ::
    "decode_state \<Rightarrow> stone_payload_header \<Rightarrow> stone_decode_limits \<Rightarrow> (decode_state, stone_read_error) result" where
  "admit state header limits =
     (if ph_kind header \<noteq> KindUnknown \<and> ph_version header \<noteq> 1
      then Err (UnsupportedPayloadVersion (ph_version header))
      else
        res_then (enforce_limit ''records per payload'' (max_records_per_payload limits)
                    (word_of_nat (ph_num_records header)))
       (res_then (enforce_limit ''stored payload bytes'' (max_stored_payload_bytes limits) (ph_stored_size header))
       (res_then (enforce_limit ''plain payload bytes'' (max_plain_payload_bytes limits) (ph_plain_size header))
       (res_bind (admit_totals state header limits) (\<lambda>state.
        res_bind (admit_records state header limits) (\<lambda>state.
        res_bind (admit_content state header) (\<lambda>state.
        if ph_compression header = CompressionNone \<and> ph_stored_size header \<noteq> ph_plain_size header
        then Err (PlainPayloadSizeMismatch (ph_stored_size header) (ph_plain_size header))
        else Ok state)))))))"

fun admit_indices ::
    "decode_state \<Rightarrow> stone_index_record list \<Rightarrow> (decode_state, stone_read_error) result" where
  "admit_indices state [] = Ok state"
| "admit_indices state (r # records) =
     (if idx_end r < idx_start r then Err (InvalidIndexRange (idx_start r) (idx_end r))
      else
        (let state = state\<lparr> ds_max_index_end := max (ds_max_index_end state) (idx_end r) \<rparr>
         in case ds_content_plain_size state of
              Some content_size \<Rightarrow>
                (if idx_end r > content_size then Err (IndexOutsideContent (idx_end r) content_size)
                 else admit_indices state records)
            | None \<Rightarrow> admit_indices state records))"

section \<open>Plain streams of a declared size\<close>

definition payload_reader ::
    "stone_env \<Rightarrow> u8 list \<Rightarrow> stone_payload_compression \<Rightarrow> u32 \<Rightarrow> (plain_stream, stone_read_error) result" where
  "payload_reader env stored compression window_log =
     (case compression of
        CompressionNone \<Rightarrow> Ok (stored, None)
      | CompressionZstd \<Rightarrow> map_err ReadIo (env_unzstd env window_log stored)
      | CompressionUnknown \<Rightarrow> Err ReadUnknownCompression)"

definition stream_read :: "nat \<Rightarrow> plain_stream \<Rightarrow> (u8 list, io_error) result \<times> plain_stream" where
  "stream_read n s =
     (case s of
        ([], None) \<Rightarrow> (Ok [], s)
      | ([], Some e) \<Rightarrow> (Err e, s)
      | (bytes, end') \<Rightarrow> (Ok (take n bytes), (drop n bytes, end')))"

record exact_plain_reader =
  epr_inner :: plain_stream
  epr_declared :: u64
  epr_emitted :: u64
  epr_too_large :: bool
  epr_too_short :: bool

definition exact_plain_reader_new :: "plain_stream \<Rightarrow> u64 \<Rightarrow> exact_plain_reader" where
  "exact_plain_reader_new inner declared =
     \<lparr> epr_inner = inner, epr_declared = declared, epr_emitted = 0, epr_too_large = False, epr_too_short = False \<rparr>"

definition epr_read :: "nat \<Rightarrow> exact_plain_reader \<Rightarrow> (u8 list, io_error) result \<times> exact_plain_reader" where
  "epr_read n r =
     (if n = 0 then (Ok [], r)
      else if epr_emitted r = epr_declared r then
        (case stream_read 1 (epr_inner r) of
           (Err e, inner) \<Rightarrow> (Err e, r\<lparr> epr_inner := inner \<rparr>)
         | (Ok bytes, inner) \<Rightarrow>
             (if bytes = [] then (Ok [], r\<lparr> epr_inner := inner \<rparr>)
              else (Err InvalidData, r\<lparr> epr_inner := inner, epr_too_large := True \<rparr>)))
      else
        (let allowed = min (unat (epr_declared r - epr_emitted r)) n
         in case stream_read allowed (epr_inner r) of
              (Err e, inner) \<Rightarrow> (Err e, r\<lparr> epr_inner := inner \<rparr>)
            | (Ok bytes, inner) \<Rightarrow>
                (if bytes = [] then (Err UnexpectedEof, r\<lparr> epr_inner := inner, epr_too_short := True \<rparr>)
                 else case checked_add (epr_emitted r) (word_of_nat (length bytes)) of
                        None \<Rightarrow> (Err InvalidData, r\<lparr> epr_inner := inner \<rparr>)
                      | Some emitted \<Rightarrow> (Ok bytes, r\<lparr> epr_inner := inner, epr_emitted := emitted \<rparr>))))"

definition size_error :: "exact_plain_reader \<Rightarrow> stone_read_error option" where
  "size_error r =
     (if epr_too_large r then Some (PlainPayloadTooLarge (epr_declared r))
      else if epr_too_short r then Some (PlainPayloadTruncated (epr_declared r) (epr_emitted r))
      else None)"

definition finish_exact :: "exact_plain_reader \<Rightarrow> (unit, stone_read_error) result" where
  "finish_exact r =
     (case epr_read 1 r of
        (Ok [], r') \<Rightarrow> Ok ()
      | (Ok _, r') \<Rightarrow> Err (PlainPayloadUnconsumed (epr_emitted r) (epr_declared r))
      | (Err e, r') \<Rightarrow> (case size_error r' of Some err \<Rightarrow> Err err | None \<Rightarrow> Err (ReadIo e)))"

lemma stream_read_shrinks:
  assumes "stream_read n s = (Ok bytes, s')" and "bytes \<noteq> []"
  shows "length (fst s') < length (fst s)"
  using assms
  by (cases n) (auto simp: stream_read_def less_Suc_eq_le split: prod.splits list.splits option.splits)

lemma epr_read_shrinks:
  assumes "epr_read n r = (Ok bytes, r')" and "bytes \<noteq> []"
  shows "length (fst (epr_inner r')) < length (fst (epr_inner r))"
  using assms stream_read_shrinks [of _ "epr_inner r" bytes]
  by (fastforce simp: epr_read_def Let_def split: if_splits prod.splits result.splits option.splits)

text \<open>
  \<open>io::copy\<close> from the reader to a writer that accepts everything, by the 8 KiB buffer of the standard
  library: what it wrote, how it ended, and the reader it left.
\<close>

function epr_copy :: "exact_plain_reader \<Rightarrow> u8 list \<times> (unit, io_error) result \<times> exact_plain_reader" where
  "epr_copy r =
     (case epr_read 8192 r of
        (Err e, r') \<Rightarrow> ([], Err e, r')
      | (Ok bytes, r') \<Rightarrow>
          (if bytes = [] then ([], Ok (), r')
           else (let (written, res, r'') = epr_copy r' in (bytes @ written, res, r''))))"
  by pat_completeness auto
termination
  by (relation "measure (\<lambda>r. length (fst (epr_inner r)))") (auto dest: epr_read_shrinks [OF sym])

declare epr_copy.simps [simp del]

section \<open>Payload bodies\<close>

definition validate_checksum_value :: "u64 \<Rightarrow> stone_payload_header \<Rightarrow> (unit, stone_read_error) result" where
  "validate_checksum_value got header =
     (let expected = from_be_bytes (ph_checksum header)
      in if got \<noteq> expected then Err (PayloadChecksum got expected) else Ok ())"

definition stored_region :: "u8 list \<Rightarrow> nat \<Rightarrow> stone_payload_header \<Rightarrow> u8 list" where
  "stored_region archive pos header = take (unat (ph_stored_size header)) (drop pos archive)"

text \<open>
  What is left once the plain bytes are read: the rest of the stored bytes is drained through the
  digest, so the digest is that of the whole stored region.
\<close>

definition drain_raw :: "stone_env \<Rightarrow> u8 list \<Rightarrow> stone_payload_header \<Rightarrow> (unit, stone_read_error) result" where
  "drain_raw env region header =
     (let remaining = ph_stored_size header - word_of_nat (length region)
      in if remaining \<noteq> 0
         then Err (StoredPayloadTruncated (ph_stored_size header) (ph_stored_size header - remaining))
         else validate_checksum_value (env_xxh3 env region) header)"

definition epr_after :: "plain_stream \<Rightarrow> u64 \<Rightarrow> nat \<Rightarrow> exact_plain_reader" where
  "epr_after s declared n =
     (exact_plain_reader_new (drop n (fst s), snd s) declared)\<lparr> epr_emitted := word_of_nat n \<rparr>"

text \<open>
  Decoding records over an \<open>ExactPlainReader\<close>. As long as the record decoder asks for bytes the reader
  has and has declared, it sees exactly these bytes. The first request beyond them is one read of the
  reader at its end, which sets its size flags and gives the decoder its error.
\<close>

definition decode_over_plain ::
    "(nat \<Rightarrow> bool) \<Rightarrow> 'r record_read \<Rightarrow> nat \<Rightarrow> u64 \<Rightarrow> plain_stream \<Rightarrow> u64
     \<Rightarrow> ('r list, stone_payload_decode_error) result \<times> exact_plain_reader" where
  "decode_over_plain alloc decode num_records max_bytes s declared =
     (let available = take (unat declared) (fst s)
      in case decode_records alloc decode available num_records max_bytes of
           Ok (records, rest) \<Rightarrow> (Ok records, epr_after s declared (length available - length rest))
         | Err e \<Rightarrow>
             (if e = PayloadIo UnexpectedEof
              then (case epr_read 1 (epr_after s declared (length available)) of
                      (Err io, plain) \<Rightarrow> (Err (PayloadIo io), plain)
                    | (Ok _, plain) \<Rightarrow> (Err e, plain))
              else (Err e, exact_plain_reader_new s declared)))"

definition decode_record_body ::
    "stone_env \<Rightarrow> stone_decode_limits \<Rightarrow> stone_payload_header \<Rightarrow> 'r record_read \<Rightarrow> u8 list
     \<Rightarrow> ('r list, stone_read_error) result" where
  "decode_record_body env limits header decode region =
     res_bind (payload_reader env region (ph_compression header) (max_zstd_window_log limits)) (\<lambda>framed.
     case decode_over_plain (env_alloc env) decode (ph_num_records header) (max_record_bytes limits)
            framed (ph_plain_size header) of
       (records, plain) \<Rightarrow>
         (case size_error plain of
            Some e \<Rightarrow> Err e
          | None \<Rightarrow>
              res_bind (map_err PayloadDecode records) (\<lambda>records.
              res_then (finish_exact plain)
             (res_then (drain_raw env region header)
             (Ok records)))))"

definition read_raw_payload ::
    "stone_env \<Rightarrow> stone_payload_header \<Rightarrow> u8 list \<Rightarrow> (unit, stone_read_error) result" where
  "read_raw_payload env header region =
     (let actual = word_of_nat (length region)
      in if actual \<noteq> ph_stored_size header then Err (StoredPayloadTruncated (ph_stored_size header) actual)
         else validate_checksum_value (env_xxh3 env region) header)"

section \<open>Payloads\<close>

record 'b stone_payload =
  pl_header :: stone_payload_header
  pl_body :: 'b

datatype (plugins del: transfer "quickcheck") stone_decoded_payload =
    MetaPayload "stone_meta_record list stone_payload"
  | AttributesPayload "stone_attribute_record list stone_payload"
  | LayoutPayload "stone_layout_record list stone_payload"
  | IndexPayload "stone_index_record list stone_payload"
  | ContentPayload "u64 stone_payload"
  | UnknownPayload "unit stone_payload"
  | UnknownCompressionPayload "unit stone_payload"

fun payload_header :: "stone_decoded_payload \<Rightarrow> stone_payload_header" where
  "payload_header (MetaPayload p) = pl_header p"
| "payload_header (AttributesPayload p) = pl_header p"
| "payload_header (LayoutPayload p) = pl_header p"
| "payload_header (IndexPayload p) = pl_header p"
| "payload_header (ContentPayload p) = pl_header p"
| "payload_header (UnknownPayload p) = pl_header p"
| "payload_header (UnknownCompressionPayload p) = pl_header p"

definition decode_body ::
    "stone_env \<Rightarrow> stone_decode_limits \<Rightarrow> decode_state \<Rightarrow> stone_payload_header \<Rightarrow> u64 \<Rightarrow> u8 list
     \<Rightarrow> (stone_decoded_payload \<times> decode_state, stone_read_error) result" where
  "decode_body env limits state header body_offset region =
     (if ph_compression header = CompressionUnknown
      then res_then (read_raw_payload env header region)
             (Ok (UnknownCompressionPayload \<lparr> pl_header = header, pl_body = () \<rparr>, state))
      else
        (case ph_kind header of
           KindMeta \<Rightarrow>
             res_bind (decode_record_body env limits header (meta_decode (env_alloc env)) region) (\<lambda>records.
             Ok (MetaPayload \<lparr> pl_header = header, pl_body = records \<rparr>, state))
         | KindLayout \<Rightarrow>
             res_bind (decode_record_body env limits header (layout_decode (env_alloc env)) region) (\<lambda>records.
             Ok (LayoutPayload \<lparr> pl_header = header, pl_body = records \<rparr>, state))
         | KindIndex \<Rightarrow>
             res_bind (decode_record_body env limits header index_decode region) (\<lambda>records.
             res_bind (admit_indices state records) (\<lambda>state.
             Ok (IndexPayload \<lparr> pl_header = header, pl_body = records \<rparr>, state)))
         | KindAttributes \<Rightarrow>
             res_bind (decode_record_body env limits header (attribute_decode (env_alloc env)) region) (\<lambda>records.
             Ok (AttributesPayload \<lparr> pl_header = header, pl_body = records \<rparr>, state))
         | KindContent \<Rightarrow>
             res_then (read_raw_payload env header region)
               (Ok (ContentPayload \<lparr> pl_header = header, pl_body = body_offset \<rparr>, state))
         | KindUnknown \<Rightarrow>
             res_then (read_raw_payload env header region)
               (Ok (UnknownPayload \<lparr> pl_header = header, pl_body = () \<rparr>, state))))"

text \<open>
  \<open>StoneDecodedPayload::decode\<close> at a position of the archive: the payload, the position after it and
  the new state. The state an error leaves behind is not returned: no caller decodes on after an error.
\<close>

definition decode_payload ::
    "stone_env \<Rightarrow> stone_decode_limits \<Rightarrow> u8 list \<Rightarrow> u64 \<Rightarrow> nat \<Rightarrow> decode_state
     \<Rightarrow> (stone_decoded_payload \<times> nat \<times> decode_state, stone_read_error) result" where
  "decode_payload env limits archive archive_end pos state =
     res_bind (map_err PayloadDecode (payload_header_decode (drop pos archive))) (\<lambda>(header, rest).
     res_bind (admit state header limits) (\<lambda>state.
     let body_pos = length archive - length rest; body_offset = word_of_nat body_pos in
     res_bind (ok_or (checked_add body_offset (ph_stored_size header)) (ArithmeticOverflow ''payload body end''))
       (\<lambda>body_end.
     if body_end > archive_end
     then Err (PayloadBodyOutOfBounds body_offset (ph_stored_size header) archive_end)
     else
       (let region = stored_region archive body_pos header
        in res_bind (decode_body env limits state header body_offset region) (\<lambda>(payload, state).
           Ok (payload, body_pos + length region, state))))))"

section \<open>Archives\<close>

record stone_reader =
  sr_header :: stone_header
  sr_archive :: "u8 list"
  sr_pos :: nat
  sr_limits :: stone_decode_limits
  sr_archive_end :: u64

definition verify_archive_end :: "u8 list \<Rightarrow> nat \<Rightarrow> u64 \<Rightarrow> (unit, stone_read_error) result" where
  "verify_archive_end archive pos expected_end =
     (let payload_end = word_of_nat pos; current_end = word_of_nat (length archive)
      in if payload_end \<noteq> expected_end \<or> current_end \<noteq> expected_end
         then Err (TrailingOrChangedArchive payload_end expected_end current_end) else Ok ())"

definition read_with_limits ::
    "u8 list \<Rightarrow> stone_decode_limits \<Rightarrow> (stone_reader, stone_read_error) result" where
  "read_with_limits archive limits =
     res_then (validate_limits limits)
    (let archive_end = word_of_nat (length archive) in
     res_bind (max_archive_bytes limits) (\<lambda>max_bytes.
     res_then (enforce_limit ''configured maximum archive bytes'' (2 ^ 63 - 1) max_bytes)
    (res_then (enforce_limit ''archive bytes'' max_bytes archive_end)
    (res_bind (map_err HeaderDecode (stone_header_decode archive)) (\<lambda>(header, rest).
     res_then (enforce_limit ''payload count'' (max_payloads limits) (ucast (stone_header_num_payloads header)))
    (let pos = length archive - length rest in
     res_then (if stone_header_num_payloads header = 0 then verify_archive_end archive pos archive_end else Ok ())
    (Ok \<lparr> sr_header = header, sr_archive = archive, sr_pos = pos, sr_limits = limits,
          sr_archive_end = archive_end \<rparr>)))))))"

record payload_iterator =
  it_reader :: stone_reader
  it_remaining :: u16
  it_state :: decode_state
  it_failed :: bool

definition payloads :: "stone_reader \<Rightarrow> (payload_iterator, stone_read_error) result" where
  "payloads reader =
     (let reader = reader\<lparr> sr_pos := STONE_HEADER_SIZE \<rparr> in
      res_then (if stone_header_num_payloads (sr_header reader) = 0
                then verify_archive_end (sr_archive reader) (sr_pos reader) (sr_archive_end reader) else Ok ())
     (Ok \<lparr> it_reader = reader, it_remaining = stone_header_num_payloads (sr_header reader),
           it_state = decode_state_default, it_failed = False \<rparr>))"

definition iterator_next ::
    "stone_env \<Rightarrow> payload_iterator
     \<Rightarrow> (stone_decoded_payload, stone_read_error) result option \<times> payload_iterator" where
  "iterator_next env it =
     (if it_failed it \<or> it_remaining it = 0 then (None, it)
      else
        (let reader = it_reader it;
             decoded = decode_payload env (sr_limits reader) (sr_archive reader) (sr_archive_end reader)
                         (sr_pos reader) (it_state it);
             remaining = it_remaining it - 1;
             res = res_bind decoded (\<lambda>(payload, pos, state).
               res_then (if remaining = 0 then verify_archive_end (sr_archive reader) pos (sr_archive_end reader)
                         else Ok ())
                 (Ok (payload, pos, state)))
         in case res of
              Ok (payload, pos, state) \<Rightarrow>
                (Some (Ok payload),
                 it\<lparr> it_reader := reader\<lparr> sr_pos := pos \<rparr>, it_remaining := remaining, it_state := state \<rparr>)
            | Err e \<Rightarrow> (Some (Err e), it\<lparr> it_remaining := remaining, it_failed := True \<rparr>)))"

definition size_hint :: "payload_iterator \<Rightarrow> nat" where
  "size_hint it = (if it_failed it then 0 else unat (it_remaining it))"

definition validate_content_reference ::
    "stone_reader \<Rightarrow> u64 stone_payload \<Rightarrow> (unit, stone_read_error) result" where
  "validate_content_reference reader content =
     (let header = pl_header content; limits = sr_limits reader; offset = pl_body content in
      if ph_kind header \<noteq> KindContent then Err (InvalidContentReference ''payload kind is not content'')
      else if ph_version header \<noteq> 1 then Err (UnsupportedPayloadVersion (ph_version header))
      else if ph_compression header = CompressionUnknown then Err ReadUnknownCompression
      else
        res_then (enforce_limit ''stored payload bytes'' (max_stored_payload_bytes limits) (ph_stored_size header))
       (res_then (enforce_limit ''plain payload bytes'' (max_plain_payload_bytes limits) (ph_plain_size header))
       (res_bind (ok_or (checked_add offset (ph_stored_size header)) (ArithmeticOverflow ''content body end''))
          (\<lambda>body_end.
        if offset < word_of_nat STONE_HEADER_SIZE \<or> body_end > sr_archive_end reader
        then Err (PayloadBodyOutOfBounds offset (ph_stored_size header) (sr_archive_end reader))
        else Ok ()))))"

text \<open>What \<open>unpack_content\<close> wrote, and whether it succeeded.\<close>

definition unpack_content ::
    "stone_env \<Rightarrow> stone_reader \<Rightarrow> u64 stone_payload \<Rightarrow> u8 list \<times> (unit, stone_read_error) result" where
  "unpack_content env reader content =
     (case validate_content_reference reader content of
        Err e \<Rightarrow> ([], Err e)
      | Ok _ \<Rightarrow>
          (let header = pl_header content;
               region = stored_region (sr_archive reader) (unat (pl_body content)) header
           in case payload_reader env region (ph_compression header) (max_zstd_window_log (sr_limits reader)) of
                Err e \<Rightarrow> ([], Err e)
              | Ok framed \<Rightarrow>
                  (case epr_copy (exact_plain_reader_new framed (ph_plain_size header)) of
                     (written, copy_result, plain) \<Rightarrow>
                       (written,
                        case size_error plain of
                          Some e \<Rightarrow> Err e
                        | None \<Rightarrow>
                            res_then (map_err ReadIo copy_result)
                           (res_then (finish_exact plain)
                           (drain_raw env region header))))))"

lemma iterator_next_remaining:
  assumes "iterator_next env it = (Some res, it')"
  shows "it_remaining it \<noteq> 0" and "it_remaining it' = it_remaining it - 1"
  using assms
  by (auto simp: iterator_next_def Let_def split: if_splits result.splits prod.splits)

text \<open>The whole iteration, as collecting the iterator does it.\<close>

function collect_payloads ::
    "stone_env \<Rightarrow> payload_iterator \<Rightarrow> (stone_decoded_payload list, stone_read_error) result" where
  "collect_payloads env it =
     (case iterator_next env it of
        (None, it') \<Rightarrow> Ok []
      | (Some (Err e), it') \<Rightarrow> Err e
      | (Some (Ok payload), it') \<Rightarrow>
          res_bind (collect_payloads env it') (\<lambda>rest. Ok (payload # rest)))"
  by pat_completeness auto
termination
proof (relation "measure (\<lambda>(env, it). unat (it_remaining it))")
  fix env it res it' r payload
  assume "(res, it') = iterator_next env it" "res = Some r" "r = Ok payload"
  then have "it_remaining it \<noteq> 0" "it_remaining it' = it_remaining it - 1"
    using iterator_next_remaining [of env it r it'] by simp_all
  then show "((env, it'), env, it) \<in> measure (\<lambda>(env, it). unat (it_remaining it))"
    by (simp add: unat_minus_one unat_gt_0)
qed simp

declare collect_payloads.simps [simp del]

definition read_archive ::
    "stone_env \<Rightarrow> stone_decode_limits \<Rightarrow> u8 list \<Rightarrow> (stone_decoded_payload list, stone_read_error) result" where
  "read_archive env limits archive =
     res_bind (read_with_limits archive limits) (\<lambda>reader.
     res_bind (payloads reader) (collect_payloads env))"

end
