(* ===== verification/Stone_Read_Properties.thy ===== *)
theory Stone_Read_Properties
  imports Stone_Read
begin

text \<open>
  What a successful read of a stone archive guarantees about the archive and its payloads: the aggregate
  limits hold, the payloads tile the archive, the stored bytes have the declared checksums, and the
  index ranges lie within the content, in whatever order the payloads come.
\<close>

section \<open>What the admission state accounts for\<close>

definition is_content :: "stone_payload_header \<Rightarrow> bool" where
  "is_content h \<longleftrightarrow> ph_kind h = KindContent"

fun index_records :: "stone_decoded_payload \<Rightarrow> stone_index_record list" where
  "index_records (IndexPayload p) = pl_body p"
| "index_records p = []"

definition content_sizes :: "stone_payload_header list \<Rightarrow> u64 list" where
  "content_sizes hs = map ph_plain_size (filter is_content hs)"

definition indices_ok :: "stone_index_record list \<Rightarrow> decode_state \<Rightarrow> bool" where
  "indices_ok rs st \<longleftrightarrow>
     (\<forall>r \<in> set rs. idx_start r \<le> idx_end r \<and> idx_end r \<le> ds_max_index_end st)
     \<and> (\<forall>c. ds_content_plain_size st = Some c \<longrightarrow> ds_max_index_end st \<le> c)"

definition totals_ok :: "stone_decode_limits \<Rightarrow> stone_payload_header list \<Rightarrow> decode_state \<Rightarrow> bool" where
  "totals_ok limits hs st \<longleftrightarrow>
     sum_list (map ph_num_records hs) = unat (ds_records st)
     \<and> sum_list (map (\<lambda>h. unat (ph_stored_size h)) hs) = unat (ds_stored_bytes st)
     \<and> sum_list (map (\<lambda>h. unat (ph_plain_size h)) hs) = unat (ds_plain_bytes st)
     \<and> ds_records st \<le> max_total_records limits
     \<and> ds_stored_bytes st \<le> max_total_stored_bytes limits
     \<and> ds_plain_bytes st \<le> max_total_plain_bytes limits"

definition records_ok :: "stone_decode_limits \<Rightarrow> stone_payload_header list \<Rightarrow> decode_state \<Rightarrow> bool" where
  "records_ok limits hs st \<longleftrightarrow>
     sum_list (map (\<lambda>h. unat (ph_plain_size h)) (filter (\<lambda>h. is_record_payload (ph_kind h)) hs))
       = unat (ds_record_bytes st)
     \<and> ds_record_bytes st \<le> max_total_record_bytes limits"

definition content_ok :: "stone_payload_header list \<Rightarrow> decode_state \<Rightarrow> bool" where
  "content_ok hs st \<longleftrightarrow>
     content_sizes hs = (case ds_content_plain_size st of None \<Rightarrow> [] | Some c \<Rightarrow> [c])
     \<and> (ds_content_seen st \<longleftrightarrow> ds_content_plain_size st \<noteq> None)"

lemma checked_total_Ok:
  assumes "checked_total resource current additional limit = Ok t"
  shows "unat t = unat current + unat additional" and "t \<le> limit"
  using assms checked_add_unat
  by (auto simp: checked_total_def enforce_limit_def result_simps not_less)

lemma admit_totals_step:
  assumes "totals_ok limits hs st" and "admit_totals st h limits = Ok st'" and "ph_num_records h < 2 ^ 32"
  shows "totals_ok limits (hs @ [h]) st'"
proof -
  obtain a b c where t: "checked_total ''aggregate record count'' (ds_records st) (word_of_nat (ph_num_records h))
        (max_total_records limits) = Ok a"
      "checked_total ''aggregate stored payload bytes'' (ds_stored_bytes st) (ph_stored_size h)
        (max_total_stored_bytes limits) = Ok b"
      "checked_total ''aggregate plain payload bytes'' (ds_plain_bytes st) (ph_plain_size h)
        (max_total_plain_bytes limits) = Ok c"
    and st': "st' = st\<lparr> ds_records := a, ds_stored_bytes := b, ds_plain_bytes := c \<rparr>"
    using assms(2) by (auto simp: admit_totals_def result_simps)
  have "unat (word_of_nat (ph_num_records h) :: u64) = ph_num_records h"
    using assms(3) by (intro unat_word_of_nat) simp
  then show ?thesis
    using assms(1) t(1-3) [THEN checked_total_Ok(1)] t(1-3) [THEN checked_total_Ok(2)]
    by (simp add: totals_ok_def st')
qed

lemma admit_totals_keeps:
  assumes "admit_totals st h limits = Ok st'"
  shows "records_ok limits hs st' = records_ok limits hs st" "content_ok hs st' = content_ok hs st"
    "indices_ok rs st' = indices_ok rs st"
  using assms by (auto simp: admit_totals_def records_ok_def content_ok_def indices_ok_def result_simps)

lemma admit_records_keeps:
  assumes "admit_records st h limits = Ok st'"
  shows "totals_ok limits hs st' = totals_ok limits hs st" "content_ok hs st' = content_ok hs st"
    "indices_ok rs st' = indices_ok rs st"
  using assms
  by (auto simp: admit_records_def totals_ok_def content_ok_def indices_ok_def result_simps split: if_splits)

lemma admit_records_step:
  assumes "admit_records st h limits = Ok st'" and "records_ok limits hs st"
  shows "records_ok limits (hs @ [h]) st'"
  using assms checked_total_Ok
  by (fastforce simp: admit_records_def records_ok_def result_simps split: if_splits)

lemma admit_content_step:
  assumes "content_ok hs st" and "indices_ok rs st" and "totals_ok limits hs' st" and "admit_content st h = Ok st'"
    and "records_ok limits hs' st"
  shows "content_ok (hs @ [h]) st' \<and> indices_ok rs st' \<and> totals_ok limits hs' st' \<and> records_ok limits hs' st'"
proof (cases "ph_kind h = KindContent")
  case True
  then have "\<not> ds_content_seen st" "ds_max_index_end st \<le> ph_plain_size h"
    and "st' = st\<lparr> ds_content_seen := True, ds_content_plain_size := Some (ph_plain_size h) \<rparr>"
    using assms(4) by (auto simp: admit_content_def split: if_splits)
  then show ?thesis
    using assms(1-3,5) True
    by (auto simp: content_ok_def indices_ok_def totals_ok_def records_ok_def content_sizes_def is_content_def)
next
  case False
  then have "st' = st" using assms(4) by (simp add: admit_content_def)
  then show ?thesis
    using assms(1-3,5) False by (auto simp: content_ok_def content_sizes_def is_content_def)
qed

definition accounts ::
    "stone_decode_limits \<Rightarrow> stone_payload_header list \<Rightarrow> stone_index_record list \<Rightarrow> decode_state \<Rightarrow> bool" where
  "accounts limits hs rs st \<longleftrightarrow>
     totals_ok limits hs st \<and> records_ok limits hs st \<and> content_ok hs st \<and> indices_ok rs st"

lemma accounts_default: "accounts limits [] [] decode_state_default"
  by (simp add: accounts_def totals_ok_def records_ok_def content_ok_def indices_ok_def content_sizes_def
      decode_state_default_def)

lemma admit_step:
  assumes acc: "accounts limits hs rs st" and adm: "admit st h limits = Ok st'" and few: "ph_num_records h < 2 ^ 32"
  shows "accounts limits (hs @ [h]) rs st'"
proof -
  obtain st1 st2 where 1: "admit_totals st h limits = Ok st1" and 2: "admit_records st1 h limits = Ok st2"
    and 3: "admit_content st2 h = Ok st'"
    using adm by (auto simp: admit_def result_simps split: if_splits)
  have tot: "totals_ok limits (hs @ [h]) st1" using admit_totals_step [OF _ 1 few] acc by (simp add: accounts_def)
  have "content_ok hs st1" "indices_ok rs st1" "records_ok limits hs st1"
    using acc admit_totals_keeps [OF 1] by (simp_all add: accounts_def)
  then have "totals_ok limits (hs @ [h]) st2" "content_ok hs st2" "indices_ok rs st2" "records_ok limits (hs @ [h]) st2"
    using tot admit_records_keeps [OF 2] admit_records_step [OF 2] by simp_all
  then show ?thesis using admit_content_step [OF _ _ _ 3] unfolding accounts_def by blast
qed

lemma admit_indices_Cons:
  assumes "admit_indices st (r # xs) = Ok st'"
  shows "admit_indices (st\<lparr> ds_max_index_end := max (ds_max_index_end st) (idx_end r) \<rparr>) xs = Ok st'"
    and "idx_start r \<le> idx_end r" and "\<And>c. ds_content_plain_size st = Some c \<Longrightarrow> idx_end r \<le> c"
  using assms by (auto simp: Let_def not_less split: if_splits option.splits)

lemma admit_indices_step:
  "indices_ok rs st \<Longrightarrow> admit_indices st xs = Ok st' \<Longrightarrow> indices_ok (rs @ xs) st'"
proof (induction xs arbitrary: rs st)
  case (Cons r xs)
  note step = admit_indices_Cons [OF Cons.prems(2)]
  have "indices_ok (rs @ [r]) (st\<lparr> ds_max_index_end := max (ds_max_index_end st) (idx_end r) \<rparr>)"
    using Cons.prems(1) step(2,3) by (auto simp: indices_ok_def le_max_iff_disj)
  from Cons.IH [OF this step(1)] show ?case by simp
qed simp

lemma admit_indices_keeps:
  "admit_indices st xs = Ok st' \<Longrightarrow>
     totals_ok limits hs st' = totals_ok limits hs st \<and> records_ok limits hs st' = records_ok limits hs st
     \<and> content_ok hs st' = content_ok hs st"
proof (induction xs arbitrary: st)
  case (Cons r xs)
  from Cons.IH [OF admit_indices_Cons(1) [OF Cons.prems]] show ?case
    by (simp add: totals_ok_def records_ok_def content_ok_def)
qed simp

section \<open>One payload\<close>

lemma payload_header_decode_Ok:
  assumes "payload_header_decode r = Ok (h, rest)"
  shows "ph_num_records h < 2 ^ 32" and "length (ph_checksum h) = 8"
    and "\<exists>bs. r = bs @ rest \<and> length bs = STONE_PAYLOAD_HEADER_SIZE"
proof -
  obtain a b c d e f g where *: "length a = 8" "length b = 8" "length c = 8" "length d = 4" "length e = 2"
      "length f = 1" "length g = 1" "r = a @ b @ c @ d @ e @ f @ g @ rest"
    and h: "ph_num_records h = unat (from_be_bytes d :: u32)" "ph_checksum h = c"
    using assms by (auto simp: payload_header_decode_def result_simps read_array_Ok_iff)
  show "ph_num_records h < 2 ^ 32"
    using unsigned_less [of "from_be_bytes d :: u32", where 'a = nat] by (simp add: h)
  show "length (ph_checksum h) = 8" using * h by simp
  show "\<exists>bs. r = bs @ rest \<and> length bs = STONE_PAYLOAD_HEADER_SIZE"
    using * by (intro exI [of _ "a @ b @ c @ d @ e @ f @ g"]) (simp add: STONE_PAYLOAD_HEADER_SIZE_def)
qed

text \<open>The payload at a position: its stored bytes are all there and have the declared checksum.\<close>

definition sound_payload :: "stone_env \<Rightarrow> u8 list \<Rightarrow> nat \<Rightarrow> stone_decoded_payload \<Rightarrow> bool" where
  "sound_payload env archive pos p \<longleftrightarrow>
     (let h = payload_header p; region = stored_region archive (pos + STONE_PAYLOAD_HEADER_SIZE) h
      in (\<exists>rest. payload_header_decode (drop pos archive) = Ok (h, rest))
         \<and> length region = unat (ph_stored_size h) \<and> env_xxh3 env region = from_be_bytes (ph_checksum h))"

lemma length_stored_region: "length (stored_region archive pos h) \<le> unat (ph_stored_size h)"
  by (simp add: stored_region_def)

lemma word_of_nat_region:
  assumes "(word_of_nat (length (stored_region archive pos h)) :: u64) = ph_stored_size h"
  shows "length (stored_region archive pos h) = unat (ph_stored_size h)"
proof -
  have "length (stored_region archive pos h) < 2 ^ 64"
    using length_stored_region [of archive pos h] unsigned_less [of "ph_stored_size h", where 'a = nat] by simp
  then have "unat (word_of_nat (length (stored_region archive pos h)) :: u64) = length (stored_region archive pos h)"
    by (intro unat_word_of_nat) simp
  then show ?thesis using assms by simp
qed

lemma drain_raw_Ok:
  assumes "drain_raw env (stored_region archive pos h) h = Ok ()"
  shows "length (stored_region archive pos h) = unat (ph_stored_size h)"
    and "env_xxh3 env (stored_region archive pos h) = from_be_bytes (ph_checksum h)"
  using assms word_of_nat_region [of archive pos h]
  by (auto simp: drain_raw_def validate_checksum_value_def Let_def split: if_splits)

lemma read_raw_payload_Ok:
  assumes "read_raw_payload env h (stored_region archive pos h) = Ok ()"
  shows "length (stored_region archive pos h) = unat (ph_stored_size h)"
    and "env_xxh3 env (stored_region archive pos h) = from_be_bytes (ph_checksum h)"
  using assms word_of_nat_region [of archive pos h]
  by (auto simp: read_raw_payload_def validate_checksum_value_def Let_def split: if_splits)

lemma decode_record_body_Ok:
  assumes "decode_record_body env limits h decode region = Ok rs"
  obtains framed plain where
    "payload_reader env region (ph_compression h) (max_zstd_window_log limits) = Ok framed"
    "decode_over_plain (env_alloc env) decode (ph_num_records h) (max_record_bytes limits) framed (ph_plain_size h)
       = (Ok rs, plain)"
    "size_error plain = None" "finish_exact plain = Ok ()" "drain_raw env region h = Ok ()"
proof -
  obtain framed where f: "payload_reader env region (ph_compression h) (max_zstd_window_log limits) = Ok framed"
    using assms by (auto simp: decode_record_body_def result_simps)
  obtain records plain where d: "decode_over_plain (env_alloc env) decode (ph_num_records h)
      (max_record_bytes limits) framed (ph_plain_size h) = (records, plain)" by fastforce
  have "size_error plain = None" "records = Ok rs" "finish_exact plain = Ok ()" "drain_raw env region h = Ok ()"
    using assms unfolding decode_record_body_def
    by (auto simp: f d result_simps split: option.splits)
  then show thesis using that f d by blast
qed

lemma decode_body_sound:
  assumes "decode_body env limits st h offset (stored_region archive pos h) = Ok (p, st')"
  shows "payload_header p = h" and "length (stored_region archive pos h) = unat (ph_stored_size h)"
    and "env_xxh3 env (stored_region archive pos h) = from_be_bytes (ph_checksum h)"
    and "admit_indices st (index_records p) = Ok st'"
proof -
  let ?r = "stored_region archive pos h"
  have "(payload_header p = h \<and> admit_indices st (index_records p) = Ok st')
      \<and> (drain_raw env ?r h = Ok () \<or> read_raw_payload env h ?r = Ok ())"
  proof (cases "ph_compression h = CompressionUnknown")
    case True
    then show ?thesis using assms by (auto simp: decode_body_def result_simps)
  next
    case False
    then show ?thesis
      using assms
      by (cases "ph_kind h") (auto simp: decode_body_def result_simps elim: decode_record_body_Ok)
  qed
  then show "payload_header p = h" "admit_indices st (index_records p) = Ok st'"
    "length ?r = unat (ph_stored_size h)" "env_xxh3 env ?r = from_be_bytes (ph_checksum h)"
    using drain_raw_Ok [of env archive pos h] read_raw_payload_Ok [of env h archive pos] by auto
qed

lemma decode_payload_step:
  assumes dec: "decode_payload env limits archive archive_end pos st = Ok (p, pos', st')"
    and pos: "pos \<le> length archive"
  shows "sound_payload env archive pos p"
    and "pos' = pos + STONE_PAYLOAD_HEADER_SIZE + unat (ph_stored_size (payload_header p))" and "pos' \<le> length archive"
    and "accounts limits hs rs st \<Longrightarrow> accounts limits (hs @ [payload_header p]) (rs @ index_records p) st'"
proof -
  obtain h rest st1 where h: "payload_header_decode (drop pos archive) = Ok (h, rest)"
    and adm: "admit st h limits = Ok st1"
    and body: "decode_body env limits st1 h (word_of_nat (length archive - length rest))
        (stored_region archive (length archive - length rest) h) = Ok (p, st')"
    and pos': "pos' = length archive - length rest + length (stored_region archive (length archive - length rest) h)"
    using dec by (auto simp: decode_payload_def result_simps Let_def)
  note hd = payload_header_decode_Ok [OF h]
  obtain bs where "drop pos archive = bs @ rest" "length bs = STONE_PAYLOAD_HEADER_SIZE" using hd(3) by blast
  then have "length archive - pos = STONE_PAYLOAD_HEADER_SIZE + length rest" by (metis length_append length_drop)
  then have at: "length archive - length rest = pos + STONE_PAYLOAD_HEADER_SIZE" "length rest \<le> length archive"
    using pos by linarith+
  note b = decode_body_sound [OF body]
  show "sound_payload env archive pos p" using h b at by (auto simp: sound_payload_def Let_def)
  show "pos' = pos + STONE_PAYLOAD_HEADER_SIZE + unat (ph_stored_size (payload_header p))"
    using pos' b at by simp
  show "pos' \<le> length archive" using pos' at by (simp add: stored_region_def)
  assume "accounts limits hs rs st"
  then have acc: "accounts limits (hs @ [h]) rs st1" by (rule admit_step [OF _ adm hd(1)])
  then show "accounts limits (hs @ [payload_header p]) (rs @ index_records p) st'"
    using admit_indices_step [OF _ b(4)] admit_indices_keeps [OF b(4)] b(1) by (auto simp: accounts_def)
qed

section \<open>The whole archive\<close>

definition payload_extent :: "stone_decoded_payload \<Rightarrow> nat" where
  "payload_extent p = STONE_PAYLOAD_HEADER_SIZE + unat (ph_stored_size (payload_header p))"

fun tiled :: "stone_env \<Rightarrow> u8 list \<Rightarrow> nat \<Rightarrow> stone_decoded_payload list \<Rightarrow> bool" where
  "tiled env archive pos [] \<longleftrightarrow> pos = length archive"
| "tiled env archive pos (p # ps) \<longleftrightarrow>
     sound_payload env archive pos p \<and> tiled env archive (pos + payload_extent p) ps"

lemma iterator_next_Ok:
  assumes "iterator_next env it = (Some (Ok p), it')"
  shows "\<not> it_failed it'" and "it_remaining it' = it_remaining it - 1" and "it_remaining it \<noteq> 0"
    and "sr_limits (it_reader it') = sr_limits (it_reader it)"
    and "sr_archive (it_reader it') = sr_archive (it_reader it)"
    and "sr_archive_end (it_reader it') = sr_archive_end (it_reader it)"
    and "decode_payload env (sr_limits (it_reader it)) (sr_archive (it_reader it)) (sr_archive_end (it_reader it))
           (sr_pos (it_reader it)) (it_state it) = Ok (p, sr_pos (it_reader it'), it_state it')"
    and "it_remaining it' = 0
           \<Longrightarrow> verify_archive_end (sr_archive (it_reader it)) (sr_pos (it_reader it')) (sr_archive_end (it_reader it)) = Ok ()"
  using assms
  by (auto simp: iterator_next_def Let_def result_simps split: if_splits result.splits prod.splits)

lemma verify_archive_end_Ok:
  assumes "verify_archive_end archive pos archive_end = Ok ()" and "pos \<le> length archive" and "length archive < 2 ^ 64"
  shows "pos = length archive"
proof -
  have "(word_of_nat pos :: u64) = word_of_nat (length archive)"
    using assms(1) by (auto simp: verify_archive_end_def Let_def split: if_splits)
  then have "unat (word_of_nat pos :: u64) = unat (word_of_nat (length archive) :: u64)" by simp
  then show ?thesis using assms(2,3) by (simp add: unat_word_of_nat)
qed

lemma collect_payloads_step:
  assumes "collect_payloads env it = Ok ps" and "it_remaining it \<noteq> 0" and "\<not> it_failed it"
  obtains p it' ps' where "iterator_next env it = (Some (Ok p), it')" "collect_payloads env it' = Ok ps'" "ps = p # ps'"
proof -
  obtain res it' where n: "iterator_next env it = (Some res, it')"
    using assms(2,3) by (fastforce simp: iterator_next_def Let_def split: result.splits prod.splits)
  then show thesis
    using assms(1) that unfolding collect_payloads.simps [of env it]
    by (cases res) (auto simp: result_simps)
qed

lemma collect_payloads_done:
  "it_remaining it = 0 \<Longrightarrow> collect_payloads env it = Ok ps \<Longrightarrow> ps = []"
  by (simp add: collect_payloads.simps [of env it] iterator_next_def)

lemma collect_payloads_sound:
  assumes "collect_payloads env it = Ok ps" and "\<not> it_failed it"
    and "sr_pos (it_reader it) \<le> length (sr_archive (it_reader it))"
    and "length (sr_archive (it_reader it)) < 2 ^ 64"
    and "it_remaining it = 0 \<Longrightarrow> sr_pos (it_reader it) = length (sr_archive (it_reader it))"
    and "accounts (sr_limits (it_reader it)) hs rs (it_state it)"
  shows "length ps = unat (it_remaining it) \<and> tiled env (sr_archive (it_reader it)) (sr_pos (it_reader it)) ps
     \<and> (\<exists>st. accounts (sr_limits (it_reader it)) (hs @ map payload_header ps) (rs @ concat (map index_records ps)) st)"
  using assms
proof (induction "unat (it_remaining it)" arbitrary: it ps hs rs)
  case 0
  then have "it_remaining it = 0" by (simp add: unat_eq_0)
  then show ?case using 0 collect_payloads_done by fastforce
next
  case (Suc n)
  then have "it_remaining it \<noteq> 0" by auto
  then obtain p it' ps' where nx: "iterator_next env it = (Some (Ok p), it')"
    and rest: "collect_payloads env it' = Ok ps'" and ps: "ps = p # ps'"
    using collect_payloads_step Suc.prems(1,2) by metis
  note i = iterator_next_Ok [OF nx]
  note d = decode_payload_step [OF i(7) Suc.prems(3)]
  have n: "n = unat (it_remaining it')" using Suc.hyps(2) i(2,3) by (simp add: unat_minus_one)
  have "length ps' = unat (it_remaining it') \<and> tiled env (sr_archive (it_reader it')) (sr_pos (it_reader it')) ps'
     \<and> (\<exists>st. accounts (sr_limits (it_reader it')) ((hs @ [payload_header p]) @ map payload_header ps')
          ((rs @ index_records p) @ concat (map index_records ps')) st)"
    by (rule Suc.hyps(1) [OF n rest i(1)])
       (use i d Suc.prems verify_archive_end_Ok in \<open>auto simp: d(4)\<close>)
  then show ?case
    using i d(1,2) ps n Suc.hyps(2) by (simp add: payload_extent_def add.assoc)
qed

lemma read_archive_Ok:
  assumes "read_archive env limits archive = Ok ps" and "length archive < 2 ^ 64"
  obtains header rest st where "stone_header_decode archive = Ok (header, rest)"
    "length ps = unat (stone_header_num_payloads header)" "tiled env archive STONE_HEADER_SIZE ps"
    "accounts limits (map payload_header ps) (concat (map index_records ps)) st"
    "validate_limits limits = Ok ()" "length ps \<le> unat (max_payloads limits)"
proof -
  obtain reader it where r: "read_with_limits archive limits = Ok reader" and it: "payloads reader = Ok it"
    and c: "collect_payloads env it = Ok ps"
    using assms(1) by (auto simp: read_archive_def result_simps)
  obtain header rest where h: "stone_header_decode archive = Ok (header, rest)"
    and reader: "reader = \<lparr> sr_header = header, sr_archive = archive, sr_pos = length archive - length rest,
        sr_limits = limits, sr_archive_end = word_of_nat (length archive) \<rparr>"
    and count: "enforce_limit ''payload count'' (max_payloads limits) (ucast (stone_header_num_payloads header)) = Ok ()"
    and limits: "validate_limits limits = Ok ()"
    using r by (auto simp: read_with_limits_def result_simps Let_def)
  have few: "unat (stone_header_num_payloads header) \<le> unat (max_payloads limits)"
    using count by (auto simp: enforce_limit_def not_less word_le_nat_alt split: if_splits)
  have len: "STONE_HEADER_SIZE \<le> length archive"
    using h by (auto simp: stone_header_decode_def agnostic_header_decode_Ok_iff agnostic_header_encode_def
        STONE_HEADER_SIZE_def result_simps)
  have ver: "stone_header_num_payloads header = 0
      \<Longrightarrow> verify_archive_end archive STONE_HEADER_SIZE (word_of_nat (length archive)) = Ok ()"
    and it': "it = \<lparr> it_reader = reader\<lparr> sr_pos := STONE_HEADER_SIZE \<rparr>,
        it_remaining = stone_header_num_payloads header, it_state = decode_state_default, it_failed = False \<rparr>"
    using it by (auto simp: payloads_def reader result_simps Let_def)
  have "length ps = unat (stone_header_num_payloads header) \<and> tiled env archive STONE_HEADER_SIZE ps
     \<and> (\<exists>st. accounts limits ([] @ map payload_header ps) ([] @ concat (map index_records ps)) st)"
    using collect_payloads_sound [OF c, of "[]" "[]"] len assms(2) accounts_default verify_archive_end_Ok [OF ver len]
    by (simp add: it' reader)
  then show thesis using that h limits few by auto
qed

lemma tiled_length: "tiled env archive pos ps \<Longrightarrow> length archive = pos + sum_list (map payload_extent ps)"
  by (induction ps arbitrary: pos) (auto simp: add.assoc)

section \<open>Copying out the content\<close>

lemma epr_read_at_end:
  assumes "epr_emitted r = epr_declared r" and "epr_inner r = ([], None)" and "0 < n"
  shows "epr_read n r = (Ok [], r)"
  using assms by (simp add: epr_read_def stream_read_def)

lemma epr_read_more:
  assumes "unat (epr_emitted r) < unat (epr_declared r)" and "epr_inner r = (xs, e)" and "xs \<noteq> []" and "0 < n"
  defines "bs \<equiv> take (min (unat (epr_declared r) - unat (epr_emitted r)) n) xs"
  shows "\<exists>em. epr_read n r = (Ok bs, r\<lparr> epr_inner := (drop (length bs) xs, e), epr_emitted := em \<rparr>)
     \<and> unat em = unat (epr_emitted r) + length bs" and "bs \<noteq> []"
    and "length bs \<le> unat (epr_declared r) - unat (epr_emitted r)"
proof -
  let ?k = "min (unat (epr_declared r) - unat (epr_emitted r)) n"
  have sub: "unat (epr_declared r - epr_emitted r) = unat (epr_declared r) - unat (epr_emitted r)"
    using assms(1) by (intro unat_sub) (simp add: word_le_nat_alt)
  show ne: "bs \<noteq> []" and le: "length bs \<le> unat (epr_declared r) - unat (epr_emitted r)"
    using assms(1,3,4) by (auto simp: bs_def)
  have "length bs < 2 ^ 64" using le unsigned_less [of "epr_declared r", where 'a = nat] by simp
  then have un: "unat (word_of_nat (length bs) :: u64) = length bs" by (simp add: unat_word_of_nat)
  have "unat (epr_emitted r) + length bs < 2 ^ 64"
    using le assms(1) unsigned_less [of "epr_declared r", where 'a = nat] by simp
  then have add: "checked_add (epr_emitted r) (word_of_nat (length bs)) = Some (epr_emitted r + word_of_nat (length bs))"
    by (simp add: checked_add_Some_iff un)
  have "stream_read ?k (epr_inner r) = (Ok bs, (drop ?k xs, e))"
    using assms(2,3) by (cases xs) (simp_all add: stream_read_def bs_def)
  moreover have "drop ?k xs = drop (length bs) xs" by (simp add: bs_def min_def)
  moreover have "epr_emitted r \<noteq> epr_declared r" using assms(1) by auto
  ultimately have "epr_read n r = (Ok bs, r\<lparr> epr_inner := (drop (length bs) xs, e),
      epr_emitted := epr_emitted r + word_of_nat (length bs) \<rparr>)"
    using assms(4) ne add sub by (simp add: epr_read_def Let_def)
  then show "\<exists>em. epr_read n r = (Ok bs, r\<lparr> epr_inner := (drop (length bs) xs, e), epr_emitted := em \<rparr>)
     \<and> unat em = unat (epr_emitted r) + length bs"
    using checked_add_unat [OF add] un by auto
qed

lemma epr_copy_Ok:
  assumes "epr_copy r = (w, Ok (), r')" and "epr_emitted r \<le> epr_declared r"
  shows "epr_inner r = (w, None) \<and> unat (epr_emitted r) + length w = unat (epr_declared r)"
  using assms
proof (induction r arbitrary: w rule: epr_copy.induct)
  case (1 r)
  obtain xs e where inner: "epr_inner r = (xs, e)" by fastforce
  show ?case
  proof (cases "epr_emitted r = epr_declared r")
    case True
    then show ?thesis
      using "1.prems"(1) unfolding epr_copy.simps [of r]
      by (auto simp: inner epr_read_def stream_read_def split: list.splits option.splits)
  next
    case False
    then have lt: "unat (epr_emitted r) < unat (epr_declared r)"
      using "1.prems"(2) by (simp add: word_le_nat_alt order_less_le word_unat_eq_iff)
    show ?thesis
    proof (cases "xs = []")
      case True
      then show ?thesis
        using "1.prems"(1) False unfolding epr_copy.simps [of r]
        by (auto simp: inner epr_read_def stream_read_def Let_def split: option.splits)
    next
      case more: False
      define bs where "bs = take (min (unat (epr_declared r) - unat (epr_emitted r)) 8192) xs"
      obtain em where rd: "epr_read 8192 r = (Ok bs, r\<lparr> epr_inner := (drop (length bs) xs, e), epr_emitted := em \<rparr>)"
        and em: "unat em = unat (epr_emitted r) + length bs"
        and bs: "bs \<noteq> []" "length bs \<le> unat (epr_declared r) - unat (epr_emitted r)"
        using epr_read_more [OF lt inner more, of 8192] unfolding bs_def by auto
      let ?r = "r\<lparr> epr_inner := (drop (length bs) xs, e), epr_emitted := em \<rparr>"
      obtain w' where w': "epr_copy ?r = (w', Ok (), r')" "w = bs @ w'"
        using "1.prems"(1) rd bs(1) unfolding epr_copy.simps [of r] by (auto split: prod.splits)
      have "em \<le> epr_declared r" using em bs(2) lt by (simp add: word_le_nat_alt)
      then have "(drop (length bs) xs, e) = (w', None) \<and> unat em + length w' = unat (epr_declared r)"
        using "1.IH" [OF rd [symmetric] refl bs(1) w'(1)] by simp
      moreover have "xs = bs @ drop (length bs) xs" by (simp add: bs_def min_def)
      ultimately show ?thesis using inner em w'(2) by auto
    qed
  qed
qed

lemma epr_copy_exact:
  assumes "epr_inner r = (xs, None)" and "unat (epr_emitted r) + length xs = unat (epr_declared r)"
  shows "epr_copy r = (xs, Ok (), r\<lparr> epr_inner := ([], None), epr_emitted := epr_declared r \<rparr>)"
  using assms
proof (induction r arbitrary: xs rule: epr_copy.induct)
  case (1 r)
  show ?case
  proof (cases "xs = []")
    case True
    then have "epr_emitted r = epr_declared r" using "1.prems"(2) by (simp add: word_unat_eq_iff)
    then have "r\<lparr> epr_inner := ([], None), epr_emitted := epr_declared r \<rparr> = r"
      using "1.prems"(1) True by (metis (full_types) exact_plain_reader.surjective exact_plain_reader.update_convs(1,3))
    then show ?thesis
      using epr_read_at_end [of r 8192] "1.prems"(1) True \<open>epr_emitted r = epr_declared r\<close>
      unfolding epr_copy.simps [of r] by simp
  next
    case False
    then have lt: "unat (epr_emitted r) < unat (epr_declared r)" using "1.prems"(2) by (cases xs) auto
    define bs where "bs = take (min (unat (epr_declared r) - unat (epr_emitted r)) 8192) xs"
    obtain em where rd: "epr_read 8192 r = (Ok bs, r\<lparr> epr_inner := (drop (length bs) xs, None), epr_emitted := em \<rparr>)"
      and em: "unat em = unat (epr_emitted r) + length bs" and bs: "bs \<noteq> []"
      using epr_read_more [OF lt "1.prems"(1) False, of 8192] unfolding bs_def by auto
    let ?r = "r\<lparr> epr_inner := (drop (length bs) xs, None), epr_emitted := em \<rparr>"
    have cut: "xs = bs @ drop (length bs) xs" by (simp add: bs_def min_def)
    then have "length bs + length (drop (length bs) xs) = length xs" by (metis length_append)
    then have "epr_copy ?r = (drop (length bs) xs, Ok (), ?r\<lparr> epr_inner := ([], None), epr_emitted := epr_declared ?r \<rparr>)"
      using "1.prems"(2) em by (intro "1.IH" [OF rd [symmetric] refl bs]) simp_all
    then show ?thesis unfolding epr_copy.simps [of r] rd using bs cut by simp
  qed
qed

lemma finish_exact_at_end:
  assumes "epr_inner r = ([], None)" and "epr_emitted r = epr_declared r"
  shows "finish_exact r = Ok ()"
  using epr_read_at_end [OF assms(2,1), of 1] by (simp add: finish_exact_def)

end
