(* ===== verification/Stone_Archive.thy ===== *)
theory Stone_Archive
  imports Stone_Write Stone_Read_Properties
begin

text \<open>
  Writer and reader together: an archive that \<open>StoneWriter\<close> finished is read back by \<open>StoneReader\<close> as
  the records that were added, and its content unpacks to the files, cut by their index records.
\<close>

section \<open>Bodies\<close>

lemma drain_raw_full:
  assumes "length region = unat (ph_stored_size h)" and "env_xxh3 env region = from_be_bytes (ph_checksum h)"
  shows "drain_raw env region h = Ok ()" and "read_raw_payload env h region = Ok ()"
  using assms by (simp_all add: drain_raw_def read_raw_payload_def validate_checksum_value_def Let_def)

lemma decode_record_body_exact:
  assumes "payload_reader env region (ph_compression h) (max_zstd_window_log limits) = Ok (bs, None)"
    and len: "length bs = unat (ph_plain_size h)"
    and dec: "decode_records (env_alloc env) decode bs (ph_num_records h) (max_record_bytes limits) = Ok (rs, [])"
    and "drain_raw env region h = Ok ()"
  shows "decode_record_body env limits h decode region = Ok rs"
proof -
  let ?r = "epr_after (bs, None) (ph_plain_size h) (length bs)"
  have "finish_exact ?r = Ok ()"
    using len by (intro finish_exact_at_end) (simp_all add: epr_after_def exact_plain_reader_new_def)
  moreover have "size_error ?r = None" by (simp add: size_error_def epr_after_def exact_plain_reader_new_def)
  moreover have "decode_over_plain (env_alloc env) decode (ph_num_records h) (max_record_bytes limits) (bs, None)
      (ph_plain_size h) = (Ok rs, ?r)"
    using dec len by (simp add: decode_over_plain_def Let_def)
  ultimately show ?thesis using assms(1,4) by (simp add: decode_record_body_def)
qed

section \<open>Segments\<close>

text \<open>
  An encoded payload of an archive with the payload it is read back as; the latter may hold the offset
  of its body. \<open>segment_ok\<close>: whatever the admission state is, the body is decoded to that payload.
\<close>

type_synonym segment = "encoded_payload \<times> (u64 \<Rightarrow> stone_decoded_payload)"

definition segment_ok :: "stone_env \<Rightarrow> stone_decode_limits \<Rightarrow> segment \<Rightarrow> bool" where
  "segment_ok env limits seg \<longleftrightarrow>
     (case seg of (ep, mk) \<Rightarrow>
        length (ph_checksum (ep_header ep)) = 8 \<and> ph_num_records (ep_header ep) < 2 ^ 32
        \<and> length (ep_content ep) = unat (ph_stored_size (ep_header ep))
        \<and> (\<forall>off st. decode_body env limits st (ep_header ep) off (ep_content ep)
             = res_bind (admit_indices st (index_records (mk off))) (\<lambda>st. Ok (mk off, st)))
        \<and> (\<forall>off. index_records (mk off) = index_records (mk 0)))"

definition segment_size :: "segment \<Rightarrow> nat" where
  "segment_size seg = STONE_PAYLOAD_HEADER_SIZE + length (ep_content (fst seg))"

definition segment_bytes :: "segment list \<Rightarrow> u8 list" where
  "segment_bytes segs = concat (map (\<lambda>seg. write_encoded (fst seg)) segs)"

fun place :: "nat \<Rightarrow> segment list \<Rightarrow> stone_decoded_payload list" where
  "place pos [] = []"
| "place pos ((ep, mk) # segs) =
     mk (word_of_nat (pos + STONE_PAYLOAD_HEADER_SIZE)) # place (pos + segment_size (ep, mk)) segs"

fun admit_all :: "stone_decode_limits \<Rightarrow> decode_state \<Rightarrow> segment list \<Rightarrow> (decode_state, stone_read_error) result" where
  "admit_all limits st [] = Ok st"
| "admit_all limits st ((ep, mk) # segs) =
     res_bind (admit st (ep_header ep) limits) (\<lambda>st.
     res_bind (admit_indices st (index_records (mk 0))) (\<lambda>st. admit_all limits st segs))"

lemma write_encoded_length: "length (ph_checksum (ep_header ep)) = 8 \<Longrightarrow> ph_num_records (ep_header ep) < 2 ^ 32
  \<Longrightarrow> length (write_encoded ep) = STONE_PAYLOAD_HEADER_SIZE + length (ep_content ep)"
  using payload_header_decode_encode [of "ep_header ep"] by (simp add: write_encoded_def)

lemma decode_payload_segment:
  assumes ok: "segment_ok env limits (ep, mk)"
    and archive: "archive = pre @ write_encoded ep @ post" and len: "length archive < 2 ^ 64"
    and adm: "admit st (ep_header ep) limits = Ok st1" and idx: "admit_indices st1 (index_records (mk 0)) = Ok st2"
  shows "decode_payload env limits archive (word_of_nat (length archive)) (length pre) st
         = Ok (mk (word_of_nat (length pre + STONE_PAYLOAD_HEADER_SIZE)), length pre + segment_size (ep, mk), st2)"
proof -
  let ?h = "ep_header ep" and ?pos = "length pre + STONE_PAYLOAD_HEADER_SIZE"
  have seg: "length (ph_checksum ?h) = 8" "ph_num_records ?h < 2 ^ 32" "length (ep_content ep) = unat (ph_stored_size ?h)"
    "\<And>off st. decode_body env limits st ?h off (ep_content ep)
             = res_bind (admit_indices st (index_records (mk off))) (\<lambda>st. Ok (mk off, st))"
    "\<And>off. index_records (mk off) = index_records (mk 0)"
    using ok by (auto simp: segment_ok_def)
  have hd: "payload_header_decode (drop (length pre) archive) = Ok (?h, ep_content ep @ post)"
    and hlen: "length (payload_header_encode ?h) = STONE_PAYLOAD_HEADER_SIZE"
    using payload_header_decode_encode [OF seg(1,2), of "ep_content ep @ post"] archive
    by (simp_all add: write_encoded_def)
  have at: "length archive - length (ep_content ep @ post) = ?pos"
    using archive hlen by (simp add: write_encoded_def)
  have fits: "?pos + unat (ph_stored_size ?h) \<le> length archive"
    using archive hlen seg(3) by (simp add: write_encoded_def)
  have region: "stored_region archive ?pos ?h = ep_content ep"
    using archive hlen seg(3) by (simp add: stored_region_def write_encoded_def)
  have un: "unat (word_of_nat ?pos :: u64) = ?pos" "unat (word_of_nat (length archive) :: u64) = length archive"
    by (rule unat_word_of_nat, use fits len in simp)+
  have add: "checked_add (word_of_nat ?pos :: u64) (ph_stored_size ?h) = Some (word_of_nat ?pos + ph_stored_size ?h)"
    using fits len un by (simp add: checked_add_Some_iff)
  then have "\<not> word_of_nat ?pos + ph_stored_size ?h > (word_of_nat (length archive) :: u64)"
    using checked_add_unat [OF add] fits un by (simp add: word_less_nat_alt)
  moreover have "decode_body env limits st1 ?h (word_of_nat ?pos) (ep_content ep) = Ok (mk (word_of_nat ?pos), st2)"
    unfolding seg(4) seg(5) [of "word_of_nat ?pos"] by (simp add: idx)
  ultimately show ?thesis
    using hd adm at add region
    by (simp add: decode_payload_def Let_def segment_size_def add.assoc del: of_nat_add length_append)
qed

lemma collect_segments:
  assumes "\<forall>seg \<in> set segs. segment_ok env limits seg" and "admit_all limits st segs = Ok st'"
    and "length segs < 2 ^ 16" and "length (pre @ segment_bytes segs) < 2 ^ 64"
  shows "collect_payloads env
     \<lparr> it_reader = \<lparr> sr_header = header, sr_archive = pre @ segment_bytes segs, sr_pos = length pre, sr_limits = limits,
                    sr_archive_end = word_of_nat (length (pre @ segment_bytes segs)) \<rparr>,
       it_remaining = word_of_nat (length segs), it_state = st, it_failed = False \<rparr> = Ok (place (length pre) segs)"
  using assms
proof (induction segs arbitrary: pre st)
  case Nil
  then show ?case by (simp add: collect_payloads.simps iterator_next_def)
next
  case (Cons seg segs)
  obtain ep mk where seg: "seg = (ep, mk)" by (cases seg)
  let ?archive = "pre @ segment_bytes (seg # segs)" and ?pre = "pre @ write_encoded ep"
  have bytes: "?archive = pre @ write_encoded ep @ segment_bytes segs" "?archive = ?pre @ segment_bytes segs"
    by (simp_all add: segment_bytes_def seg)
  obtain st1 st2 where adm: "admit st (ep_header ep) limits = Ok st1"
    and idx: "admit_indices st1 (index_records (mk 0)) = Ok st2" and rest: "admit_all limits st2 segs = Ok st'"
    using Cons.prems(2) by (auto simp: seg result_simps)
  have ok: "segment_ok env limits (ep, mk)" using Cons.prems(1) seg by simp
  then have pre': "length ?pre = length pre + segment_size (ep, mk)"
    using write_encoded_length [of ep] by (simp add: segment_ok_def segment_size_def)
  note dec = decode_payload_segment [OF ok bytes(1) Cons.prems(4) adm idx]
  have rem: "word_of_nat (length (seg # segs)) \<noteq> (0 :: u16)"
    "word_of_nat (length (seg # segs)) - 1 = (word_of_nat (length segs) :: u16)"
    using Cons.prems(3) unat_word_of_nat [of "Suc (length segs)", where 'a = 16] by auto
  have last: "verify_archive_end ?archive (length ?pre) (word_of_nat (length ?archive)) = Ok ()"
    if "(word_of_nat (length segs) :: u16) = 0"
  proof -
    have "segs = []"
      using that Cons.prems(3) unat_word_of_nat [of "length segs", where 'a = 16] by simp
    then show ?thesis by (simp add: verify_archive_end_def bytes(2) segment_bytes_def seg)
  qed
  let ?it = "\<lambda>pos rem st. \<lparr> it_reader = \<lparr> sr_header = header, sr_archive = ?archive, sr_pos = pos, sr_limits = limits,
      sr_archive_end = word_of_nat (length ?archive) \<rparr>, it_remaining = rem, it_state = st, it_failed = False \<rparr>"
  have "collect_payloads env (?it (length ?pre) (word_of_nat (length segs)) st2) = Ok (place (length ?pre) segs)"
    using Cons.prems(1,3,4) rest unfolding bytes(2) by (intro Cons.IH) simp_all
  moreover have "iterator_next env (?it (length pre) (word_of_nat (length (seg # segs))) st)
      = (Some (Ok (mk (word_of_nat (length pre + STONE_PAYLOAD_HEADER_SIZE)))),
         ?it (length ?pre) (word_of_nat (length segs)) st2)"
    using dec last rem unfolding iterator_next_def by (simp add: Let_def pre' del: of_nat_Suc of_nat_add length_append length_Cons)
  ultimately show ?case
    unfolding collect_payloads.simps [of env "?it (length pre) (word_of_nat (length (seg # segs))) st"]
    by (simp add: seg pre' del: of_nat_Suc of_nat_add length_append length_Cons)
qed

section \<open>Admission of payloads within the limits\<close>

definition headers_fit :: "stone_decode_limits \<Rightarrow> stone_payload_header list \<Rightarrow> bool" where
  "headers_fit limits hs \<longleftrightarrow>
     (\<forall>h \<in> set hs. ph_num_records h \<le> unat (max_records_per_payload limits)
        \<and> ph_stored_size h \<le> max_stored_payload_bytes limits \<and> ph_plain_size h \<le> max_plain_payload_bytes limits)
     \<and> (\<Sum>h\<leftarrow>hs. ph_num_records h) \<le> unat (max_total_records limits)
     \<and> (\<Sum>h\<leftarrow>hs. unat (ph_stored_size h)) \<le> unat (max_total_stored_bytes limits)
     \<and> (\<Sum>h\<leftarrow>hs. unat (ph_plain_size h)) \<le> unat (max_total_plain_bytes limits)
     \<and> (\<Sum>h\<leftarrow>filter (\<lambda>h. is_record_payload (ph_kind h)) hs. unat (ph_plain_size h))
          \<le> unat (max_total_record_bytes limits)"

lemma headers_fit_append: "headers_fit limits (hs @ hs') \<Longrightarrow> headers_fit limits hs"
  by (simp add: headers_fit_def)

lemma checked_total_complete:
  assumes "unat current + unat additional \<le> unat limit"
  shows "\<exists>t. checked_total resource current additional limit = Ok t"
proof -
  have "unat current + unat additional < 2 ^ 64"
    using assms unsigned_less [of limit, where 'a = nat] by simp
  then have c: "checked_add current additional = Some (current + additional)" by (simp add: checked_add_Some_iff)
  then have "\<not> current + additional > limit"
    using checked_add_unat [OF c] assms by (simp add: word_less_nat_alt)
  then show ?thesis by (simp add: checked_total_def enforce_limit_def c)
qed

lemma admit_totals_complete:
  assumes "totals_ok limits hs st" and "headers_fit limits (hs @ [h])" and "ph_num_records h < 2 ^ 32"
  shows "\<exists>st'. admit_totals st h limits = Ok st'"
proof -
  have n: "unat (word_of_nat (ph_num_records h) :: u64) = ph_num_records h"
    using assms(3) by (intro unat_word_of_nat) simp
  have "\<exists>t. checked_total ''aggregate record count'' (ds_records st) (word_of_nat (ph_num_records h))
      (max_total_records limits) = Ok t"
    "\<exists>t. checked_total ''aggregate stored payload bytes'' (ds_stored_bytes st) (ph_stored_size h)
      (max_total_stored_bytes limits) = Ok t"
    "\<exists>t. checked_total ''aggregate plain payload bytes'' (ds_plain_bytes st) (ph_plain_size h)
      (max_total_plain_bytes limits) = Ok t"
    by (rule checked_total_complete, use assms(1,2) n in \<open>simp add: totals_ok_def headers_fit_def\<close>)+
  then show ?thesis by (auto simp: admit_totals_def)
qed

lemma admit_records_complete:
  assumes "records_ok limits hs st" and "headers_fit limits (hs @ [h])" and "validate_minimum_record_bytes h = Ok ()"
  shows "\<exists>st'. admit_records st h limits = Ok st'"
proof (cases "is_record_payload (ph_kind h)")
  case True
  then have "\<exists>t. checked_total ''aggregate record bytes'' (ds_record_bytes st) (ph_plain_size h)
      (max_total_record_bytes limits) = Ok t"
    using assms(1,2) by (intro checked_total_complete) (simp add: records_ok_def headers_fit_def)
  then show ?thesis using assms(3) by (auto simp: admit_records_def)
qed (simp add: admit_records_def)

text \<open>The headers the writer makes: version 1, compressed, with room for their records.\<close>

definition written_header :: "stone_payload_header \<Rightarrow> bool" where
  "written_header h \<longleftrightarrow>
     ph_version h = 1 \<and> ph_compression h = CompressionZstd \<and> ph_num_records h < 2 ^ 32
     \<and> validate_minimum_record_bytes h = Ok ()"

lemma admit_complete:
  assumes acc: "accounts limits hs rs st" and fit: "headers_fit limits (hs @ [h])" and h: "written_header h"
    and content: "ph_kind h = KindContent \<Longrightarrow> \<not> ds_content_seen st \<and> ds_max_index_end st \<le> ph_plain_size h"
  shows "\<exists>st'. admit st h limits = Ok st' \<and> ds_max_index_end st' = ds_max_index_end st
     \<and> (ph_kind h \<noteq> KindContent \<longrightarrow> ds_content_seen st' = ds_content_seen st)"
proof -
  have few: "ph_num_records h < 2 ^ 32" using h by (simp add: written_header_def)
  obtain st1 where 1: "admit_totals st h limits = Ok st1"
    using admit_totals_complete [OF _ fit few] acc by (auto simp: accounts_def)
  then have keep1: "ds_max_index_end st1 = ds_max_index_end st" "ds_content_seen st1 = ds_content_seen st"
    by (auto simp: admit_totals_def result_simps)
  obtain st2 where 2: "admit_records st1 h limits = Ok st2"
    using admit_records_complete [of limits hs st1 h] admit_totals_keeps(1) [OF 1] acc fit h
    by (auto simp: accounts_def written_header_def)
  then have keep2: "ds_max_index_end st2 = ds_max_index_end st" "ds_content_seen st2 = ds_content_seen st"
    using keep1 by (auto simp: admit_records_def result_simps split: if_splits)
  have "\<exists>st3. admit_content st2 h = Ok st3 \<and> ds_max_index_end st3 = ds_max_index_end st
      \<and> (ph_kind h \<noteq> KindContent \<longrightarrow> ds_content_seen st3 = ds_content_seen st)"
    using content keep2 by (cases "ph_kind h = KindContent") (simp_all add: admit_content_def not_less)
  then obtain st3 where 3: "admit_content st2 h = Ok st3" "ds_max_index_end st3 = ds_max_index_end st"
    "ph_kind h \<noteq> KindContent \<longrightarrow> ds_content_seen st3 = ds_content_seen st" by blast
  have "unat (word_of_nat (ph_num_records h) :: u64) = ph_num_records h"
    using few by (intro unat_word_of_nat) simp
  then have "admit st h limits = Ok st3"
    using 1 2 3 fit h
    by (simp add: admit_def enforce_limit_def headers_fit_def written_header_def word_less_nat_alt word_le_nat_alt not_less)
  then show ?thesis using 3 by blast
qed

lemma admit_indices_complete:
  assumes "\<forall>r \<in> set xs. idx_start r \<le> idx_end r \<and> idx_end r \<le> c" and "ds_max_index_end st \<le> c"
    and "ds_content_plain_size st = None"
  shows "\<exists>st'. admit_indices st xs = Ok st' \<and> ds_max_index_end st' \<le> c \<and> ds_content_seen st' = ds_content_seen st"
  using assms
proof (induction xs arbitrary: st)
  case (Cons r xs)
  let ?st = "st\<lparr> ds_max_index_end := max (ds_max_index_end st) (idx_end r) \<rparr>"
  have "\<exists>st'. admit_indices ?st xs = Ok st' \<and> ds_max_index_end st' \<le> c \<and> ds_content_seen st' = ds_content_seen ?st"
    using Cons.prems by (intro Cons.IH) auto
  then show ?case using Cons.prems by (auto simp: Let_def not_less)
qed simp

lemma admit_all_records:
  assumes "accounts limits hs rs st" and "headers_fit limits (hs @ map (\<lambda>seg. ep_header (fst seg)) segs)"
    and "\<forall>(ep, mk) \<in> set segs. written_header (ep_header ep) \<and> ph_kind (ep_header ep) \<noteq> KindContent
           \<and> (\<forall>r \<in> set (index_records (mk 0)). idx_start r \<le> idx_end r \<and> idx_end r \<le> c)"
    and "ds_max_index_end st \<le> c" and "\<not> ds_content_seen st"
  shows "\<exists>st' rs'. admit_all limits st segs = Ok st' \<and> ds_max_index_end st' \<le> c \<and> \<not> ds_content_seen st'
     \<and> accounts limits (hs @ map (\<lambda>seg. ep_header (fst seg)) segs) rs' st'"
  using assms
proof (induction segs arbitrary: hs rs st)
  case (Cons seg segs)
  obtain ep mk where seg: "seg = (ep, mk)" by (cases seg)
  let ?h = "ep_header ep"
  have h: "written_header ?h" "ph_kind ?h \<noteq> KindContent"
    and idx: "\<forall>r \<in> set (index_records (mk 0)). idx_start r \<le> idx_end r \<and> idx_end r \<le> c"
    using Cons.prems(3) seg by auto
  have "headers_fit limits ((hs @ [?h]) @ map (\<lambda>seg. ep_header (fst seg)) segs)" using Cons.prems(2) seg by simp
  note fit = headers_fit_append [OF this]
  obtain st1 where 1: "admit st ?h limits = Ok st1" "ds_max_index_end st1 = ds_max_index_end st"
    "ds_content_seen st1 = ds_content_seen st"
    using admit_complete [OF Cons.prems(1) fit h(1)] h(2) by blast
  have acc1: "accounts limits (hs @ [?h]) rs st1"
    using admit_step [OF Cons.prems(1) 1(1)] h(1) by (simp add: written_header_def)
  then have none: "ds_content_plain_size st1 = None"
    using 1(3) Cons.prems(5) by (auto simp: accounts_def content_ok_def)
  obtain st2 where 2: "admit_indices st1 (index_records (mk 0)) = Ok st2" "ds_max_index_end st2 \<le> c"
    "ds_content_seen st2 = ds_content_seen st1"
    using admit_indices_complete [OF idx _ none] 1(2) Cons.prems(4) by auto
  have "accounts limits (hs @ [?h]) (rs @ index_records (mk 0)) st2"
    using acc1 admit_indices_step [OF _ 2(1)] admit_indices_keeps [OF 2(1)] by (auto simp: accounts_def)
  from Cons.IH [OF this] show ?case
    using Cons.prems 1 2 seg by (auto simp: result_simps)
qed auto

section \<open>Reading a sequence of segments\<close>

definition usable_limits :: "stone_decode_limits \<Rightarrow> bool" where
  "usable_limits limits \<longleftrightarrow>
     validate_limits limits = Ok ()
     \<and> STONE_HEADER_SIZE + unat (max_payloads limits) * STONE_PAYLOAD_HEADER_SIZE + unat (max_total_stored_bytes limits)
         < 2 ^ 63"

lemma usable_default: "usable_limits default_limits"
  by (simp add: usable_limits_def default_limits_def validate_limits_def limit_relationship_def MIB_def GIB_def
      STONE_HEADER_SIZE_def STONE_PAYLOAD_HEADER_SIZE_def)

lemma max_archive_bytes_usable:
  assumes "usable_limits limits"
  obtains mx where "max_archive_bytes limits = Ok mx" "mx \<le> 2 ^ 63 - 1"
    "unat mx = STONE_HEADER_SIZE + unat (max_payloads limits) * STONE_PAYLOAD_HEADER_SIZE + unat (max_total_stored_bytes limits)"
proof -
  let ?p = "word_of_nat STONE_PAYLOAD_HEADER_SIZE :: u64" and ?s = "word_of_nat STONE_HEADER_SIZE :: u64"
  have sizes: "unat ?p = 32" "unat ?s = 32" by (simp_all add: STONE_PAYLOAD_HEADER_SIZE_def STONE_HEADER_SIZE_def)
  have lt: "32 + unat (max_payloads limits) * 32 + unat (max_total_stored_bytes limits) < 2 ^ 63"
    using assms by (simp add: usable_limits_def STONE_PAYLOAD_HEADER_SIZE_def STONE_HEADER_SIZE_def)
  then have m: "checked_mul (max_payloads limits) ?p = Some (max_payloads limits * ?p)"
    using sizes by (simp add: checked_mul_def)
  note um = checked_mul_unat [OF m]
  have a: "checked_add ?s (max_payloads limits * ?p) = Some (?s + max_payloads limits * ?p)"
    using lt sizes um by (simp add: checked_add_Some_iff)
  note ua = checked_add_unat [OF a]
  have b: "checked_add (?s + max_payloads limits * ?p) (max_total_stored_bytes limits)
      = Some (?s + max_payloads limits * ?p + max_total_stored_bytes limits)"
    using lt sizes um ua by (simp add: checked_add_Some_iff)
  note ub = checked_add_unat [OF b]
  show thesis
  proof (rule that)
    show "max_archive_bytes limits = Ok (?s + max_payloads limits * ?p + max_total_stored_bytes limits)"
      by (simp add: max_archive_bytes_def m a b)
    show "?s + max_payloads limits * ?p + max_total_stored_bytes limits \<le> 2 ^ 63 - 1"
      using lt ub ua um sizes by (simp add: word_le_nat_alt)
  qed (use ub ua um sizes in \<open>simp add: STONE_PAYLOAD_HEADER_SIZE_def STONE_HEADER_SIZE_def\<close>)
qed

lemma segment_bytes_length:
  assumes "\<forall>seg \<in> set segs. segment_ok env limits seg"
  shows "length (segment_bytes segs)
    = length segs * STONE_PAYLOAD_HEADER_SIZE + (\<Sum>seg\<leftarrow>segs. unat (ph_stored_size (ep_header (fst seg))))"
  using assms
proof (induction segs)
  case (Cons seg segs)
  obtain ep mk where seg: "seg = (ep, mk)" by (cases seg)
  then have "length (write_encoded ep) = STONE_PAYLOAD_HEADER_SIZE + unat (ph_stored_size (ep_header ep))"
    using Cons.prems write_encoded_length [of ep] by (simp add: segment_ok_def)
  then show ?case using Cons seg by (simp add: segment_bytes_def)
qed (simp add: segment_bytes_def)

lemma read_archive_segments:
  assumes ok: "\<forall>seg \<in> set segs. segment_ok env limits seg"
    and archive: "archive = stone_header_encode (StoneHeaderV1 \<lparr> num_payloads = word_of_nat (length segs), file_type = ft \<rparr>)
        @ segment_bytes segs"
    and few: "length segs < 2 ^ 16" "length segs \<le> unat (max_payloads limits)"
    and usable: "usable_limits limits" and fit: "headers_fit limits (map (\<lambda>seg. ep_header (fst seg)) segs)"
    and adm: "admit_all limits decode_state_default segs = Ok st"
  shows "read_archive env limits archive = Ok (place STONE_HEADER_SIZE segs)"
proof -
  let ?h = "StoneHeaderV1 \<lparr> num_payloads = word_of_nat (length segs), file_type = ft \<rparr>"
  have dec: "stone_header_decode archive = Ok (?h, segment_bytes segs)"
    and hlen: "length (stone_header_encode ?h) = STONE_HEADER_SIZE"
    using stone_header_decode_encode [of ?h "segment_bytes segs"] archive by simp_all
  have len: "length archive = STONE_HEADER_SIZE + length (segment_bytes segs)" using archive hlen by simp
  obtain mx where mx: "max_archive_bytes limits = Ok mx" "mx \<le> 2 ^ 63 - 1"
    "unat mx = STONE_HEADER_SIZE + unat (max_payloads limits) * STONE_PAYLOAD_HEADER_SIZE + unat (max_total_stored_bytes limits)"
    using max_archive_bytes_usable [OF usable] .
  have "(\<Sum>seg\<leftarrow>segs. unat (ph_stored_size (ep_header (fst seg)))) \<le> unat (max_total_stored_bytes limits)"
    using fit by (simp add: headers_fit_def comp_def)
  then have le: "length archive \<le> unat mx"
    using len segment_bytes_length [OF ok] mx(3) few(2) by (simp add: add_mono)
  then have small: "length archive < 2 ^ 64" using unsigned_less [of mx, where 'a = nat] by simp
  then have un: "unat (word_of_nat (length archive) :: u64) = length archive" by (intro unat_word_of_nat) simp
  have n: "unat (word_of_nat (length segs) :: u16) = length segs" using few(1) by (intro unat_word_of_nat) simp
  have pos: "length archive - length (segment_bytes segs) = STONE_HEADER_SIZE" using len by simp
  have empty: "verify_archive_end archive STONE_HEADER_SIZE (word_of_nat (length archive)) = Ok ()"
    if "(word_of_nat (length segs) :: u16) = 0"
  proof -
    have "segs = []" using that n by simp
    then show ?thesis using len by (simp add: verify_archive_end_def segment_bytes_def)
  qed
  let ?reader = "\<lparr> sr_header = ?h, sr_archive = archive, sr_pos = STONE_HEADER_SIZE, sr_limits = limits,
      sr_archive_end = word_of_nat (length archive) \<rparr>"
  have "read_with_limits archive limits = Ok ?reader"
    using usable mx dec pos empty le un n few(2)
    by (simp add: read_with_limits_def usable_limits_def enforce_limit_def Let_def word_less_nat_alt not_less
        word_le_nat_alt del: of_nat_add length_append)
  moreover have "payloads ?reader = Ok \<lparr> it_reader = ?reader, it_remaining = word_of_nat (length segs),
      it_state = decode_state_default, it_failed = False \<rparr>"
    using empty by (simp add: payloads_def Let_def)
  ultimately show ?thesis
    using collect_segments [OF ok adm few(1), of "stone_header_encode ?h" ?h] small hlen archive
    by (simp add: read_archive_def)
qed

section \<open>What the writer makes\<close>

text \<open>
  The documented behaviour of the codecs: a frame decompresses to the bytes it was made of, where the
  size pledged for it was none or the right one; reader and writer use the same digest; the allocator
  grants what is asked for.
\<close>

definition codecs_agree :: "stone_write_env \<Rightarrow> stone_env \<Rightarrow> u32 \<Rightarrow> bool" where
  "codecs_agree wenv renv window \<longleftrightarrow>
     (\<forall>pledged bs. pledged = None \<or> pledged = Some (word_of_nat (length bs))
        \<longrightarrow> (\<exists>z. wr_zstd wenv pledged bs = Ok z \<and> env_unzstd renv window z = Ok (bs, None)))
     \<and> env_xxh3 renv = wr_xxh3 wenv \<and> (\<forall>n. env_alloc renv n)"

fun decoded_of :: "stone_payload_header \<Rightarrow> inner_payload \<Rightarrow> stone_decoded_payload" where
  "decoded_of h (InnerMeta records) = MetaPayload \<lparr> pl_header = h, pl_body = records \<rparr>"
| "decoded_of h (InnerAttributes records) = AttributesPayload \<lparr> pl_header = h, pl_body = records \<rparr>"
| "decoded_of h (InnerLayout records) = LayoutPayload \<lparr> pl_header = h, pl_body = records \<rparr>"
| "decoded_of h (InnerIndex records) = IndexPayload \<lparr> pl_header = h, pl_body = records \<rparr>"

fun records_fit :: "u64 \<Rightarrow> inner_payload \<Rightarrow> bool" where
  "records_fit limit (InnerMeta rs) = list_all (\<lambda>r. meta_storable r \<and> meta_size r \<le> unat limit) rs"
| "records_fit limit (InnerAttributes rs) = list_all (\<lambda>r. attribute_storable r \<and> attribute_size r \<le> unat limit) rs"
| "records_fit limit (InnerLayout rs) = list_all (\<lambda>r. layout_storable r \<and> layout_size r \<le> unat limit) rs"
| "records_fit limit (InnerIndex rs) = list_all (\<lambda>r. index_storable r \<and> index_size r \<le> unat limit) rs"

definition payload_ok :: "stone_write_env \<Rightarrow> stone_decode_limits \<Rightarrow> inner_payload \<Rightarrow> bool" where
  "payload_ok env limits p \<longleftrightarrow>
     (\<forall>c \<in> set (payload_writes p). length c \<le> wr_read_size env) \<and> 0 < wr_read_size env
     \<and> records_fit (max_record_bytes limits) p \<and> length (payload_encode p) < 2 ^ 64
     \<and> payload_num_records p < 2 ^ 32"

lemma encode_payload_Ok:
  assumes "codecs_agree wenv renv window" and "payload_ok wenv limits p"
  obtains z where "wr_zstd wenv (Some (word_of_nat (pledged_size p))) (payload_encode p) = Ok z"
    "env_unzstd renv window z = Ok (payload_encode p, None)"
    "encode_payload wenv p = Ok \<lparr> ep_header =
       \<lparr> ph_stored_size = word_of_nat (length z), ph_plain_size = word_of_nat (length (payload_encode p)),
         ph_checksum = to_be_bytes (wr_xxh3 wenv z), ph_num_records = payload_num_records p, ph_version = 1,
         ph_kind = payload_kind p, ph_compression = CompressionZstd \<rparr>, ep_content = z \<rparr>"
proof -
  obtain w where w: "zstd_write_chunks (wr_read_size wenv) (payload_writes p) (zstd_writer_new []) = Ok w"
    "zw_fed w = payload_encode p" "zw_plain_bytes w = length (payload_encode p)"
    using zstd_write_chunks_fed [of "wr_read_size wenv" "payload_writes p" "zstd_writer_new []"] assms(2)
    by (auto simp: payload_ok_def zstd_writer_new_def concat_payload_writes)
  obtain z where z: "wr_zstd wenv (Some (word_of_nat (pledged_size p))) (payload_encode p) = Ok z"
    "env_unzstd renv window z = Ok (payload_encode p, None)"
    using assms(1) unfolding codecs_agree_def pledged_size_exact by blast
  show thesis using that z w by (simp add: encode_payload_def)
qed

lemma records_total_size_ge: "(\<And>r. k \<le> size_of r) \<Longrightarrow> k * length rs \<le> records_total_size size_of rs"
  by (induction rs) (simp_all add: records_total_size_def add_mono)

lemma minimum_bytes: "minimum_per_record (payload_kind p) = Some k \<Longrightarrow> unat k * payload_num_records p \<le> length (payload_encode p)"
  unfolding pledged_size_exact [symmetric]
  by (cases p)
     (auto intro!: records_total_size_ge simp: meta_size_def attribute_size_def layout_size_def index_size_def)

lemma validate_minimum_complete:
  assumes "ph_kind h = payload_kind p" and "ph_num_records h = payload_num_records p"
    and "unat (ph_plain_size h) = length (payload_encode p)" and "payload_num_records p < 2 ^ 32"
  shows "validate_minimum_record_bytes h = Ok ()"
proof (cases "minimum_per_record (payload_kind p)")
  case (Some k)
  have n: "unat (word_of_nat (payload_num_records p) :: u64) = payload_num_records p"
    using assms(4) by (intro unat_word_of_nat) simp
  have le: "payload_num_records p * unat k \<le> unat (ph_plain_size h)"
    using minimum_bytes [OF Some] assms(3) by (simp add: mult.commute)
  then have m: "checked_mul (word_of_nat (payload_num_records p)) k = Some (word_of_nat (payload_num_records p) * k)"
    using n unsigned_less [of "ph_plain_size h", where 'a = nat] by (simp add: checked_mul_def)
  then have "\<not> word_of_nat (payload_num_records p) * k > ph_plain_size h"
    using checked_mul_unat [OF m] le n by (simp add: word_less_nat_alt)
  then show ?thesis using assms(1,2) Some m by (simp add: validate_minimum_record_bytes_def)
qed (simp add: validate_minimum_record_bytes_def assms)

fun decode_inner :: "stone_env \<Rightarrow> stone_decode_limits \<Rightarrow> stone_payload_header \<Rightarrow> u8 list \<Rightarrow> inner_payload \<Rightarrow> bool" where
  "decode_inner env limits h region (InnerMeta rs) \<longleftrightarrow>
     decode_record_body env limits h (meta_decode (env_alloc env)) region = Ok rs"
| "decode_inner env limits h region (InnerAttributes rs) \<longleftrightarrow>
     decode_record_body env limits h (attribute_decode (env_alloc env)) region = Ok rs"
| "decode_inner env limits h region (InnerLayout rs) \<longleftrightarrow>
     decode_record_body env limits h (layout_decode (env_alloc env)) region = Ok rs"
| "decode_inner env limits h region (InnerIndex rs) \<longleftrightarrow>
     decode_record_body env limits h index_decode region = Ok rs"

lemma decode_inner_encoded:
  assumes reader: "payload_reader env region (ph_compression h) (max_zstd_window_log limits) = Ok (payload_encode p, None)"
    and "length (payload_encode p) = unat (ph_plain_size h)" and "drain_raw env region h = Ok ()"
    and "ph_num_records h = payload_num_records p" and alloc: "\<And>n. env_alloc env n"
    and "records_fit (max_record_bytes limits) p"
  shows "decode_inner env limits h region p"
proof -
  note exact = decode_record_body_exact [OF reader assms(2) _ assms(3)]
  show ?thesis
    using assms(4,6) alloc meta.decode_records_encode [where rest = "[]"] attributes.decode_records_encode [where rest = "[]"]
      layout.decode_records_encode [where rest = "[]"] index.decode_records_encode [where rest = "[]"]
    by (cases p) (auto intro!: exact)
qed

lemma encoded_segment:
  assumes agree: "codecs_agree wenv renv (max_zstd_window_log limits)" and p: "payload_ok wenv limits p"
    and ep: "encode_payload wenv p = Ok ep" and small: "length (ep_content ep) < 2 ^ 64"
  shows "segment_ok renv limits (ep, \<lambda>_. decoded_of (ep_header ep) p)" and "written_header (ep_header ep)"
    and "ph_kind (ep_header ep) = payload_kind p"
proof -
  obtain z where z: "env_unzstd renv (max_zstd_window_log limits) z = Ok (payload_encode p, None)" and
    eq: "ep = \<lparr> ep_header =
       \<lparr> ph_stored_size = word_of_nat (length z), ph_plain_size = word_of_nat (length (payload_encode p)),
         ph_checksum = to_be_bytes (wr_xxh3 wenv z), ph_num_records = payload_num_records p, ph_version = 1,
         ph_kind = payload_kind p, ph_compression = CompressionZstd \<rparr>, ep_content = z \<rparr>"
    using encode_payload_Ok [OF agree p] ep by auto
  let ?h = "ep_header ep"
  have plain: "unat (ph_plain_size ?h) = length (payload_encode p)"
    using p by (simp add: eq payload_ok_def unat_word_of_nat)
  have stored: "unat (ph_stored_size ?h) = length z" using small by (simp add: eq unat_word_of_nat)
  have few: "payload_num_records p < 2 ^ 32" using p by (simp add: payload_ok_def)
  show "ph_kind ?h = payload_kind p" by (simp add: eq)
  show "written_header ?h"
    using validate_minimum_complete [of ?h p] plain few by (simp add: written_header_def eq)
  have "drain_raw renv z ?h = Ok ()"
    using drain_raw_full(1) [of z ?h renv] stored agree by (simp add: eq codecs_agree_def)
  then have "decode_inner renv limits ?h z p"
    using z plain agree p
    by (intro decode_inner_encoded) (simp_all add: eq payload_reader_def codecs_agree_def payload_ok_def)
  then show "segment_ok renv limits (ep, \<lambda>_. decoded_of ?h p)"
    using stored few by (cases p) (simp_all add: segment_ok_def decode_body_def eq)
qed

section \<open>Whole archives\<close>

fun add_payloads :: "stone_write_env \<Rightarrow> stone_writer \<Rightarrow> stone_write_payload list \<Rightarrow> (stone_writer, io_error) result" where
  "add_payloads env w [] = Ok w"
| "add_payloads env w (p # ps) = res_bind (add_payload env w p) (\<lambda>w. add_payloads env w ps)"

fun add_contents ::
    "stone_write_env \<Rightarrow> stone_content_writer \<Rightarrow> u8 list list list \<Rightarrow> (stone_content_writer, io_error) result" where
  "add_contents env cw [] = Ok cw"
| "add_contents env cw (f # fs) = res_bind (add_content env cw f) (\<lambda>cw. add_contents env cw fs)"

text \<open>A package as it is emitted: the record payloads, then the files, each in the chunks it is copied by.\<close>

definition write_archive ::
    "stone_write_env \<Rightarrow> stone_header_v1_file_type \<Rightarrow> stone_write_payload list \<Rightarrow> u64 option \<Rightarrow> u8 list list list
     \<Rightarrow> (u8 list, io_error) result" where
  "write_archive env ft ps pledged files =
     res_bind (add_payloads env (stone_writer_new ft) ps) (\<lambda>w.
     let w = with_content w pledged in
     res_bind (add_contents env (the (sw_content w)) files) (\<lambda>cw.
     finalize_writer env (w\<lparr> sw_content := Some cw \<rparr>)))"

text \<open>The index records of files that lie one after the other from an offset on.\<close>

fun index_from :: "stone_write_env \<Rightarrow> nat \<Rightarrow> u8 list list \<Rightarrow> stone_index_record list" where
  "index_from env off [] = []"
| "index_from env off (f # fs) =
     \<lparr> idx_start = word_of_nat off, idx_end = word_of_nat (off + length f), idx_digest = wr_xxh3_128 env f \<rparr>
     # index_from env (off + length f) fs"

lemma add_payloads_Ok:
  assumes "map (encode_payload env) (map inner_of_write ps) = map Ok eps"
  shows "add_payloads env w ps = Ok (w\<lparr> sw_payloads := sw_payloads w @ eps \<rparr>)"
  using assms
proof (induction ps arbitrary: w eps)
  case (Cons p ps)
  then obtain ep eps' where "eps = ep # eps'" by (cases eps) auto
  then show ?case using Cons.IH [of eps'] Cons.prems by (simp add: add_payload_def)
qed simp

lemma add_contents_Ok:
  assumes "\<forall>f \<in> set files. \<forall>c \<in> set f. length c \<le> wr_read_size env"
    and "cw_plain_size cw = word_of_nat (length (cw_fed cw))"
  shows "\<exists>cw'. add_contents env cw files = Ok cw' \<and> cw_fed cw' = cw_fed cw @ concat (map concat files)
     \<and> cw_plain_size cw' = word_of_nat (length (cw_fed cw')) \<and> cw_pledged cw' = cw_pledged cw
     \<and> cw_indices cw' = cw_indices cw @ index_from env (length (cw_fed cw)) (map concat files)"
  using assms
proof (induction files arbitrary: cw)
  case (Cons f files)
  obtain w where w: "digest_copy (wr_read_size env) f
      \<lparr> dw_bytes = 0, dw_hashed = [], dw_inner = zstd_writer_new (cw_fed cw) \<rparr> = Ok w"
    "dw_bytes w = length (concat f)" "dw_hashed w = concat f" "zw_fed (dw_inner w) = cw_fed cw @ concat f"
    using digest_copy_small [of f "wr_read_size env"
        "\<lparr> dw_bytes = 0, dw_hashed = [], dw_inner = zstd_writer_new (cw_fed cw) \<rparr>"] Cons.prems(1)
    by (auto simp: zstd_writer_new_def)
  let ?n = "length (cw_fed cw) + length (concat f)"
  let ?cw = "cw\<lparr> cw_fed := cw_fed cw @ concat f, cw_plain_size := word_of_nat ?n,
      cw_indices := cw_indices cw @ [\<lparr> idx_start = word_of_nat (length (cw_fed cw)), idx_end = word_of_nat ?n,
                                       idx_digest = wr_xxh3_128 env (concat f) \<rparr>] \<rparr>"
  have "add_content env cw f = Ok ?cw"
    using w Cons.prems(2) by (simp add: add_content_def Let_def)
  moreover have "\<exists>cw'. add_contents env ?cw files = Ok cw' \<and> cw_fed cw' = cw_fed ?cw @ concat (map concat files)
     \<and> cw_plain_size cw' = word_of_nat (length (cw_fed cw')) \<and> cw_pledged cw' = cw_pledged ?cw
     \<and> cw_indices cw' = cw_indices ?cw @ index_from env (length (cw_fed ?cw)) (map concat files)"
    using Cons.prems by (intro Cons.IH) simp_all
  ultimately show ?case by auto
qed simp

lemma index_from_ranges:
  assumes "off + length (concat fs) < 2 ^ 64" and "r \<in> set (index_from env off fs)"
  shows "idx_start r \<le> idx_end r \<and> idx_end r \<le> word_of_nat (off + length (concat fs))"
  using assms
proof (induction fs arbitrary: off)
  case (Cons f fs)
  have un: "unat (word_of_nat n :: u64) = n" if "n \<le> off + length (concat (f # fs))" for n
    using that Cons.prems(1) by (intro unat_word_of_nat) simp
  show ?case
    using Cons.IH [of "off + length f"] Cons.prems un [of off] un [of "off + length f"]
      un [of "off + length (concat (f # fs))"]
    by (auto simp: word_le_nat_alt add.assoc simp del: of_nat_add)
qed simp

definition content_segment :: "u8 list \<Rightarrow> u64 \<Rightarrow> u64 \<Rightarrow> segment" where
  "content_segment buffer plain_size checksum =
     (let h = content_header buffer plain_size checksum
      in (\<lparr> ep_header = h, ep_content = buffer \<rparr>, \<lambda>off. ContentPayload \<lparr> pl_header = h, pl_body = off \<rparr>))"

lemma content_segment_ok:
  assumes "length buffer < 2 ^ 64" and "checksum = env_xxh3 env buffer"
  shows "segment_ok env limits (content_segment buffer plain_size checksum)"
    and "written_header (content_header buffer plain_size checksum)"
proof -
  let ?h = "content_header buffer plain_size checksum"
  have "length buffer = unat (ph_stored_size ?h)"
    using assms(1) by (simp add: content_header_def unat_word_of_nat)
  moreover from this have "read_raw_payload env ?h buffer = Ok ()"
    using assms(2) by (intro drain_raw_full(2)) (simp_all add: content_header_def)
  ultimately show "segment_ok env limits (content_segment buffer plain_size checksum)"
    by (simp add: segment_ok_def content_segment_def Let_def decode_body_def) (simp add: content_header_def)
qed (simp add: written_header_def content_header_def validate_minimum_record_bytes_def)

lemma place_append: "place pos (xs @ ys) = place pos xs @ place (pos + (\<Sum>x\<leftarrow>xs. segment_size x)) ys"
  by (induction xs arbitrary: pos) (auto simp: add.assoc)

lemma place_encoded:
  "length eps = length ps \<Longrightarrow>
     place pos (map2 (\<lambda>ep p. (ep, \<lambda>_. decoded_of (ep_header ep) p)) eps ps) = map2 (\<lambda>ep p. decoded_of (ep_header ep) p) eps ps"
  by (induction eps ps arbitrary: pos rule: list_induct2) auto

lemma write_archive_Ok:
  assumes enc: "map (encode_payload env) (map inner_of_write ps @ [InnerIndex (index_from env 0 (map concat files))]) = map Ok eps"
    and buffer: "wr_zstd env pledged (concat (map concat files)) = Ok buffer"
    and files: "\<forall>f \<in> set files. \<forall>c \<in> set f. length c \<le> wr_read_size env"
  shows "write_archive env ft ps pledged files = Ok (finalize ft eps
     (Some (buffer, word_of_nat (length (concat (map concat files))), wr_xxh3 env buffer)))"
proof -
  let ?cw = "\<lparr> cw_fed = [], cw_plain_size = 0, cw_indices = [], cw_pledged = pledged \<rparr>"
  obtain eps' ep where eps: "eps = eps' @ [ep]" "map (encode_payload env) (map inner_of_write ps) = map Ok eps'"
    "encode_payload env (InnerIndex (index_from env 0 (map concat files))) = Ok ep"
    using enc by (cases eps rule: rev_cases) auto
  obtain cw where cw: "add_contents env ?cw files = Ok cw" "cw_fed cw = concat (map concat files)"
    "cw_plain_size cw = word_of_nat (length (cw_fed cw))" "cw_pledged cw = pledged"
    "cw_indices cw = index_from env 0 (map concat files)"
    using add_contents_Ok [OF files, of ?cw] by auto
  show ?thesis
    using add_payloads_Ok [OF eps(2), of "stone_writer_new ft"] cw eps(1,3) buffer
    by (simp add: write_archive_def with_content_def finalize_writer_def stone_writer_new_def)
qed

section \<open>Unpacking\<close>

lemma unpack_content_iff:
  fixes reader content
  defines "h \<equiv> pl_header content"
    and "region \<equiv> stored_region (sr_archive reader) (unat (pl_body content)) (pl_header content)"
  shows "unpack_content env reader content = (w, Ok ()) \<longleftrightarrow>
           validate_content_reference reader content = Ok ()
           \<and> payload_reader env region (ph_compression h) (max_zstd_window_log (sr_limits reader)) = Ok (w, None)
           \<and> length w = unat (ph_plain_size h)
           \<and> length region = unat (ph_stored_size h) \<and> env_xxh3 env region = from_be_bytes (ph_checksum h)"
    (is "?L \<longleftrightarrow> ?R")
proof
  assume L: ?L
  then obtain framed where v: "validate_content_reference reader content = Ok ()"
    and f: "payload_reader env region (ph_compression h) (max_zstd_window_log (sr_limits reader)) = Ok framed"
    by (auto simp: unpack_content_def Let_def h_def region_def split: result.splits)
  obtain res plain where c: "epr_copy (exact_plain_reader_new framed (ph_plain_size h)) = (w, res, plain)"
    and ok: "res = Ok ()" "drain_raw env region h = Ok ()"
    using L v f by (auto simp: unpack_content_def Let_def h_def region_def result_simps
        split: prod.splits option.splits)
  show ?R
    using v f epr_copy_Ok [of _ w plain] c ok drain_raw_Ok [of env _ _ h]
    by (fastforce simp: exact_plain_reader_new_def h_def region_def)
next
  assume R: ?R
  let ?r = "exact_plain_reader_new (w, None) (ph_plain_size h)"
  have "epr_copy ?r = (w, Ok (), ?r\<lparr> epr_inner := ([], None), epr_emitted := ph_plain_size h \<rparr>)"
    using epr_copy_exact [of ?r w] R by (simp add: exact_plain_reader_new_def)
  moreover have "drain_raw env region h = Ok ()"
    using R by (simp add: drain_raw_def validate_checksum_value_def)
  ultimately show ?L
    using R finish_exact_at_end
    by (simp add: unpack_content_def Let_def h_def region_def exact_plain_reader_new_def size_error_def)
qed

section \<open>Reading back a written package\<close>

text \<open>
  The conditions on a package: texts and field sizes the records can store, buffers the zstd writer
  takes in one call, a right pledge, and as many payloads as the header and the limits allow.
\<close>

definition package_ok ::
    "stone_write_env \<Rightarrow> stone_env \<Rightarrow> stone_decode_limits \<Rightarrow> stone_write_payload list \<Rightarrow> u64 option \<Rightarrow> u8 list list list \<Rightarrow> bool" where
  "package_ok wenv renv limits ps pledged files \<longleftrightarrow>
     codecs_agree wenv renv (max_zstd_window_log limits) \<and> usable_limits limits
     \<and> (\<forall>p \<in> set ps. payload_ok wenv limits (inner_of_write p))
     \<and> payload_ok wenv limits (InnerIndex (index_from wenv 0 (map concat files)))
     \<and> (\<forall>f \<in> set files. \<forall>c \<in> set f. length c \<le> wr_read_size wenv)
     \<and> (pledged = None \<or> pledged = Some (word_of_nat (length (concat (map concat files)))))
     \<and> length (concat (map concat files)) < 2 ^ 64
     \<and> length ps + 2 < 2 ^ 16 \<and> length ps + 2 \<le> unat (max_payloads limits)"

text \<open>What the encoders make of its parts: the encoded record payloads and the frame of the content.\<close>

definition package_encoded ::
    "stone_write_env \<Rightarrow> stone_write_payload list \<Rightarrow> u64 option \<Rightarrow> u8 list list list \<Rightarrow> encoded_payload list \<Rightarrow> u8 list \<Rightarrow> bool" where
  "package_encoded env ps pledged files eps buffer \<longleftrightarrow>
     map (encode_payload env) (map inner_of_write ps @ [InnerIndex (index_from env 0 (map concat files))]) = map Ok eps
     \<and> wr_zstd env pledged (concat (map concat files)) = Ok buffer
     \<and> (\<forall>ep \<in> set eps. length (ep_content ep) < 2 ^ 64) \<and> length buffer < 2 ^ 64"

definition package_content_header :: "stone_write_env \<Rightarrow> u8 list list list \<Rightarrow> u8 list \<Rightarrow> stone_payload_header" where
  "package_content_header env files buffer =
     content_header buffer (word_of_nat (length (concat (map concat files)))) (wr_xxh3 env buffer)"

definition package_payloads ::
    "stone_write_env \<Rightarrow> stone_write_payload list \<Rightarrow> u8 list list list \<Rightarrow> encoded_payload list \<Rightarrow> u8 list \<Rightarrow> stone_decoded_payload list" where
  "package_payloads env ps files eps buffer =
     map2 (\<lambda>ep p. decoded_of (ep_header ep) p) eps
       (map inner_of_write ps @ [InnerIndex (index_from env 0 (map concat files))])
     @ [ContentPayload \<lparr> pl_header = package_content_header env files buffer,
          pl_body = word_of_nat (STONE_HEADER_SIZE + (\<Sum>ep\<leftarrow>eps. STONE_PAYLOAD_HEADER_SIZE + length (ep_content ep))
                      + STONE_PAYLOAD_HEADER_SIZE) \<rparr>]"

definition record_segments :: "encoded_payload list \<Rightarrow> inner_payload list \<Rightarrow> segment list" where
  "record_segments eps inner = map2 (\<lambda>ep p. (ep, \<lambda>_. decoded_of (ep_header ep) p)) eps inner"

lemma record_segments_ok:
  assumes agree: "codecs_agree wenv renv (max_zstd_window_log limits)"
    and ok: "\<forall>p \<in> set inner. payload_ok wenv limits p" and enc: "map (encode_payload wenv) inner = map Ok eps"
    and small: "\<forall>ep \<in> set eps. length (ep_content ep) < 2 ^ 64"
    and idx: "\<And>rs r. InnerIndex rs \<in> set inner \<Longrightarrow> r \<in> set rs \<Longrightarrow> idx_start r \<le> idx_end r \<and> idx_end r \<le> c"
  shows "\<forall>(ep, mk) \<in> set (record_segments eps inner). segment_ok renv limits (ep, mk) \<and> written_header (ep_header ep)
     \<and> ph_kind (ep_header ep) \<noteq> KindContent
     \<and> (\<forall>r \<in> set (index_records (mk 0)). idx_start r \<le> idx_end r \<and> idx_end r \<le> c)"
proof -
  have len: "length eps = length inner" using enc by (metis length_map)
  have "segment_ok renv limits (ep, mk) \<and> written_header (ep_header ep) \<and> ph_kind (ep_header ep) \<noteq> KindContent
     \<and> (\<forall>r \<in> set (index_records (mk 0)). idx_start r \<le> idx_end r \<and> idx_end r \<le> c)"
    if zip: "(ep, p) \<in> set (zip eps inner)" and mk: "mk = (\<lambda>_. decoded_of (ep_header ep) p)" for ep p mk
  proof -
    have mem: "ep \<in> set eps" "p \<in> set inner" using zip by (auto dest: set_zip_leftD set_zip_rightD)
    obtain i where i: "i < length eps" "ep = eps ! i" "p = inner ! i" using zip by (metis in_set_zip fst_conv snd_conv)
    have "encode_payload wenv p = Ok ep" using enc i len by (metis nth_map)
    note seg = encoded_segment [OF agree bspec [OF ok mem(2)] this bspec [OF small mem(1)]]
    have "ph_kind (ep_header ep) \<noteq> KindContent" using seg(3) by (cases p) simp_all
    then show ?thesis using seg mk mem(2) idx by (cases p) auto
  qed
  then show ?thesis by (auto simp: record_segments_def)
qed

lemma record_segments_simps:
  assumes "length eps = length inner"
  shows "map (\<lambda>seg. ep_header (fst seg)) (record_segments eps inner) = map ep_header eps"
    "map fst (record_segments eps inner) = eps" "length (record_segments eps inner) = length eps"
    "segment_bytes (record_segments eps inner) = concat (map write_encoded eps)"
    "(\<Sum>x\<leftarrow>record_segments eps inner. segment_size x) = (\<Sum>ep\<leftarrow>eps. STONE_PAYLOAD_HEADER_SIZE + length (ep_content ep))"
  using assms
  by (induction eps inner rule: list_induct2) (simp_all add: record_segments_def segment_bytes_def segment_size_def)

lemma admit_all_append:
  "admit_all limits st (xs @ ys) = res_bind (admit_all limits st xs) (\<lambda>st. admit_all limits st ys)"
proof (induction xs arbitrary: st)
  case (Cons x xs)
  obtain ep mk where "x = (ep, mk)" by (cases x)
  moreover have "res_bind (res_bind r f) g = res_bind r (\<lambda>x. res_bind (f x) g)"
    for r :: "(decode_state, stone_read_error) result" and f and g :: "decode_state \<Rightarrow> (decode_state, stone_read_error) result"
    by (cases r) simp_all
  ultimately show ?case using Cons.IH by simp
qed simp

lemma not_inner_index: "InnerIndex rs \<noteq> inner_of_write p"
  by (cases p) simp_all

lemma package_segments:
  fixes wenv files buffer eps ps
  defines "inner \<equiv> map inner_of_write ps @ [InnerIndex (index_from wenv 0 (map concat files))]"
  defines "segs \<equiv> record_segments eps inner
     @ [content_segment buffer (word_of_nat (length (concat (map concat files)))) (wr_xxh3 wenv buffer)]"
  assumes ok: "package_ok wenv renv limits ps pledged files"
    and enc: "package_encoded wenv ps pledged files eps buffer"
    and fit: "headers_fit limits (map ep_header eps @ [package_content_header wenv files buffer])"
  shows "\<forall>seg \<in> set segs. segment_ok renv limits seg"
    and "\<exists>st. admit_all limits decode_state_default segs = Ok st"
proof -
  let ?n = "word_of_nat (length (concat (map concat files))) :: u64"
  let ?c = "content_segment buffer ?n (wr_xxh3 wenv buffer)" and ?hc = "package_content_header wenv files buffer"
  have agree: "codecs_agree wenv renv (max_zstd_window_log limits)" using ok by (simp add: package_ok_def)
  have enc': "map (encode_payload wenv) inner = map Ok eps" and small: "length buffer < 2 ^ 64"
    "\<forall>ep \<in> set eps. length (ep_content ep) < 2 ^ 64"
    using enc by (auto simp: package_encoded_def inner_def)
  have len: "length eps = length inner" using enc' by (metis length_map)
  note simps = record_segments_simps [OF len]
  have "\<forall>p \<in> set inner. payload_ok wenv limits p" using ok by (auto simp: package_ok_def inner_def)
  moreover have "idx_start r \<le> idx_end r \<and> idx_end r \<le> ?n" if "InnerIndex rs \<in> set inner" "r \<in> set rs" for rs r
  proof -
    have "rs = index_from wenv 0 (map concat files)"
      using that(1) by (auto simp: inner_def not_inner_index)
    then show ?thesis using index_from_ranges [of 0 "map concat files" r wenv] that(2) ok by (simp add: package_ok_def)
  qed
  ultimately have recs: "\<forall>(ep, mk) \<in> set (record_segments eps inner). segment_ok renv limits (ep, mk)
      \<and> written_header (ep_header ep) \<and> ph_kind (ep_header ep) \<noteq> KindContent
      \<and> (\<forall>r \<in> set (index_records (mk 0)). idx_start r \<le> idx_end r \<and> idx_end r \<le> ?n)"
    using record_segments_ok [OF agree _ enc' small(2), of ?n] by blast
  have ck: "wr_xxh3 wenv buffer = env_xxh3 renv buffer" using agree by (simp add: codecs_agree_def)
  note c = content_segment_ok [OF small(1) ck]
  show "\<forall>seg \<in> set segs. segment_ok renv limits seg" using recs c(1) by (auto simp: segs_def)
  have fit0: "headers_fit limits ([] @ map (\<lambda>seg. ep_header (fst seg)) (record_segments eps inner))"
    using headers_fit_append [OF fit] simps(1) by simp
  have wr: "\<forall>(ep, mk) \<in> set (record_segments eps inner). written_header (ep_header ep)
      \<and> ph_kind (ep_header ep) \<noteq> KindContent
      \<and> (\<forall>r \<in> set (index_records (mk 0)). idx_start r \<le> idx_end r \<and> idx_end r \<le> ?n)"
    using recs by fastforce
  obtain st rs where st: "admit_all limits decode_state_default (record_segments eps inner) = Ok st"
    "ds_max_index_end st \<le> ?n" "\<not> ds_content_seen st" "accounts limits (map ep_header eps) rs st"
    using admit_all_records [OF accounts_default fit0 wr] simps(1) by (auto simp: decode_state_default_def)
  obtain st' where st': "admit st ?hc limits = Ok st'"
    using admit_complete [OF st(4) fit] c(2) st(2,3) by (auto simp: package_content_header_def content_header_def)
  show "\<exists>st. admit_all limits decode_state_default segs = Ok st"
    using st(1) st' by (simp add: segs_def admit_all_append content_segment_def Let_def package_content_header_def)
qed

lemma finalize_segments:
  assumes "length eps = length inner"
  shows "finalize ft eps (Some (buffer, n, ck))
    = stone_header_encode (StoneHeaderV1 \<lparr> num_payloads = word_of_nat (length (record_segments eps inner @ [content_segment buffer n ck])),
        file_type = ft \<rparr>)
      @ segment_bytes (record_segments eps inner @ [content_segment buffer n ck])"
  using record_segments_simps [OF assms]
  by (simp add: finalize_def segment_bytes_def content_segment_def write_encoded_def Let_def add.commute)

lemma package_read_back:
  fixes ft :: stone_header_v1_file_type
  assumes ok: "package_ok wenv renv limits ps pledged files"
    and enc: "package_encoded wenv ps pledged files eps buffer"
    and fit: "headers_fit limits (map ep_header eps @ [package_content_header wenv files buffer])"
  defines "archive \<equiv> finalize ft eps
     (Some (buffer, word_of_nat (length (concat (map concat files))), wr_xxh3 wenv buffer))"
  shows "write_archive wenv ft ps pledged files = Ok archive"
    and "read_archive renv limits archive = Ok (package_payloads wenv ps files eps buffer)"
proof -
  let ?n = "word_of_nat (length (concat (map concat files))) :: u64" and ?ck = "wr_xxh3 wenv buffer"
  let ?inner = "map inner_of_write ps @ [InnerIndex (index_from wenv 0 (map concat files))]"
  let ?segs = "record_segments eps ?inner @ [content_segment buffer ?n ?ck]"
  show "write_archive wenv ft ps pledged files = Ok archive"
    unfolding archive_def using ok enc by (intro write_archive_Ok) (simp_all add: package_ok_def package_encoded_def)
  have len: "length eps = length ?inner" using enc by (metis length_map package_encoded_def)
  note simps = record_segments_simps [OF len]
  obtain st where st: "admit_all limits decode_state_default ?segs = Ok st"
    using package_segments(2) [OF ok enc fit] by blast
  have n: "length ?segs = length ps + 2" using simps(3) len by simp
  have hdrs: "map (\<lambda>seg. ep_header (fst seg)) ?segs = map ep_header eps @ [package_content_header wenv files buffer]"
    using simps(1) by (simp add: content_segment_def Let_def package_content_header_def)
  have "read_archive renv limits archive = Ok (place STONE_HEADER_SIZE ?segs)"
  proof (rule read_archive_segments [OF package_segments(1) [OF ok enc fit] _ _ _ _ _ st])
    show "archive = stone_header_encode (StoneHeaderV1 \<lparr> num_payloads = word_of_nat (length ?segs), file_type = ft \<rparr>)
        @ segment_bytes ?segs"
      unfolding archive_def by (rule finalize_segments [OF len])
  qed (use ok n fit hdrs in \<open>simp_all add: package_ok_def\<close>)
  also have "place STONE_HEADER_SIZE ?segs = package_payloads wenv ps files eps buffer"
    using place_encoded [OF len, of STONE_HEADER_SIZE] simps(5)
    by (simp add: place_append package_payloads_def record_segments_def content_segment_def Let_def package_content_header_def
        del: of_nat_add)
  finally show "read_archive renv limits archive = Ok (package_payloads wenv ps files eps buffer)" .
qed

end
