(* ===== verification/Stone_Properties.thy ===== *)
theory Stone_Properties
  imports Stone_Records
begin

text \<open>
  What the records of a stone archive guarantee: they are read back as they were written, decoding
  yields only records that can be written again, it reads no further than the limits allow, and it asks
  the allocator for no more than the limit of a record.
\<close>

section \<open>What decoding yields\<close>

named_theorems yields_intros \<open>what the results of the reader programs satisfy\<close>

definition yields :: "'a record_read \<Rightarrow> ('a \<Rightarrow> bool) \<Rightarrow> bool" where
  "yields m P \<longleftrightarrow> (\<forall>rr x rr'. m rr = Ok (x, rr') \<longrightarrow> P x)"

lemma yieldsD: "yields m P \<Longrightarrow> m rr = Ok (x, rr') \<Longrightarrow> P x"
  by (auto simp: yields_def)

lemma yields_return: "P x \<Longrightarrow> yields (rd_return x) P"
  by (simp add: yields_def rd_return_def)

lemma yields_fail: "yields (rd_fail e) P"
  by (simp add: yields_def rd_fail_def)

lemma yields_bind: "yields m P \<Longrightarrow> (\<And>x. P x \<Longrightarrow> yields (f x) Q) \<Longrightarrow> yields (rd_bind m f) Q"
  by (fastforce simp: yields_def rd_bind_def result_simps)

lemma yields_any: "(\<And>x. yields (f x) Q) \<Longrightarrow> yields (rd_bind m f) Q"
  by (rule yields_bind [where P = "\<lambda>_. True"]) (simp_all add: yields_def)

lemma yields_if: "(c \<Longrightarrow> yields m P) \<Longrightarrow> (\<not> c \<Longrightarrow> yields m' P) \<Longrightarrow> yields (if c then m else m') P"
  by simp

lemma utf8_char_len_no_nul:
  assumes "utf8_char_len (s @ [0]) \<noteq> 0" and "s \<noteq> []"
  shows "utf8_char_len s = utf8_char_len (s @ [0])"
proof -
  have [simp]: "\<not> is_continuation 0" by (simp add: is_continuation_def)
  consider a where "s = [a]" | a b where "s = [a, b]" | a b c where "s = [a, b, c]"
    | a b c d r where "s = a # b # c # d # r"
    using assms(2) by (metis list.exhaust)
  then show ?thesis
    using assms by cases (auto simp: utf8_char_len_def split: if_splits)
qed

lemma utf8_valid_butlast: "utf8_valid (s @ [0]) \<Longrightarrow> utf8_valid s"
proof (induction s rule: utf8_valid.induct)
  case (1 s)
  show ?case
  proof (cases "s = []")
    case True
    then show ?thesis by (simp add: utf8_valid.simps)
  next
    case False
    then have n: "utf8_char_len (s @ [0]) \<noteq> 0" and rest: "utf8_valid (drop (utf8_char_len (s @ [0])) (s @ [0]))"
      using "1.prems" utf8_valid.simps [of "s @ [0]"] by (auto split: if_splits)
    have same: "utf8_char_len s = utf8_char_len (s @ [0])" using utf8_char_len_no_nul n False by blast
    have "utf8_valid (drop (utf8_char_len s) s)"
      using "1.IH" False n rest same utf8_char_len_le [of s] by simp
    then show ?thesis using n same False utf8_valid.simps [of s] by simp
  qed
qed

lemma trim_end_nul_clean: "utf8_valid s \<Longrightarrow> clean_text (trim_end_nul s)"
proof (induction s rule: rev_induct)
  case Nil
  then show ?case by (simp add: clean_text_def trim_end_nul_def)
next
  case (snoc b s)
  then show ?case
    using utf8_valid_butlast by (cases "b = 0") (auto simp: clean_text_def trim_end_nul_id)
qed

lemma trim_end_nul_length: "length (trim_end_nul s) \<le> length s"
  using length_dropWhile_le [of "\<lambda>b. b = 0" "rev s"] by (simp add: trim_end_nul_def)

lemma rr_read_length: "rr_read n rr = Ok (bs, rr') \<Longrightarrow> length bs \<le> n"
  by (auto simp: rr_read_def Let_def split: if_splits option.splits)

lemma rr_read_exact_length: "rr_read_exact n rr = Ok (bs, rr') \<Longrightarrow> length bs = n"
proof (induction n rr arbitrary: bs rr' rule: rr_read_exact.induct)
  case (1 n rr)
  show ?case
  proof (cases "n = 0")
    case True
    then show ?thesis using "1.prems" by (simp add: rr_read_exact.simps [of 0 rr])
  next
    case False
    then obtain cs rr1 ds where 2: "rr_read n rr = Ok (cs, rr1)" "cs \<noteq> []"
      "rr_read_exact (n - length cs) rr1 = Ok (ds, rr')" "bs = cs @ ds"
      using "1.prems" by (auto simp: rr_read_exact.simps [of n rr] split: result.splits prod.splits if_splits)
    then show ?thesis using "1.IH" [OF False 2(1) refl 2(2,3)] rr_read_length [OF 2(1)] by simp
  qed
qed

lemma yields_array: "yields (rd_array n) (\<lambda>bs. length bs = n)"
  by (auto simp: yields_def rd_array_def result_simps dest: rr_read_exact_length)

lemma yields_sized_vec: "yields (read_sized_vec alloc field len) (\<lambda>bs. length bs = unat len)"
  unfolding read_sized_vec_def read_vec_def by (intro yields_any yields_if yields_array yields_fail)

lemma yields_sized_string:
  "yields (read_sized_string alloc field len) (\<lambda>s. utf8_valid s \<and> length s = unat len)"
  unfolding read_sized_string_def read_string_def read_vec_def
  by (intro yields_any yields_bind [OF yields_if [OF yields_array yields_fail]])
     (simp add: yields_return yields_fail)

lemma yields_layout_text:
  "yields (layout_text alloc field len) (\<lambda>s. clean_text s \<and> length s < 2 ^ 16)"
  unfolding layout_text_def
proof (rule yields_bind [OF yields_sized_string], elim conjE, rule yields_return)
  fix s
  assume "utf8_valid s" "length s = unat (ucast len :: u64)"
  then show "clean_text (trim_end_nul s) \<and> length (trim_end_nul s) < 2 ^ 16"
    using trim_end_nul_clean trim_end_nul_length [of s] unsigned_less [of len, where 'a = nat] by simp
qed

lemma yields_layout_entry:
  "yields (layout_entry_decode alloc t source_length target_length)
     (\<lambda>f. layout_storable \<lparr> lay_uid = uid, lay_gid = gid, lay_mode = mode, lay_tag = tag, lay_file = f \<rparr>)"
  unfolding layout_entry_decode_def
  by (cases t; simp only: layout_file_type.case)
     (intro yields_if yields_fail yields_any yields_bind [OF yields_layout_text] yields_return,
      simp add: layout_storable_def)+

lemma layout_decode_storable: "yields (layout_decode alloc) layout_storable"
  unfolding layout_decode_def
  by (intro yields_any yields_bind [OF yields_layout_entry] yields_return)

lemma yields_meta_text: "yields (meta_text alloc field len) (\<lambda>s. clean_text s \<and> length s \<le> unat len)"
  unfolding meta_text_def
proof (rule yields_bind [OF yields_sized_string], elim conjE, rule yields_return)
  fix s
  assume "utf8_valid s" "length s = unat (ucast len :: u64)"
  then show "clean_text (trim_end_nul s) \<and> length (trim_end_nul s) \<le> unat len"
    using trim_end_nul_clean trim_end_nul_length [of s] by simp
qed

lemma yields_meta_primitive:
  assumes "unat len < 2 ^ 32 - 2"
  shows "yields (meta_primitive_decode alloc kind len)
           (\<lambda>p. meta_storable \<lparr> meta_tag_of = tag, meta_primitive_of = p \<rparr>)"
proof -
  have vec: "yields (read_sized_vec alloc field (ucast len)) (\<lambda>bs. length bs = unat len)" for field
    using yields_sized_vec [of alloc field "ucast len"] by simp
  have dec: "unat (len - 1) < 2 ^ 32 - 2" if "len \<noteq> 0"
    using that assms unat_minus_one [of len] by linarith
  show ?thesis
    unfolding meta_primitive_decode_def
    by (intro yields_if yields_fail yields_any yields_bind [OF yields_meta_text] yields_bind [OF vec] yields_return)
       (use assms dec in \<open>auto simp: meta_storable_def\<close>)
qed

text \<open>The limit of a record bounds the length its metadata primitive declares.\<close>

definition yields_within :: "u64 \<Rightarrow> 'a record_read \<Rightarrow> ('a \<Rightarrow> bool) \<Rightarrow> bool" where
  "yields_within limit m P \<longleftrightarrow>
     (\<forall>rr x rr'. rr_ok rr \<longrightarrow> rr_limit rr = limit \<longrightarrow> m rr = Ok (x, rr') \<longrightarrow> P x)"

lemma yields_withinI: "yields m P \<Longrightarrow> yields_within limit m P"
  by (auto simp: yields_within_def yields_def)

lemma yields_within_ensure: "yields_within limit (ensure_additional field len) (\<lambda>_. unat len \<le> unat limit)"
  by (auto simp: yields_within_def dest: ensure_additional_Ok(2))

lemma yields_within_bind:
  assumes "bounded_read m" and "yields_within limit m P" and "\<And>x. P x \<Longrightarrow> yields_within limit (f x) Q"
  shows "yields_within limit (rd_bind m f) Q"
  unfolding yields_within_def
proof (intro allI impI)
  fix rr y rr'
  assume ok: "rr_ok rr" and limit: "rr_limit rr = limit" and "rd_bind m f rr = Ok (y, rr')"
  then obtain x rr1 where 1: "m rr = Ok (x, rr1)" and 2: "f x rr1 = Ok (y, rr')"
    by (auto simp: rd_bind_def result_simps)
  obtain n where n: "n \<le> rr_remaining rr" "rr1 = rr_advance n rr"
    using assms(1) ok 1 unfolding bounded_read_def by blast
  have "P x" using assms(2) ok limit 1 unfolding yields_within_def by blast
  then show "Q y"
    using assms(3) [of x] rr_advance_simps(1,4) [OF ok n(1)] limit 2 n(2) unfolding yields_within_def by metis
qed

lemma yields_within_any:
  "bounded_read m \<Longrightarrow> (\<And>x. yields_within limit (f x) Q) \<Longrightarrow> yields_within limit (rd_bind m f) Q"
  by (rule yields_within_bind [where P = "\<lambda>_. True"]) (simp_all add: yields_within_def)

lemma meta_decode_storable:
  assumes "unat limit < 2 ^ 32 - 2"
  shows "yields_within limit (meta_decode alloc) meta_storable"
  unfolding meta_decode_def
proof (rule yields_within_any [OF bounded_ints(3)], rule yields_within_any [OF bounded_ints(2)],
    rule yields_within_any [OF bounded_ints(1)], rule yields_within_any [OF bounded_array])
  fix len :: u32 and tag kind
  let ?rest = "rd_bind (meta_primitive_decode alloc kind len)
     (\<lambda>p. rd_return \<lparr> meta_tag_of = meta_tag_of_word tag, meta_primitive_of = p \<rparr>)"
  have "yields ?rest meta_storable" if "unat len \<le> unat limit"
    using that assms by (intro yields_bind [OF yields_meta_primitive] yields_return) simp_all
  then show "yields_within limit (rd_bind (ensure_additional ''metadata primitive'' (ucast len)) (\<lambda>_. ?rest))
      meta_storable"
    by (intro yields_within_bind [OF _ yields_within_ensure] bounded_intros yields_withinI) simp
qed

lemma decode_loop_all:
  assumes "yields_within limit decode P"
  shows "decode_loop decode limit n reader = Ok (rs, rest) \<Longrightarrow> list_all P rs"
proof (induction n arbitrary: reader rs)
  case (Suc n)
  then obtain r rr rs' where r: "decode (record_reader_new reader limit) = Ok (r, rr)"
    and rest: "decode_loop decode limit n (rr_inner rr) = Ok (rs', rest)" and rs: "rs = r # rs'"
    by (auto simp: result_simps)
  have "P r" using assms r unfolding yields_within_def by (meson record_reader_new_simps(2) rr_new_ok)
  then show ?case using Suc.IH [OF rest] rs by simp
qed simp

lemma decode_records_all:
  assumes "yields_within limit decode P" and "decode_records alloc decode reader n limit = Ok (rs, rest)"
  shows "list_all P rs"
  using assms decode_loop_all by (auto simp: decode_records_def split: if_splits)

section \<open>Refusals\<close>

definition rejects :: "'a record_read \<Rightarrow> nat \<Rightarrow> u8 list \<Rightarrow> stone_payload_decode_error \<Rightarrow> bool" where
  "rejects m room bs e \<longleftrightarrow>
     (\<forall>rr rest. rr_ok rr \<longrightarrow> rr_inner rr = bs @ rest \<longrightarrow> room \<le> rr_remaining rr \<longrightarrow> m rr = Err e)"

lemma rd_bind_fail: "rd_bind (rd_fail e) f = rd_fail e"
  by (simp add: rd_bind_def rd_fail_def)

lemma rejects_append_Nil: "rejects m room (bs @ []) e \<Longrightarrow> rejects m room bs e"
  by simp

lemma rejects_first: "rejects m room bs e \<Longrightarrow> rejects (rd_bind m f) room bs e"
  by (simp add: rejects_def rd_bind_def)

lemma rejects_bind:
  assumes m: "reads m room bs x" and f: "rejects (f x) (room - length bs) cs e"
  shows "rejects (rd_bind m f) room (bs @ cs) e"
  unfolding rejects_def
proof (intro allI impI)
  fix rr rest
  assume rr: "rr_ok rr" "rr_inner rr = (bs @ cs) @ rest" "room \<le> rr_remaining rr"
  then have 1: "m rr = Ok (x, rr_advance (length bs) rr)" and le: "length bs \<le> rr_remaining rr"
    using m by (auto simp: reads_def)
  have "f x (rr_advance (length bs) rr) = Err e"
    using f rr rr_advance_simps [OF rr(1) le] by (simp add: rejects_def)
  then show "rd_bind m f rr = Err e" using 1 by (simp add: rd_bind_def)
qed

definition layout_record_header :: "stone_layout_record \<Rightarrow> u16 \<Rightarrow> u16 \<Rightarrow> u8 \<Rightarrow> u8 list" where
  "layout_record_header r source_length target_length type_byte =
     to_be_bytes (lay_uid r) @ to_be_bytes (lay_gid r) @ to_be_bytes (lay_mode r) @ to_be_bytes (lay_tag r)
     @ to_be_bytes source_length @ to_be_bytes target_length @ [type_byte] @ replicate 11 0"

lemma layout_header_rejects:
  assumes entry: "\<And>room. rejects (layout_entry_decode alloc (layout_file_type_of_byte ty) sn tn) room [] e"
    and room: "32 + unat sn + unat tn \<le> room"
  shows "rejects (layout_decode alloc) room (layout_record_header r sn tn ty) e"
proof -
  have "unat sn < 2 ^ 16" "unat tn < 2 ^ 16" using unsigned_less [of sn, where 'a = nat] unsigned_less [of tn, where 'a = nat] by simp_all
  then have sum: "checked_add (ucast sn :: u64) (ucast tn) = Some (ucast sn + ucast tn)"
    by (simp add: checked_add_Some_iff)
  then have sum_nat: "unat (ucast sn + ucast tn :: u64) = unat sn + unat tn"
    using checked_add_unat by fastforce
  have body: "rejects (rd_bind (rd_option (checked_add (ucast sn :: u64) (ucast tn)) e1) (\<lambda>n.
      rd_bind (ensure_additional field n) (\<lambda>_.
      rd_bind (layout_entry_decode alloc (layout_file_type_of_byte ty) sn tn) f))) room' [] e"
    if "unat sn + unat tn \<le> room'" for room' e1 field and f :: "layout_file \<Rightarrow> stone_layout_record record_read"
  proof -
    have "rejects (rd_bind (ensure_additional field (ucast sn + ucast tn)) (\<lambda>_.
      rd_bind (layout_entry_decode alloc (layout_file_type_of_byte ty) sn tn) f)) room' ([] @ []) e"
      using that sum_nat by (intro rejects_bind [OF reads_ensure_additional] rejects_first entry) simp
    then show ?thesis by (simp add: sum rd_option_def rd_bind_def rd_return_def)
  qed
  show ?thesis
    unfolding layout_decode_def layout_record_header_def
    by (rule rejects_append_Nil, unfold append_assoc,
        intro rejects_bind [OF reads_ints(3)] rejects_bind [OF reads_ints(2)] rejects_bind [OF reads_ints(1)]
          rejects_bind [OF reads_array] body)
       (use room in simp_all)
qed

section \<open>Samples\<close>

definition sample_meta :: "stone_meta_record list" where
  "sample_meta =
     [\<lparr> meta_tag_of = TagName, meta_primitive_of = MetaString [99, 97, 115, 116] \<rparr>,
      \<lparr> meta_tag_of = TagRelease, meta_primitive_of = MetaUint64 7 \<rparr>,
      \<lparr> meta_tag_of = TagDepends, meta_primitive_of = MetaDependency DepSharedLibrary [108, 105, 98, 99, 46, 115, 111, 46, 54] \<rparr>]"

definition sample_layout :: "stone_layout_record list" where
  "sample_layout =
     [\<lparr> lay_uid = 0, lay_gid = 0, lay_mode = 16877, lay_tag = 0, lay_file = LayoutDirectory [98, 105, 110] \<rparr>,
      \<lparr> lay_uid = 0, lay_gid = 0, lay_mode = 33261, lay_tag = 0,
        lay_file = LayoutRegular 0xABCDEF [98, 105, 110, 47, 99, 97, 115, 116] \<rparr>]"

lemmas text_simps = clean_text_def utf8_valid.simps utf8_char_len_def is_continuation_def

lemma sample_meta_storable: "list_all (\<lambda>r. meta_storable r \<and> meta_size r \<le> unat (4096 :: u64)) sample_meta"
  by (simp add: sample_meta_def meta_storable_def meta_size_def text_simps)

lemma sample_layout_storable: "list_all (\<lambda>r. layout_storable r \<and> layout_size r \<le> unat (4096 :: u64)) sample_layout"
  by (simp add: sample_layout_def layout_storable_def layout_size_def text_simps)

lemma sample_lengths: "length sample_meta = 3" "length sample_layout = 2"
  by (simp_all add: sample_meta_def sample_layout_def)

lemma sample_layout_decoded:
  "decode_records (\<lambda>_. True) (layout_decode (\<lambda>_. True)) (encode_records layout_encode sample_layout @ rest) 2 4096
   = Ok (sample_layout, rest)"
  using layout.decode_records_encode [OF sample_layout_storable, of "\<lambda>_. True" rest]
  by (simp only: sample_lengths simp_thms)

lemma sample_meta_decoded:
  "decode_records (\<lambda>_. True) (meta_decode (\<lambda>_. True)) (encode_records meta_encode sample_meta @ rest) 3 4096
   = Ok (sample_meta, rest)"
  using meta.decode_records_encode [OF sample_meta_storable, of "\<lambda>_. True" rest]
  by (simp only: sample_lengths simp_thms)

section \<open>Properties of the record codecs\<close>

text \<open>
  C11: a metadata payload is read back as it was written. Decoding as many records as were encoded, from
  their bytes followed by anything, returns exactly those records and leaves exactly what followed, as
  long as every record fits the record limit, its texts are UTF-8 without trailing NUL, and the allocator
  grants sizes up to the limit.
\<close>

theorem meta_records_round_trip:
  assumes "list_all (\<lambda>r. meta_storable r \<and> meta_size r \<le> unat limit) rs"
    and "\<And>n. n \<le> unat limit \<Longrightarrow> alloc n" and "alloc (length rs)"
  shows "decode_records alloc (meta_decode alloc) (encode_records meta_encode rs @ rest) (length rs) limit
         = Ok (rs, rest)"
  using assms by (rule meta.decode_records_encode)

theorem meta_records_round_trip_witness:
  "decode_records (\<lambda>_. True) (meta_decode (\<lambda>_. True)) (encode_records meta_encode sample_meta @ [1, 2, 3]) 3 4096
   = Ok (sample_meta, [1, 2, 3])"
  using meta_records_round_trip [OF sample_meta_storable, of "\<lambda>_. True" "[1, 2, 3]"]
  by (simp only: sample_lengths simp_thms)

text \<open>
  C12: a layout payload is read back as it was written, under the same conditions; the lengths of a
  record's source and target are those a 16-bit field can hold.
\<close>

theorem layout_records_round_trip:
  assumes "list_all (\<lambda>r. layout_storable r \<and> layout_size r \<le> unat limit) rs"
    and "\<And>n. n \<le> unat limit \<Longrightarrow> alloc n" and "alloc (length rs)"
  shows "decode_records alloc (layout_decode alloc) (encode_records layout_encode rs @ rest) (length rs) limit
         = Ok (rs, rest)"
  using assms by (rule layout.decode_records_encode)

theorem layout_records_round_trip_witness:
  "decode_records (\<lambda>_. True) (layout_decode (\<lambda>_. True)) (encode_records layout_encode sample_layout @ [9]) 2 4096
   = Ok (sample_layout, [9])"
  using layout_records_round_trip [OF sample_layout_storable, of "\<lambda>_. True" "[9]"]
  by (simp only: sample_lengths simp_thms)

text \<open>
  C13: whatever bytes a layout payload holds, every record that decoding returns can be written again: its
  source and target are UTF-8 without trailing NUL and short enough for the length fields.
\<close>

theorem decoded_layout_storable:
  assumes "decode_records alloc (layout_decode alloc) reader n limit = Ok (rs, rest)"
  shows "list_all layout_storable rs"
  using assms by (rule decode_records_all [OF yields_withinI [OF layout_decode_storable]])

theorem decoded_layout_storable_witness: "list_all layout_storable sample_layout"
  by (rule decoded_layout_storable [OF sample_layout_decoded])

text \<open>
  Under a record limit below 4 GiB (the default is 64 MiB), every metadata record that decoding
  returns can be written again, whatever the bytes were.
\<close>

theorem decoded_meta_storable:
  assumes "unat limit < 2 ^ 32 - 2" and "decode_records alloc (meta_decode alloc) reader n limit = Ok (rs, rest)"
  shows "list_all meta_storable rs"
  using assms(2) by (rule decode_records_all [OF meta_decode_storable [OF assms(1)]])

theorem decoded_meta_storable_witness: "list_all meta_storable sample_meta"
  by (rule decoded_meta_storable [OF _ sample_meta_decoded]) simp

text \<open>
  C14: the lengths an attribute payload declares cannot make the decoder reserve memory beyond its record
  limit: two allocators that agree on the record count and on every size up to the limit give the same
  result on the same bytes.
\<close>

theorem attribute_reservations_bounded:
  assumes "\<forall>k \<le> unat limit. a k = a' k" and "a n = a' n"
  shows "decode_records a (attribute_decode a) reader n limit = decode_records a' (attribute_decode a') reader n limit"
  using assms by (rule attributes.decode_records_local)

theorem attribute_reservations_bounded_witness:
  "decode_records (\<lambda>_. True) (attribute_decode (\<lambda>_. True)) (replicate 16 255) 1 64
   = decode_records (\<lambda>k. k \<le> 64) (attribute_decode (\<lambda>k. k \<le> 64)) (replicate 16 255) 1 64"
  using attribute_reservations_bounded [of 64 "\<lambda>_. True" "\<lambda>k. k \<le> 64" 1 "replicate 16 255"] by simp

text \<open>
  Decoding a layout payload returns as many records as the header declares and reads a prefix of the
  payload no longer than that many record limits.
\<close>

theorem layout_decode_consumes:
  assumes "decode_records alloc (layout_decode alloc) reader n limit = Ok (rs, rest)"
  shows "length rs = n \<and> (\<exists>bs. reader = bs @ rest \<and> length bs \<le> n * unat limit)"
  using assms layout.decode_loop_consumes by (auto simp: decode_records_def split: if_splits)

theorem layout_decode_consumes_witness:
  "length sample_layout = 2
   \<and> (\<exists>bs. encode_records layout_encode sample_layout @ [9] = bs @ [9] \<and> length bs \<le> 2 * unat (4096 :: u64))"
  by (rule layout_decode_consumes [OF sample_layout_decoded])

text \<open>
  C15: a layout record whose declared source cannot belong to its file type is refused, whatever
  follows its header: a regular file needs a 16-byte digest, a directory, device, FIFO or socket needs
  none. The error names the field and the declared length.
\<close>

theorem layout_source_refused:
  assumes "rr_ok rr" and "rr_inner rr = layout_record_header r sn tn ty @ rest"
    and "32 + unat sn + unat tn \<le> rr_remaining rr"
  defines "t \<equiv> layout_file_type_of_byte ty"
  shows "(t = TypeRegular \<and> sn \<noteq> 16
            \<longrightarrow> layout_decode alloc rr = Err (InvalidLength ''regular layout digest'' 16 (ucast sn)))
       \<and> (t \<in> {TypeDirectory, TypeCharacterDevice, TypeBlockDevice, TypeFifo, TypeSocket} \<and> sn \<noteq> 0
            \<longrightarrow> layout_decode alloc rr = Err (InvalidLength (empty_source_field t) 0 (ucast sn)))"
proof -
  have refused: "layout_decode alloc rr = Err e"
    if "layout_entry_decode alloc t sn tn = rd_fail e" for e
    using layout_header_rejects [of alloc ty sn tn e "rr_remaining rr" r] that assms
    by (simp add: rejects_def t_def rd_fail_def)
  show ?thesis
  proof (intro conjI impI; elim conjE)
    assume "t = TypeRegular" "sn \<noteq> 16"
    then show "layout_decode alloc rr = Err (InvalidLength ''regular layout digest'' 16 (ucast sn))"
      by (intro refused) (simp add: layout_entry_decode_def)
  next
    assume "t \<in> {TypeDirectory, TypeCharacterDevice, TypeBlockDevice, TypeFifo, TypeSocket}" "sn \<noteq> 0"
    then show "layout_decode alloc rr = Err (InvalidLength (empty_source_field t) 0 (ucast sn))"
      by (intro refused) (auto simp: layout_entry_decode_def require_empty_source_def rd_bind_fail)
  qed
qed

theorem layout_source_refused_witness:
  "layout_decode (\<lambda>_. True)
     (record_reader_new (layout_record_header (sample_layout ! 0) 5 3 3 @ [1, 2, 3, 4, 5, 98, 105, 110]) 4096)
   = Err (InvalidLength ''directory layout source'' 0 5)"
  using layout_source_refused [of "record_reader_new (layout_record_header (sample_layout ! 0) 5 3 3
      @ [1, 2, 3, 4, 5, 98, 105, 110]) 4096" "sample_layout ! 0" 5 3 3 "[1, 2, 3, 4, 5, 98, 105, 110]" "\<lambda>_. True"]
  by (simp add: layout_file_type_of_byte_def)

text \<open>
  A payload header is 32 bytes and is read back as it was written, when its checksum is 8 bytes and
  its record count fits the 32-bit field.
\<close>

theorem payload_header_round_trip:
  assumes "length (ph_checksum h) = 8" and "ph_num_records h < 2 ^ 32"
  shows "payload_header_decode (payload_header_encode h @ rest) = Ok (h, rest)
         \<and> length (payload_header_encode h) = STONE_PAYLOAD_HEADER_SIZE"
  using assms by (rule payload_header_decode_encode)

theorem payload_header_round_trip_witness:
  "payload_header_decode (payload_header_encode \<lparr> ph_stored_size = 100, ph_plain_size = 250,
       ph_checksum = [1, 2, 3, 4, 5, 6, 7, 8], ph_num_records = 3, ph_version = 1, ph_kind = KindMeta,
       ph_compression = CompressionZstd \<rparr> @ [7])
   = Ok (\<lparr> ph_stored_size = 100, ph_plain_size = 250,
       ph_checksum = [1, 2, 3, 4, 5, 6, 7, 8], ph_num_records = 3, ph_version = 1, ph_kind = KindMeta,
       ph_compression = CompressionZstd \<rparr>, [7])"
  by (rule conjunct1 [OF payload_header_round_trip]) simp_all

end
