(* ===== verification/Stone_Archive_Properties.thy ===== *)
theory Stone_Archive_Properties
  imports Stone_Archive Stone_Properties
begin

text \<open>
  The guarantees of stone archives as a whole: what was written is read back, what was read is
  accounted for to the last byte, and where the writer's byte count is wrong.
\<close>

section \<open>Content\<close>

lemma index_from_slices:
  assumes "off + length (concat fs) < 2 ^ 64" and "i < length fs"
  shows "index_from env off fs ! i =
     \<lparr> idx_start = word_of_nat (off + length (concat (take i fs))),
       idx_end = word_of_nat (off + length (concat (take (Suc i) fs))), idx_digest = wr_xxh3_128 env (fs ! i) \<rparr>"
  using assms
proof (induction fs arbitrary: off i)
  case (Cons f fs)
  then show ?case using Cons.IH [of "off + length f"] by (cases i) (simp_all add: add.assoc del: of_nat_add)
qed simp

lemma concat_slice:
  assumes "i < length fs"
  shows "take (length (fs ! i)) (drop (length (concat (take i fs))) (concat fs)) = fs ! i"
proof -
  have "concat fs = concat (take i fs) @ fs ! i @ concat (drop (Suc i) fs)"
    using id_take_nth_drop [OF assms] by (metis concat.simps(2) concat_append)
  then show ?thesis by simp
qed

lemma index_cuts_file:
  fixes fs and env :: stone_write_env and i :: nat
  assumes "length (concat fs) < 2 ^ 64" and "i < length fs"
  defines "r \<equiv> index_from env 0 fs ! i"
  shows "take (unat (idx_end r) - unat (idx_start r)) (drop (unat (idx_start r)) (concat fs)) = fs ! i"
proof -
  have "length (concat (take i fs)) \<le> length (concat fs)" "length (concat (take (Suc i) fs)) \<le> length (concat fs)"
    by (metis append_take_drop_id concat_append le_add1 length_append)+
  then have un: "unat (idx_start r) = length (concat (take i fs))" "unat (idx_end r) = length (concat (take (Suc i) fs))"
    using index_from_slices [of 0 fs i env] assms by (simp_all add: unat_word_of_nat)
  have "length (concat (take (Suc i) fs)) = length (concat (take i fs)) + length (fs ! i)"
    using assms(2) by (simp add: take_Suc_conv_app_nth)
  then show ?thesis using un concat_slice [OF assms(2)] by simp
qed

lemma package_archive_bytes:
  assumes ok: "package_ok wenv renv limits ps pledged files"
    and enc: "package_encoded wenv ps pledged files eps buffer"
    and fit: "headers_fit limits (map ep_header eps @ [package_content_header wenv files buffer])"
    and archive: "archive = finalize ft eps
     (Some (buffer, word_of_nat (length (concat (map concat files))), wr_xxh3 wenv buffer))"
  shows "length archive < 2 ^ 63"
    and "\<exists>pre. archive = pre @ buffer \<and> length pre = STONE_HEADER_SIZE
       + (\<Sum>ep\<leftarrow>eps. STONE_PAYLOAD_HEADER_SIZE + length (ep_content ep)) + STONE_PAYLOAD_HEADER_SIZE"
proof -
  let ?n = "word_of_nat (length (concat (map concat files))) :: u64" and ?ck = "wr_xxh3 wenv buffer"
  let ?inner = "map inner_of_write ps @ [InnerIndex (index_from wenv 0 (map concat files))]"
  let ?recs = "record_segments eps ?inner" and ?c = "content_segment buffer ?n ?ck"
  have len: "length eps = length ?inner" using enc by (metis length_map package_encoded_def)
  note simps = record_segments_simps [OF len]
  note seg = package_segments(1) [OF ok enc fit]
  have hdrs: "map (\<lambda>seg. ep_header (fst seg)) (?recs @ [?c]) = map ep_header eps @ [package_content_header wenv files buffer]"
    using simps(1) by (simp add: content_segment_def Let_def package_content_header_def)
  have "(\<Sum>seg\<leftarrow>?recs @ [?c]. unat (ph_stored_size (ep_header (fst seg))))
      = (\<Sum>h\<leftarrow>map (\<lambda>seg. ep_header (fst seg)) (?recs @ [?c]). unat (ph_stored_size h))"
    by (simp add: comp_def)
  also have "\<dots> \<le> unat (max_total_stored_bytes limits)" using fit unfolding hdrs by (simp add: headers_fit_def)
  finally have stored: "(\<Sum>seg\<leftarrow>?recs @ [?c]. unat (ph_stored_size (ep_header (fst seg)))) \<le> unat (max_total_stored_bytes limits)" .
  have "length (?recs @ [?c]) * STONE_PAYLOAD_HEADER_SIZE \<le> unat (max_payloads limits) * STONE_PAYLOAD_HEADER_SIZE"
    using ok simps(3) len by (intro mult_right_mono) (simp_all add: package_ok_def)
  then have "length archive \<le> STONE_HEADER_SIZE + unat (max_payloads limits) * STONE_PAYLOAD_HEADER_SIZE + unat (max_total_stored_bytes limits)"
    using stored segment_bytes_length [OF seg]
    unfolding archive finalize_segments [OF len]
    by (simp add: length_stone_header_encode del: stone_header_encode.simps)
  then show "length archive < 2 ^ 63" using ok by (simp add: package_ok_def usable_limits_def)
  have recs: "set eps = fst ` set ?recs" using arg_cong [OF simps(2), of set] by simp
  have "length (write_encoded ep) = STONE_PAYLOAD_HEADER_SIZE + length (ep_content ep)" if mem: "ep \<in> set eps" for ep
  proof -
    obtain mk where "(ep, mk) \<in> set ?recs" using mem unfolding recs by auto
    then have "segment_ok renv limits (ep, mk)" using seg by simp
    then show ?thesis using write_encoded_length [of ep] by (simp add: segment_ok_def)
  qed
  then have "length (concat (map write_encoded eps)) = (\<Sum>ep\<leftarrow>eps. STONE_PAYLOAD_HEADER_SIZE + length (ep_content ep))"
    by (simp add: length_concat comp_def cong: map_cong)
  moreover have "length (payload_header_encode (content_header buffer ?n ?ck)) = STONE_PAYLOAD_HEADER_SIZE"
    using payload_header_decode_encode [of "content_header buffer ?n ?ck"] by (simp add: content_header_def)
  ultimately show "\<exists>pre. archive = pre @ buffer \<and> length pre = STONE_HEADER_SIZE
       + (\<Sum>ep\<leftarrow>eps. STONE_PAYLOAD_HEADER_SIZE + length (ep_content ep)) + STONE_PAYLOAD_HEADER_SIZE"
    unfolding archive finalize_def
    by (intro exI [of _ "stone_header_encode (StoneHeaderV1 \<lparr> num_payloads = word_of_nat (length eps) + 1, file_type = ft \<rparr>)
        @ concat (map write_encoded eps) @ payload_header_encode (content_header buffer ?n ?ck)"])
       (simp add: length_stone_header_encode del: stone_header_encode.simps)
qed

lemma codecs_agree_unzstd:
  assumes "codecs_agree wenv renv window" and "pledged = None \<or> pledged = Some (word_of_nat (length bs))"
    and "wr_zstd wenv pledged bs = Ok z"
  shows "env_unzstd renv window z = Ok (bs, None)"
proof -
  obtain z' where "wr_zstd wenv pledged bs = Ok z'" "env_unzstd renv window z' = Ok (bs, None)"
    using assms(1,2) unfolding codecs_agree_def by blast
  then show ?thesis using assms(3) by simp
qed

lemma package_content_unpacks:
  assumes ok: "package_ok wenv renv limits ps pledged files"
    and enc: "package_encoded wenv ps pledged files eps buffer"
    and fit: "headers_fit limits (map ep_header eps @ [package_content_header wenv files buffer])"
    and written: "write_archive wenv ft ps pledged files = Ok archive"
    and reader: "read_with_limits archive limits = Ok reader"
    and content: "ContentPayload content \<in> set (package_payloads wenv ps files eps buffer)"
  shows "unpack_content renv reader content = (concat (map concat files), Ok ())"
proof -
  let ?plain = "concat (map concat files)" and ?hc = "package_content_header wenv files buffer"
  let ?pos = "STONE_HEADER_SIZE + (\<Sum>ep\<leftarrow>eps. STONE_PAYLOAD_HEADER_SIZE + length (ep_content ep)) + STONE_PAYLOAD_HEADER_SIZE"
  have archive: "archive = finalize ft eps (Some (buffer, word_of_nat (length ?plain), wr_xxh3 wenv buffer))"
    using package_read_back(1) [OF ok enc fit, of ft] written by simp
  note bytes = package_archive_bytes [OF ok enc fit archive]
  obtain pre where pre: "archive = pre @ buffer" "length pre = ?pos" using bytes(2) by blast
  have decoded: "ContentPayload c \<noteq> decoded_of h p" for h p c by (cases p) simp_all
  have c: "content = \<lparr> pl_header = ?hc, pl_body = word_of_nat ?pos \<rparr>"
    using content decoded unfolding package_payloads_def by (auto simp del: of_nat_add)
  have rd: "sr_archive reader = archive" "sr_limits reader = limits" "sr_archive_end reader = word_of_nat (length archive)"
    using reader by (auto simp: read_with_limits_def result_simps Let_def)
  have small: "length buffer < 2 ^ 64" "length ?plain < 2 ^ 64" using enc ok by (simp_all add: package_encoded_def package_ok_def)
  have un: "unat (word_of_nat ?pos :: u64) = ?pos" "unat (word_of_nat (length archive) :: u64) = length archive"
    by (rule unat_word_of_nat, use bytes(1) pre in simp)+
  have hc: "unat (ph_stored_size ?hc) = length buffer" "unat (ph_plain_size ?hc) = length ?plain"
    using small by (simp_all add: package_content_header_def content_header_def unat_word_of_nat)
  have add: "checked_add (word_of_nat ?pos) (ph_stored_size ?hc) = Some (word_of_nat ?pos + ph_stored_size ?hc)"
    using bytes(1) pre un hc by (simp add: checked_add_Some_iff del: of_nat_add)
  have lim: "\<not> ph_stored_size ?hc > max_stored_payload_bytes limits" "\<not> ph_plain_size ?hc > max_plain_payload_bytes limits"
    using fit by (simp_all add: headers_fit_def not_less)
  have kind: "ph_kind ?hc = KindContent" "ph_version ?hc = 1" "ph_compression ?hc = CompressionZstd"
    by (simp_all add: package_content_header_def content_header_def)
  have "unat (word_of_nat STONE_HEADER_SIZE :: u64) = STONE_HEADER_SIZE" by (simp add: STONE_HEADER_SIZE_def)
  then have "\<not> (word_of_nat ?pos :: u64) < word_of_nat STONE_HEADER_SIZE"
    using un by (simp add: word_less_nat_alt del: of_nat_add)
  moreover have "\<not> word_of_nat ?pos + ph_stored_size ?hc > (word_of_nat (length archive) :: u64)"
    using checked_add_unat [OF add] un hc pre by (simp add: word_less_nat_alt del: of_nat_add)
  ultimately have "validate_content_reference reader content = Ok ()"
    using lim kind add by (simp add: validate_content_reference_def Let_def c rd enforce_limit_def del: of_nat_add)
  moreover have "stored_region (sr_archive reader) (unat (pl_body content)) (pl_header content) = buffer"
    using pre un hc by (simp add: stored_region_def rd c del: of_nat_add)
  moreover have "env_unzstd renv (max_zstd_window_log limits) buffer = Ok (?plain, None)"
    by (rule codecs_agree_unzstd [of wenv _ _ pledged]) (use ok enc in \<open>simp_all add: package_ok_def package_encoded_def\<close>)
  moreover have "env_xxh3 renv buffer = from_be_bytes (ph_checksum ?hc)"
    using ok by (simp add: package_ok_def codecs_agree_def package_content_header_def content_header_def)
  ultimately show ?thesis
    unfolding unpack_content_iff using hc kind by (simp add: c rd payload_reader_def)
qed

section \<open>A sample package\<close>

text \<open>The identity as the compression, the length as the digest.\<close>

definition sample_wenv :: stone_write_env where
  "sample_wenv = \<lparr> wr_read_size = 131072, wr_zstd = (\<lambda>_ bs. Ok bs), wr_xxh3 = (\<lambda>bs. word_of_nat (length bs)),
     wr_xxh3_128 = (\<lambda>bs. word_of_nat (length bs)) \<rparr>"

definition sample_renv :: stone_env where
  "sample_renv = \<lparr> env_alloc = (\<lambda>_. True), env_unzstd = (\<lambda>_ bs. Ok (bs, None)),
     env_xxh3 = (\<lambda>bs. word_of_nat (length bs)) \<rparr>"

definition sample_payloads :: "stone_write_payload list" where
  "sample_payloads = [WriteMeta sample_meta, WriteLayout sample_layout]"

definition sample_files :: "u8 list list list" where
  "sample_files = [[[1, 2, 3]], [[4], [5]]]"

definition sample_encoded :: "inner_payload \<Rightarrow> encoded_payload" where
  "sample_encoded p =
     (let z = payload_encode p in
      \<lparr> ep_header = \<lparr> ph_stored_size = word_of_nat (length z), ph_plain_size = word_of_nat (length z),
          ph_checksum = to_be_bytes (word_of_nat (length z) :: u64), ph_num_records = payload_num_records p, ph_version = 1,
          ph_kind = payload_kind p, ph_compression = CompressionZstd \<rparr>, ep_content = z \<rparr>)"

definition sample_inner :: "inner_payload list" where
  "sample_inner = map inner_of_write sample_payloads @ [InnerIndex (index_from sample_wenv 0 (map concat sample_files))]"

lemma sample_codecs: "codecs_agree sample_wenv sample_renv window"
  by (simp add: codecs_agree_def sample_wenv_def sample_renv_def)

lemma sample_encode_payload:
  assumes "payload_ok sample_wenv limits p"
  shows "encode_payload sample_wenv p = Ok (sample_encoded p)"
  using encode_payload_Ok [OF sample_codecs [of 0] assms]
  by (auto simp: sample_wenv_def sample_encoded_def Let_def)

lemma sample_sizes:
  "length (payload_encode (InnerMeta sample_meta)) = 48" "length (payload_encode (InnerLayout sample_layout)) = 91"
  by (simp_all add: meta.encode_records_size layout.encode_records_size records_total_size_def sample_meta_def
      sample_layout_def meta_size_def layout_size_def)

lemma sample_payload_ok:
  "payload_ok sample_wenv default_limits (InnerMeta sample_meta)"
  "payload_ok sample_wenv default_limits (InnerLayout sample_layout)"
  "payload_ok sample_wenv default_limits (InnerIndex (index_from sample_wenv 0 (map concat sample_files)))"
proof -
  have big: "4096 \<le> unat (max_record_bytes default_limits)" by (simp add: default_limits_def MIB_def)
  have "list_all (\<lambda>r. meta_storable r \<and> meta_size r \<le> unat (max_record_bytes default_limits)) sample_meta"
    using sample_meta_storable big by (auto simp: list_all_iff)
  then show "payload_ok sample_wenv default_limits (InnerMeta sample_meta)"
    using sample_sizes(1)
    by (simp add: payload_ok_def sample_wenv_def) (simp add: sample_meta_def meta_writes_def)
  have "list_all (\<lambda>r. layout_storable r \<and> layout_size r \<le> unat (max_record_bytes default_limits)) sample_layout"
    using sample_layout_storable big by (auto simp: list_all_iff)
  then show "payload_ok sample_wenv default_limits (InnerLayout sample_layout)"
    using sample_sizes(2)
    by (simp add: payload_ok_def sample_wenv_def) (simp add: sample_layout_def layout_writes_def)
  show "payload_ok sample_wenv default_limits (InnerIndex (index_from sample_wenv 0 (map concat sample_files)))"
    using big
    by (simp add: payload_ok_def sample_wenv_def sample_files_def index.encode_records_size records_total_size_def
        index_size_def index_storable_def index_writes_def)
qed

lemma sample_package_ok: "package_ok sample_wenv sample_renv default_limits sample_payloads None sample_files"
  using sample_payload_ok sample_codecs usable_default
  by (simp add: package_ok_def sample_payloads_def)
     (simp add: sample_files_def sample_wenv_def default_limits_def)

lemma sample_package_encoded:
  "package_encoded sample_wenv sample_payloads None sample_files (map sample_encoded sample_inner) [1, 2, 3, 4, 5]"
proof -
  have "length (payload_encode (InnerIndex (index_from sample_wenv 0 (map concat sample_files)))) < 2 ^ 64"
    using sample_payload_ok(3) by (simp add: payload_ok_def)
  then show ?thesis
    using sample_payload_ok [THEN sample_encode_payload] sample_sizes
    by (simp add: package_encoded_def sample_inner_def sample_payloads_def sample_encoded_def Let_def)
       (simp add: sample_wenv_def sample_files_def)
qed

lemma sample_headers_fit:
  "headers_fit default_limits (map ep_header (map sample_encoded sample_inner)
     @ [package_content_header sample_wenv sample_files [1, 2, 3, 4, 5]])"
proof -
  have "length (payload_encode (InnerIndex (index_from sample_wenv 0 (map concat sample_files)))) = 64"
    by (simp add: sample_files_def index.encode_records_size records_total_size_def index_size_def)
  then show ?thesis
    using sample_sizes sample_lengths
    by (simp add: headers_fit_def sample_inner_def sample_payloads_def sample_encoded_def Let_def default_limits_def
        MIB_def GIB_def package_content_header_def content_header_def is_record_payload_def sample_files_def)
qed

definition sample_archive :: "u8 list" where
  "sample_archive = finalize Binary (map sample_encoded sample_inner)
     (Some ([1, 2, 3, 4, 5], word_of_nat (length (concat (map concat sample_files))), wr_xxh3 sample_wenv [1, 2, 3, 4, 5]))"

definition sample_decoded :: "stone_decoded_payload list" where
  "sample_decoded = package_payloads sample_wenv sample_payloads sample_files (map sample_encoded sample_inner) [1, 2, 3, 4, 5]"

lemma sample_written: "write_archive sample_wenv Binary sample_payloads None sample_files = Ok sample_archive"
  unfolding sample_archive_def
  by (rule package_read_back(1) [OF sample_package_ok sample_package_encoded sample_headers_fit])

lemma sample_read: "read_archive sample_renv default_limits sample_archive = Ok sample_decoded"
  unfolding sample_archive_def sample_decoded_def
  by (rule package_read_back(2) [OF sample_package_ok sample_package_encoded sample_headers_fit])

lemma sample_archive_small: "length sample_archive < 2 ^ 64"
proof -
  have "length sample_archive < 2 ^ 63"
    by (rule package_archive_bytes(1) [OF sample_package_ok sample_package_encoded sample_headers_fit sample_archive_def])
  then show ?thesis by simp
qed

section \<open>Properties of archives\<close>

text \<open>
  C17: a package is read back as it was written. The records that were added, followed by the index of
  the files and the content, are what reading the finished archive yields, if the compression
  inverts, the fields fit, the buffers are within what the zstd writer takes in one call, and the
  sizes are within the limits of the reader.
\<close>

theorem package_round_trip:
  assumes "package_ok wenv renv limits ps pledged files"
    and "package_encoded wenv ps pledged files eps buffer"
    and "headers_fit limits (map ep_header eps @ [package_content_header wenv files buffer])"
  shows "\<exists>archive. write_archive wenv ft ps pledged files = Ok archive
           \<and> read_archive renv limits archive = Ok (package_payloads wenv ps files eps buffer)"
  using package_read_back [OF assms] by blast

theorem package_round_trip_witness:
  "\<exists>archive. write_archive sample_wenv Binary sample_payloads None sample_files = Ok archive
     \<and> read_archive sample_renv default_limits archive
       = Ok (package_payloads sample_wenv sample_payloads sample_files (map sample_encoded sample_inner) [1, 2, 3, 4, 5])"
  by (rule package_round_trip [OF sample_package_ok sample_package_encoded sample_headers_fit])

text \<open>
  C18: the content of a package unpacks to its files, one after the other, and the index record of each
  file cuts exactly that file out of the content and holds its digest.
\<close>

theorem package_files_recovered:
  assumes "package_ok wenv renv limits ps pledged files"
    and "package_encoded wenv ps pledged files eps buffer"
    and "headers_fit limits (map ep_header eps @ [package_content_header wenv files buffer])"
    and "write_archive wenv ft ps pledged files = Ok archive" and "read_with_limits archive limits = Ok reader"
    and "ContentPayload content \<in> set (package_payloads wenv ps files eps buffer)" and "i < length files"
  shows "\<exists>plain. unpack_content renv reader content = (plain, Ok ())
           \<and> (let r = index_from wenv 0 (map concat files) ! i
              in take (unat (idx_end r) - unat (idx_start r)) (drop (unat (idx_start r)) plain) = concat (files ! i)
                 \<and> idx_digest r = wr_xxh3_128 wenv (concat (files ! i)))"
proof -
  have small: "length (concat (map concat files)) < 2 ^ 64" using assms(1) by (simp add: package_ok_def)
  then show ?thesis
    using package_content_unpacks [OF assms(1-6)] index_cuts_file [OF small, of i wenv] assms(7)
      index_from_slices [of 0 "map concat files" i wenv] by (simp add: Let_def)
qed

theorem package_files_recovered_witness:
  "\<exists>reader content plain. read_with_limits sample_archive default_limits = Ok reader
     \<and> ContentPayload content \<in> set sample_decoded
     \<and> unpack_content sample_renv reader content = (plain, Ok ()) \<and> take 2 (drop 3 plain) = [4, 5]"
proof -
  obtain reader where reader: "read_with_limits sample_archive default_limits = Ok reader"
    using sample_read by (auto simp: read_archive_def result_simps)
  obtain content where content: "ContentPayload content \<in> set sample_decoded"
    by (auto simp: sample_decoded_def package_payloads_def)
  have r: "index_from sample_wenv 0 (map concat sample_files) ! 1 = \<lparr> idx_start = 3, idx_end = 5, idx_digest = 2 \<rparr>"
    by (simp add: sample_files_def sample_wenv_def)
  have "\<exists>plain. unpack_content sample_renv reader content = (plain, Ok ())
      \<and> (let r = index_from sample_wenv 0 (map concat sample_files) ! 1
         in take (unat (idx_end r) - unat (idx_start r)) (drop (unat (idx_start r)) plain) = concat (sample_files ! 1)
            \<and> idx_digest r = wr_xxh3_128 sample_wenv (concat (sample_files ! 1)))"
    by (rule package_files_recovered [OF sample_package_ok sample_package_encoded sample_headers_fit sample_written reader])
       (use content in \<open>simp_all add: sample_decoded_def sample_files_def\<close>)
  then have "\<exists>plain. unpack_content sample_renv reader content = (plain, Ok ()) \<and> take 2 (drop 3 plain) = [4, 5]"
    unfolding r by (auto simp: Let_def sample_files_def)
  then show ?thesis using reader content by blast
qed

text \<open>
  C20: a successful read has accounted for every byte of the archive. The payloads lie one after the
  other from the header to the very end; each one's header is what stands at its place, all its stored
  bytes are there and their digest is the declared checksum; and there are as many as the archive
  header declares.
\<close>

theorem archive_tiled:
  assumes "read_archive env limits archive = Ok ps" and "length archive < 2 ^ 64"
  shows "tiled env archive STONE_HEADER_SIZE ps
         \<and> length archive = STONE_HEADER_SIZE + sum_list (map payload_extent ps)
         \<and> (\<exists>header rest. stone_header_decode archive = Ok (header, rest)
              \<and> length ps = unat (stone_header_num_payloads header))"
  using assms by (elim read_archive_Ok) (auto dest: tiled_length)

theorem archive_tiled_witness:
  "tiled sample_renv sample_archive STONE_HEADER_SIZE sample_decoded
   \<and> length sample_archive = STONE_HEADER_SIZE + sum_list (map payload_extent sample_decoded)
   \<and> (\<exists>header rest. stone_header_decode sample_archive = Ok (header, rest)
        \<and> length sample_decoded = unat (stone_header_num_payloads header))"
  by (rule archive_tiled [OF sample_read sample_archive_small])



text \<open>
  C19: the index ranges of a successfully read archive can be used to cut its content: every range has
  its end after its start and within the plain size of the content payload, wherever the index and the
  content payloads stand, and there is at most one content payload.
\<close>

theorem index_within_content:
  assumes "read_archive env limits archive = Ok ps" and "length archive < 2 ^ 64"
  shows "length (content_sizes (map payload_header ps)) \<le> 1
         \<and> (\<forall>r \<in> set (concat (map index_records ps)). idx_start r \<le> idx_end r
              \<and> (\<forall>c \<in> set (content_sizes (map payload_header ps)). idx_end r \<le> c))"
proof -
  obtain st where "content_ok (map payload_header ps) st" "indices_ok (concat (map index_records ps)) st"
    using assms by (elim read_archive_Ok) (auto simp: accounts_def)
  then show ?thesis
    by (cases "ds_content_plain_size st") (fastforce simp: content_ok_def indices_ok_def intro: order_trans)+
qed

theorem index_within_content_witness:
  "length (content_sizes (map payload_header sample_decoded)) \<le> 1
   \<and> list_all (\<lambda>r. idx_start r \<le> idx_end r \<and> list_all (\<lambda>c. idx_end r \<le> c) (content_sizes (map payload_header sample_decoded)))
       (concat (map index_records sample_decoded))"
  using index_within_content [OF sample_read sample_archive_small] by (simp add: list_all_iff)

text \<open>
  C22: unpacking content succeeds exactly when the reference is valid, the stored bytes are all there
  with the declared checksum, and their plain form ends, without an error, at exactly the declared
  size; what was written is that plain form.
\<close>

theorem unpack_content_exact:
  fixes reader content
  defines "h \<equiv> pl_header content"
    and "region \<equiv> stored_region (sr_archive reader) (unat (pl_body content)) (pl_header content)"
  shows "unpack_content env reader content = (w, Ok ()) \<longleftrightarrow>
           validate_content_reference reader content = Ok ()
           \<and> payload_reader env region (ph_compression h) (max_zstd_window_log (sr_limits reader)) = Ok (w, None)
           \<and> length w = unat (ph_plain_size h)
           \<and> length region = unat (ph_stored_size h) \<and> env_xxh3 env region = from_be_bytes (ph_checksum h)"
  unfolding h_def region_def by (rule unpack_content_iff)

text \<open>
  C23: where one field of an attribute payload is longer than what the zstd encoder takes in one call,
  the writer counts the bytes of its tail again with every further call. The plain size it declares is
  then larger than the payload, and the reader refuses the payload that was just written as truncated.
\<close>

theorem oversized_field_unreadable:
  fixes rs :: "stone_attribute_record list"
  defines "p \<equiv> InnerAttributes rs"
  assumes agree: "codecs_agree wenv renv (max_zstd_window_log limits)" and pos: "0 < wr_read_size wenv"
    and big: "\<exists>c \<in> set (payload_writes p). wr_read_size wenv < length c"
    and fits: "records_fit (max_record_bytes limits) p"
    and w: "zstd_write_chunks (wr_read_size wenv) (payload_writes p) (zstd_writer_new []) = Ok w"
    and counted: "zw_plain_bytes w < 2 ^ 64"
  shows "\<exists>ep. encode_payload wenv p = Ok ep
     \<and> length (payload_encode p) < unat (ph_plain_size (ep_header ep))
     \<and> decode_record_body renv limits (ep_header ep) (attribute_decode (env_alloc renv)) (ep_content ep)
       = Err (PlainPayloadTruncated (ph_plain_size (ep_header ep)) (word_of_nat (length (payload_encode p))))"
proof -
  have fed: "zw_fed w = payload_encode p" and over: "length (payload_encode p) < zw_plain_bytes w"
    using zstd_write_chunks_fed [OF pos, of "payload_writes p" "zstd_writer_new []"] w big
    by (auto simp: zstd_writer_new_def concat_payload_writes)
  obtain z where z: "wr_zstd wenv (Some (word_of_nat (pledged_size p))) (payload_encode p) = Ok z"
    "env_unzstd renv (max_zstd_window_log limits) z = Ok (payload_encode p, None)"
    using agree unfolding codecs_agree_def pledged_size_exact by blast
  let ?h = "\<lparr> ph_stored_size = word_of_nat (length z), ph_plain_size = word_of_nat (zw_plain_bytes w),
      ph_checksum = to_be_bytes (wr_xxh3 wenv z), ph_num_records = length rs, ph_version = 1,
      ph_kind = KindAttributes, ph_compression = CompressionZstd \<rparr>"
  have enc: "encode_payload wenv p = Ok \<lparr> ep_header = ?h, ep_content = z \<rparr>"
    using w z fed by (simp add: encode_payload_def p_def)
  have plain: "unat (ph_plain_size ?h) = zw_plain_bytes w" using counted by (simp add: unat_word_of_nat)
  let ?bs = "payload_encode p"
  let ?r = "epr_after (?bs, None) (ph_plain_size ?h) (length ?bs)"
  have "decode_records (env_alloc renv) (attribute_decode (env_alloc renv)) ?bs (length rs) (max_record_bytes limits) = Ok (rs, [])"
    using attributes.decode_records_encode [where rest = "[]"] fits agree by (simp add: p_def codecs_agree_def)
  then have dec: "decode_over_plain (env_alloc renv) (attribute_decode (env_alloc renv)) (length rs)
      (max_record_bytes limits) (?bs, None) (ph_plain_size ?h) = (Ok rs, ?r)"
    using over plain by (simp add: decode_over_plain_def Let_def)
  have "(word_of_nat (length ?bs) :: u64) \<noteq> ph_plain_size ?h"
    using over plain counted unat_word_of_nat [of "length ?bs", where 'a = 64] by auto
  then have "finish_exact ?r = Err (PlainPayloadTruncated (ph_plain_size ?h) (word_of_nat (length ?bs)))" and "size_error ?r = None"
    by (simp_all add: finish_exact_def epr_read_def stream_read_def size_error_def epr_after_def exact_plain_reader_new_def Let_def)
  then have "decode_record_body renv limits ?h (attribute_decode (env_alloc renv)) z
      = Err (PlainPayloadTruncated (ph_plain_size ?h) (word_of_nat (length ?bs)))"
    using z dec by (simp add: decode_record_body_def payload_reader_def)
  then show ?thesis using enc plain over by auto
qed

lemma zstd_write_all_small:
  assumes "length buf \<le> read_size"
  shows "zstd_write_all read_size buf w
     = Ok (w\<lparr> zw_plain_bytes := zw_plain_bytes w + length buf, zw_fed := zw_fed w @ buf \<rparr>)"
  using assms by (cases buf) (simp_all add: zstd_write_all.simps zstd_write_def Let_def min_def)

theorem oversized_field_unreadable_witness:
  "let wenv = sample_wenv\<lparr> wr_read_size := 8 \<rparr>; p = InnerAttributes [\<lparr> attr_key = [1], attr_value = [1, 2, 3, 4, 5, 6, 7, 8, 9] \<rparr>]
   in \<exists>ep. encode_payload wenv p = Ok ep
        \<and> length (payload_encode p) < unat (ph_plain_size (ep_header ep))
        \<and> decode_record_body sample_renv default_limits (ep_header ep) (attribute_decode (env_alloc sample_renv)) (ep_content ep)
          = Err (PlainPayloadTruncated (ph_plain_size (ep_header ep)) (word_of_nat (length (payload_encode p))))"
proof -
  let ?rs = "[\<lparr> attr_key = [1], attr_value = [1, 2, 3, 4, 5, 6, 7, 8, 9] \<rparr>] :: stone_attribute_record list"
  let ?wenv = "sample_wenv\<lparr> wr_read_size := 8 \<rparr>"
  obtain w where w: "zstd_write_chunks 8 (payload_writes (InnerAttributes ?rs)) (zstd_writer_new []) = Ok w" "zw_plain_bytes w = 27"
    by (simp add: attribute_writes_def zstd_writer_new_def zstd_write_all_small zstd_write_all_Cons)
  have "codecs_agree ?wenv sample_renv window" for window
    by (simp add: codecs_agree_def sample_wenv_def sample_renv_def)
  then show ?thesis
    unfolding Let_def using w
    by (intro oversized_field_unreadable [of _ _ _ ?rs w])
       (simp_all add: attribute_writes_def attribute_storable_def attribute_size_def default_limits_def MIB_def)
qed

end
