(* ===== verification/Package_Relation.thy ===== *)
theory Package_Relation
  imports Stone_Records "HOL-Library.List_Lexorder"
begin

text \<open>
  Package dependency and provider relations (\<open>stone/src/relation.rs\<close>): their printed form
  \<open>kind(target)\<close>, its parser, and the order they are kept in. \<open>Dependency\<close> and \<open>Provider\<close> are two
  instances of one macro and share this model. Strings are their UTF-8 bytes; the characters the code
  looks for are ASCII, so a test of characters is a test of bytes.
\<close>

section \<open>Kinds\<close>

datatype relation_kind =
    PackageName | SharedLibrary | PkgConfig | Interpreter | CMake | Python | BinaryName | SystemBinary | PkgConfig32

text \<open>The names \<open>strum\<close> derives for \<open>Display\<close> and \<open>EnumString\<close>.\<close>

fun kind_name :: "relation_kind \<Rightarrow> string" where
  "kind_name PackageName = ''name''"
| "kind_name SharedLibrary = ''soname''"
| "kind_name PkgConfig = ''pkgconfig''"
| "kind_name Interpreter = ''interpreter''"
| "kind_name CMake = ''cmake''"
| "kind_name Python = ''python''"
| "kind_name BinaryName = ''binary''"
| "kind_name SystemBinary = ''sysbinary''"
| "kind_name PkgConfig32 = ''pkgconfig32''"

definition kind_of_name :: "string \<Rightarrow> relation_kind option" where
  "kind_of_name s =
     (if s = ''name'' then Some PackageName else if s = ''soname'' then Some SharedLibrary
      else if s = ''pkgconfig'' then Some PkgConfig else if s = ''interpreter'' then Some Interpreter
      else if s = ''cmake'' then Some CMake else if s = ''python'' then Some Python
      else if s = ''binary'' then Some BinaryName else if s = ''sysbinary'' then Some SystemBinary
      else if s = ''pkgconfig32'' then Some PkgConfig32 else None)"

fun from_stone_dependency :: "meta_dependency \<Rightarrow> relation_kind option" where
  "from_stone_dependency DepPackageName = Some PackageName"
| "from_stone_dependency DepSharedLibrary = Some SharedLibrary"
| "from_stone_dependency DepPkgConfig = Some PkgConfig"
| "from_stone_dependency DepInterpreter = Some Interpreter"
| "from_stone_dependency DepCMake = Some CMake"
| "from_stone_dependency DepPython = Some Python"
| "from_stone_dependency DepBinary = Some BinaryName"
| "from_stone_dependency DepSystemBinary = Some SystemBinary"
| "from_stone_dependency DepPkgConfig32 = Some PkgConfig32"
| "from_stone_dependency DepUnknown = None"

fun stone_dependency_of :: "relation_kind \<Rightarrow> meta_dependency" where
  "stone_dependency_of PackageName = DepPackageName"
| "stone_dependency_of SharedLibrary = DepSharedLibrary"
| "stone_dependency_of PkgConfig = DepPkgConfig"
| "stone_dependency_of Interpreter = DepInterpreter"
| "stone_dependency_of CMake = DepCMake"
| "stone_dependency_of Python = DepPython"
| "stone_dependency_of BinaryName = DepBinary"
| "stone_dependency_of SystemBinary = DepSystemBinary"
| "stone_dependency_of PkgConfig32 = DepPkgConfig32"

section \<open>Relations\<close>

datatype relation = Relation (rel_kind: relation_kind) (rel_name: string)

datatype relation_parse_error = EmptyTarget string | Malformed string | UnsupportedKind string

definition relation_display :: "relation \<Rightarrow> string" where
  "relation_display r = kind_name (rel_kind r) @ ''('' @ rel_name r @ '')''"

definition validate_bare :: "string \<Rightarrow> (unit, relation_parse_error) result" where
  "validate_bare s =
     (if s = [] then Err (EmptyTarget s)
      else if CHR '')'' \<in> set s then Err (Malformed s)
      else Ok ())"

text \<open>The loop over the characters of a target; \<open>None\<close> is the early return.\<close>

fun paren_depth :: "string \<Rightarrow> u32 \<Rightarrow> u32 option" where
  "paren_depth [] depth = Some depth"
| "paren_depth (c # s) depth =
     (if c = CHR ''('' then paren_depth s (depth + 1)
      else if c = CHR '')'' then (if depth = 0 then None else paren_depth s (depth - 1))
      else paren_depth s depth)"

definition validate_target :: "string \<Rightarrow> string \<Rightarrow> (unit, relation_parse_error) result" where
  "validate_target target s =
     (if target = [] then Err (EmptyTarget s)
      else
        (case paren_depth target 0 of
           None \<Rightarrow> Err (Malformed s)
         | Some depth \<Rightarrow> if depth \<noteq> 0 then Err (Malformed s) else Ok ()))"

definition split_once :: "char \<Rightarrow> string \<Rightarrow> (string \<times> string) option" where
  "split_once c s =
     (case dropWhile (\<lambda>x. x \<noteq> c) s of
        [] \<Rightarrow> None
      | _ # rest \<Rightarrow> Some (takeWhile (\<lambda>x. x \<noteq> c) s, rest))"

definition relation_parse :: "string \<Rightarrow> (relation_kind \<times> string, relation_parse_error) result" where
  "relation_parse s =
     res_bind (ok_or (split_once (CHR ''('') s) (Malformed s)) (\<lambda>(kind, rest).
     if \<not> (rest \<noteq> [] \<and> last rest = CHR '')'') then Err (Malformed s)
     else
       res_bind (ok_or (kind_of_name kind) (UnsupportedKind kind)) (\<lambda>kind.
       let name = butlast rest in
       res_then (validate_target name s) (Ok (kind, name))))"

definition relation_new :: "relation_kind \<Rightarrow> string \<Rightarrow> (relation, relation_parse_error) result" where
  "relation_new kind name =
     res_then (validate_target name (relation_display (Relation kind name))) (Ok (Relation kind name))"

definition relation_package_name :: "string \<Rightarrow> relation" where
  "relation_package_name name = Relation PackageName name"

definition relation_from_str :: "string \<Rightarrow> (relation, relation_parse_error) result" where
  "relation_from_str s = res_bind (relation_parse s) (\<lambda>(kind, name). Ok (Relation kind name))"

definition relation_from_name :: "string \<Rightarrow> (relation, relation_parse_error) result" where
  "relation_from_name s =
     (if CHR ''('' \<in> set s then relation_from_str s
      else res_then (validate_bare s) (Ok (relation_package_name s)))"

definition relation_to_name :: "relation \<Rightarrow> string" where
  "relation_to_name r = (if rel_kind r = PackageName then rel_name r else relation_display r)"

section \<open>The order of relations\<close>

lemma kind_name_inverse [simp]: "kind_of_name (kind_name k) = Some k"
  by (cases k) (simp_all add: kind_of_name_def)

lemma kind_of_name_Some: "kind_of_name s = Some k \<longleftrightarrow> s = kind_name k"
  by (cases k) (auto simp: kind_of_name_def split: if_splits)

lemma kind_name_no_paren: "CHR ''('' \<notin> set (kind_name k)"
  by (cases k) simp_all

lemma split_once_append [simp]:
  assumes "c \<notin> set k"
  shows "split_once c (k @ c # rest) = Some (k, rest)"
proof -
  have "\<And>x. x \<in> set k \<Longrightarrow> x \<noteq> c" using assms by blast
  then show ?thesis by (simp add: split_once_def dropWhile_append2 takeWhile_append2)
qed

lemma split_once_Some: "split_once c s = Some (k, rest) \<longleftrightarrow> s = k @ c # rest \<and> c \<notin> set k"
proof
  assume some: "split_once c s = Some (k, rest)"
  then obtain x where d: "dropWhile (\<lambda>x. x \<noteq> c) s = x # rest" and k: "k = takeWhile (\<lambda>x. x \<noteq> c) s"
    unfolding split_once_def by (cases "dropWhile (\<lambda>x. x \<noteq> c) s") simp_all
  have "x = c" using hd_dropWhile [of "\<lambda>x. x \<noteq> c" s] d by simp
  moreover have "s = k @ x # rest" using takeWhile_dropWhile_id [of "\<lambda>x. x \<noteq> c" s] d k by simp
  moreover have "c \<notin> set k" using k by (auto dest: set_takeWhileD)
  ultimately show "s = k @ c # rest \<and> c \<notin> set k" by simp
qed simp

lemma relation_display_inject: "relation_display r = relation_display r' \<longleftrightarrow> r = r'"
proof
  assume eq: "relation_display r = relation_display r'"
  have "split_once (CHR ''('') (relation_display x) = Some (kind_name (rel_kind x), rel_name x @ '')'')" for x
    using kind_name_no_paren by (simp add: relation_display_def)
  from this [of r] this [of r'] eq have "kind_name (rel_kind r) = kind_name (rel_kind r')" "rel_name r = rel_name r'"
    by simp_all
  then show "r = r'" by (metis kind_name_inverse option.inject relation.expand)
qed simp

text \<open>Relations are ordered by their printed forms, byte by byte.\<close>

instantiation relation :: linorder
begin

definition less_eq_relation :: "relation \<Rightarrow> relation \<Rightarrow> bool" where
  "less_eq_relation r r' \<longleftrightarrow> relation_display r \<le> relation_display r'"

definition less_relation :: "relation \<Rightarrow> relation \<Rightarrow> bool" where
  "less_relation r r' \<longleftrightarrow> relation_display r < relation_display r'"

instance
  by standard (auto simp: less_eq_relation_def less_relation_def less_le relation_display_inject)

end

section \<open>Balanced targets\<close>

text \<open>The targets a relation may have: parentheses nest.\<close>

inductive balanced :: "string \<Rightarrow> bool" where
  balanced_Nil: "balanced []"
| balanced_Other: "c \<noteq> CHR ''('' \<Longrightarrow> c \<noteq> CHR '')'' \<Longrightarrow> balanced s \<Longrightarrow> balanced (c # s)"
| balanced_Nest: "balanced s \<Longrightarrow> balanced t \<Longrightarrow> balanced (CHR ''('' # s @ CHR '')'' # t)"

text \<open>Text that closes \<open>d\<close> open parentheses.\<close>

fun closes :: "nat \<Rightarrow> string \<Rightarrow> bool" where
  "closes 0 s = balanced s"
| "closes (Suc d) s = (\<exists>u v. s = u @ CHR '')'' # v \<and> balanced u \<and> closes d v)"

lemma closes_Other:
  assumes "c \<noteq> CHR ''(''" and "c \<noteq> CHR '')''" and "closes d s"
  shows "closes d (c # s)"
proof (cases d)
  case (Suc d')
  then obtain u v where "s = u @ CHR '')'' # v" "balanced u" "closes d' v" using assms(3) by auto
  then have "c # s = (c # u) @ CHR '')'' # v" "balanced (c # u)" using assms(1,2) balanced_Other by auto
  then show ?thesis using Suc \<open>closes d' v\<close> by (metis closes.simps(2))
qed (use assms balanced_Other in simp)

lemma closes_Open: "closes (Suc d) s \<Longrightarrow> closes d (CHR ''('' # s)"
proof (cases d)
  case (Suc d')
  assume "closes (Suc d) s"
  then obtain u v x y where "s = u @ CHR '')'' # v" "balanced u" "v = x @ CHR '')'' # y" "balanced x" "closes d' y"
    using Suc by auto
  then have "CHR ''('' # s = (CHR ''('' # u @ CHR '')'' # x) @ CHR '')'' # y" "balanced (CHR ''('' # u @ CHR '')'' # x)"
    using balanced_Nest by auto
  then show ?thesis using Suc \<open>closes d' y\<close> by (metis closes.simps(2))
qed (use balanced_Nest in auto)

lemma paren_depth_closes:
  "paren_depth s d = Some 0 \<Longrightarrow> unat d + length s < 2 ^ 32 \<Longrightarrow> closes (unat d) s"
proof (induction s arbitrary: d)
  case (Cons c s)
  consider "c = CHR ''(''" | "c = CHR '')''" | "c \<noteq> CHR ''(''" "c \<noteq> CHR '')''" by blast
  then show ?case
  proof cases
    case 1
    have "unat (d + 1) = Suc (unat d)" using Cons.prems(2) by (simp add: unat_word_ariths)
    moreover have "paren_depth s (d + 1) = Some 0" using Cons.prems(1) 1 by simp
    ultimately have "closes (Suc (unat d)) s" using Cons.IH [of "d + 1"] Cons.prems(2) by (metis add_Suc_shift length_Cons)
    then show ?thesis using 1 closes_Open by blast
  next
    case 2
    then have d: "d \<noteq> 0" "paren_depth s (d - 1) = Some 0" using Cons.prems(1) by (auto split: if_splits)
    obtain n where n: "unat d = Suc n" using d(1) by (metis not0_implies_Suc unat_eq_0)
    then have "unat (d - 1) = n" using d(1) by (simp add: unat_minus_one)
    then have "closes n s" using Cons.IH [OF d(2)] Cons.prems(2) n by simp
    then have "c # s = [] @ CHR '')'' # s \<and> balanced [] \<and> closes n s" using 2 balanced_Nil by simp
    then show ?thesis unfolding n closes.simps by blast
  next
    case 3
    then show ?thesis using Cons closes_Other by simp
  qed
qed (simp add: balanced_Nil)

lemma balanced_paren_depth:
  "balanced s \<Longrightarrow> unat d + length s < 2 ^ 32 \<Longrightarrow> paren_depth (s @ t) d = paren_depth t d"
proof (induction s arbitrary: d t rule: balanced.induct)
  case (balanced_Nest s u)
  have d: "unat (d + 1) = Suc (unat d)" using balanced_Nest.prems by (simp add: unat_word_ariths)
  then have "d + 1 \<noteq> 0" by auto
  then show ?case using balanced_Nest.IH(1) [of "d + 1"] balanced_Nest.IH(2) [of d] balanced_Nest.prems d by simp
qed simp_all

lemma paren_depth_balanced:
  assumes "length s < 2 ^ 32"
  shows "paren_depth s 0 = Some 0 \<longleftrightarrow> balanced s"
  using paren_depth_closes [of s 0] balanced_paren_depth [of s 0 "[]"] assms by auto

lemma relation_from_str_iff:
  assumes "length s < 2 ^ 32"
  shows "relation_from_str s = Ok r \<longleftrightarrow> s = relation_display r \<and> rel_name r \<noteq> [] \<and> balanced (rel_name r)"
proof -
  have target: "validate_target t v = Ok () \<longleftrightarrow> t \<noteq> [] \<and> paren_depth t 0 = Some 0" for t v
    by (auto simp: validate_target_def split: option.splits if_splits)
  have "relation_from_str s = Ok r \<longleftrightarrow> (\<exists>rest. s = kind_name (rel_kind r) @ CHR ''('' # rest \<and> rest \<noteq> []
      \<and> last rest = CHR '')'' \<and> rel_name r = butlast rest \<and> rel_name r \<noteq> [] \<and> paren_depth (rel_name r) 0 = Some 0)"
    using kind_name_no_paren
    by (cases r) (fastforce simp: relation_from_str_def relation_parse_def result_simps split_once_Some kind_of_name_Some target Let_def)
  also have "\<dots> \<longleftrightarrow> s = relation_display r \<and> rel_name r \<noteq> [] \<and> paren_depth (rel_name r) 0 = Some 0"
    by (auto simp: relation_display_def) (metis append_butlast_last_id)
  finally show ?thesis using paren_depth_balanced [of "rel_name r"] assms by (auto simp: relation_display_def)
qed

lemma relation_from_name_bare:
  "CHR ''('' \<notin> set s \<Longrightarrow> CHR '')'' \<notin> set s \<Longrightarrow> s \<noteq> [] \<Longrightarrow> relation_from_name s = Ok (Relation PackageName s)"
  by (simp add: relation_from_name_def validate_bare_def relation_package_name_def)

section \<open>Properties of relations\<close>

text \<open>
  C24: the parser of typed relations is exact. It accepts a text as a relation exactly when the text is the
  printed form of that relation and the target is not empty and its parentheses nest, for texts below
  4 GiB.
\<close>

theorem relation_parse_exact:
  assumes "length s < 2 ^ 32"
  shows "relation_from_str s = Ok r \<longleftrightarrow> s = relation_display r \<and> rel_name r \<noteq> [] \<and> balanced (rel_name r)"
  using assms by (rule relation_from_str_iff)

theorem relation_parse_exact_witness:
  "relation_from_str ''soname(libz.so.1(x86_64))'' = Ok (Relation SharedLibrary ''libz.so.1(x86_64)'')
   \<longleftrightarrow> ''soname(libz.so.1(x86_64))'' = relation_display (Relation SharedLibrary ''libz.so.1(x86_64)'')
       \<and> rel_name (Relation SharedLibrary ''libz.so.1(x86_64)'') \<noteq> []
       \<and> balanced (rel_name (Relation SharedLibrary ''libz.so.1(x86_64)''))"
  by (rule relation_parse_exact) simp

text \<open>
  The authored form of a relation is read back as that relation, where the target is not empty and
  nests, and a package name has no parentheses.
\<close>

theorem relation_name_round_trip:
  assumes "rel_name r \<noteq> []" and "balanced (rel_name r)" and "length (relation_display r) < 2 ^ 32"
    and "rel_kind r = PackageName \<Longrightarrow> CHR ''('' \<notin> set (rel_name r) \<and> CHR '')'' \<notin> set (rel_name r)"
  shows "relation_from_name (relation_to_name r) = Ok r"
proof (cases "rel_kind r = PackageName")
  case True
  then show ?thesis
    using assms(1,4) relation_from_name_bare [of "rel_name r"] by (simp add: relation_to_name_def) (metis relation.collapse)
next
  case False
  have "relation_from_str (relation_display r) = Ok r" using relation_from_str_iff [OF assms(3), of r] assms(1,2) by simp
  moreover have "CHR ''('' \<in> set (relation_display r)" by (simp add: relation_display_def)
  ultimately show ?thesis using False by (simp add: relation_from_name_def relation_to_name_def)
qed

theorem relation_name_round_trip_witness:
  "relation_from_name (relation_to_name (Relation PkgConfig ''zlib'')) = Ok (Relation PkgConfig ''zlib'')"
  by (rule relation_name_round_trip) (simp_all add: relation_display_def balanced.intros)


end
