(* ===== verification/Text_Prelude.thy ===== *)
theory Text_Prelude
  imports Cast_Prelude
begin

text \<open>
  The operations on texts the components share, on the UTF-8 bytes of a text: splitting at a byte and
  joining again, the part before the last separator, ASCII classes and case.
\<close>

section \<open>Characters\<close>

definition to_ascii_lowercase :: "char \<Rightarrow> char" where
  "to_ascii_lowercase c = (if CHR ''A'' \<le> c \<and> c \<le> CHR ''Z'' then char_of (of_char c + 32 :: nat) else c)"

definition to_ascii_uppercase :: "char \<Rightarrow> char" where
  "to_ascii_uppercase c = (if is_ascii_lowercase c then char_of (of_char c - 32 :: nat) else c)"

definition is_ascii :: "char \<Rightarrow> bool" where
  "is_ascii c \<longleftrightarrow> of_char c < (128 :: nat)"

text \<open>On ASCII characters, the control characters are those below the space and the delete.\<close>

definition is_control :: "char \<Rightarrow> bool" where
  "is_control c \<longleftrightarrow> of_char c < (32 :: nat) \<or> of_char c = (127 :: nat)"

section \<open>Splitting and joining\<close>

text \<open>\<open>str::split\<close> by one byte: the pieces between its occurrences, empty ones included.\<close>

fun split_on :: "'a \<Rightarrow> 'a list \<Rightarrow> 'a list list" where
  "split_on c [] = [[]]"
| "split_on c (x # s) =
     (if x = c then [] # split_on c s
      else (case split_on c s of [] \<Rightarrow> [[x]] | piece # pieces \<Rightarrow> (x # piece) # pieces))"

definition ends_with :: "'a list \<Rightarrow> 'a \<Rightarrow> bool" where
  "ends_with s c \<longleftrightarrow> s \<noteq> [] \<and> last s = c"

text \<open>\<open>&text[..text.rfind(c)?]\<close>: the text before the last occurrence of a byte.\<close>

definition before_last :: "'a \<Rightarrow> 'a list \<Rightarrow> 'a list option" where
  "before_last c s =
     (case dropWhile (\<lambda>x. x \<noteq> c) (rev s) of [] \<Rightarrow> None | x # t \<Rightarrow> Some (rev t))"

lemma before_last_shorter: "before_last c s = Some t \<Longrightarrow> length t < length s"
proof -
  assume "before_last c s = Some t"
  then obtain x u where d: "dropWhile (\<lambda>x. x \<noteq> c) (rev s) = x # u" "t = rev u"
    by (auto simp: before_last_def split: list.splits)
  have "length (dropWhile (\<lambda>x. x \<noteq> c) (rev s)) \<le> length (rev s)" by (rule length_dropWhile_le)
  with d show ?thesis by simp
qed

fun join_with :: "'a \<Rightarrow> 'a list list \<Rightarrow> 'a list" where
  "join_with c [] = []"
| "join_with c [piece] = piece"
| "join_with c (piece # pieces) = piece @ c # join_with c pieces"

lemma split_on_not_Nil [simp]: "split_on c s \<noteq> []"
  by (cases s) (auto split: list.splits)

lemma join_with_Cons: "pieces \<noteq> [] \<Longrightarrow> join_with c (piece # pieces) = piece @ c # join_with c pieces"
  by (cases pieces) simp_all

lemma join_with_head: "join_with c ((x # piece) # pieces) = x # join_with c (piece # pieces)"
  by (cases pieces) simp_all

lemma join_split [simp]: "join_with c (split_on c s) = s"
  by (induction s) (auto simp: join_with_Cons join_with_head split: list.splits)

lemma join_with_append:
  "xs \<noteq> [] \<Longrightarrow> ys \<noteq> [] \<Longrightarrow> join_with c (xs @ ys) = join_with c xs @ c # join_with c ys"
  by (induction c xs rule: join_with.induct) (auto simp: join_with_Cons)

lemma split_on_append: "split_on c (s @ c # t) = split_on c s @ split_on c t"
  by (induction s) (auto split: list.splits)

lemma split_on_names: "s \<in> set (split_on c p) \<Longrightarrow> c \<notin> set s"
  by (induction p arbitrary: s) (auto split: if_splits list.splits)

lemma split_on_join: "cs \<noteq> [] \<Longrightarrow> list_all (\<lambda>s. c \<notin> set s) cs \<Longrightarrow> split_on c (join_with c cs) = cs"
proof (induction c cs rule: join_with.induct)
  case (2 c piece)
  then show ?case by (induction piece) auto
next
  case (3 c piece v va)
  have "split_on c piece = [piece]" using 3(3) by (induction piece) auto
  with 3 show ?case by (simp add: split_on_append)
qed simp

lemma split_on_length: "p \<in> set (split_on c s) \<Longrightarrow> length p \<le> length s"
  by (induction s arbitrary: p) (fastforce split: if_splits list.splits)+

lemma before_last_None: "before_last c s = None \<longleftrightarrow> c \<notin> set s"
proof -
  have "before_last c s = None \<longleftrightarrow> dropWhile (\<lambda>x. x \<noteq> c) (rev s) = []"
    unfolding before_last_def by (cases "dropWhile (\<lambda>x. x \<noteq> c) (rev s)") (simp_all del: dropWhile_eq_Nil_conv)
  then show ?thesis by (auto simp: dropWhile_eq_Nil_conv)
qed

lemma before_last_Some:
  assumes "before_last c s = Some t"
  obtains u where "s = t @ c # u" and "c \<notin> set u"
proof -
  from assms obtain x w where d: "dropWhile (\<lambda>x. x \<noteq> c) (rev s) = x # w" and t: "t = rev w"
    by (auto simp: before_last_def split: list.splits)
  then have "x = c" by (metis (full_types) dropWhile_eq_Cons_conv)
  have "rev s = takeWhile (\<lambda>x. x \<noteq> c) (rev s) @ c # w"
    using takeWhile_dropWhile_id [of "\<lambda>x. x \<noteq> c" "rev s"] d \<open>x = c\<close> by simp
  then have "s = t @ c # rev (takeWhile (\<lambda>x. x \<noteq> c) (rev s))"
    using t by (metis append.assoc append_Cons append_Nil rev_append rev_rev_ident rev.simps(2))
  moreover have "c \<notin> set (rev (takeWhile (\<lambda>x. x \<noteq> c) (rev s)))" by (auto dest: set_takeWhileD)
  ultimately show ?thesis by (rule that)
qed

end
