(* ===== verification/Package_Meta.thy ===== *)
theory Package_Meta
  imports Package_Relation Text_Prelude
begin

text \<open>
  Package metadata (\<open>forge/src/package/meta.rs\<close>): its conversion to and from the records of a metadata
  payload, the stricter decoder for repository indices, and the package identifier. The ordered sets of
  relations are sets; where the code iterates over one, it is in ascending order.
\<close>

section \<open>Metadata\<close>

record package_meta =
  pm_name :: string
  pm_version_identifier :: string
  pm_source_release :: u64
  pm_build_release :: u64
  pm_architecture :: string
  pm_summary :: string
  pm_description :: string
  pm_source_id :: string
  pm_homepage :: string
  pm_licenses :: "string list"
  pm_dependencies :: "relation set"
  pm_providers :: "relation set"
  pm_conflicts :: "relation set"
  pm_uri :: "string option"
  pm_hash :: "string option"
  pm_download_size :: "u64 option"

datatype missing_meta_field_error = MissingMetaFieldError meta_tag

datatype repository_meta_error =
  MissingField meta_tag
| DuplicateField meta_tag nat
| WrongPrimitive meta_tag string
| NegativeInteger meta_tag
| EmptyField meta_tag
| IntegerOutOfRange meta_tag u64
| PackageSizeExceedsPolicy u64
| InvalidPackageHash
| UnknownRelationKind meta_tag
| InvalidRelation meta_tag
| UnsupportedTag meta_tag

text \<open>Payload texts are bytes.\<close>

definition text_of :: "u8 list \<Rightarrow> string" where
  "text_of bs = map (\<lambda>b. char_of (unat b)) bs"

section \<open>The lenient decoder\<close>

fun find_map :: "('a \<Rightarrow> 'b option) \<Rightarrow> 'a list \<Rightarrow> 'b option" where
  "find_map f [] = None"
| "find_map f (x # xs) = (case f x of Some y \<Rightarrow> Some y | None \<Rightarrow> find_map f xs)"

definition meta_string :: "stone_meta_record \<Rightarrow> meta_tag \<Rightarrow> string option" where
  "meta_string meta tag =
     (case meta_primitive_of meta of
        MetaString val \<Rightarrow> if meta_tag_of meta = tag then Some (text_of val) else None
      | _ \<Rightarrow> None)"

text \<open>The casts of signed integers extend the sign.\<close>

definition meta_u64 :: "stone_meta_record \<Rightarrow> meta_tag \<Rightarrow> u64 option" where
  "meta_u64 meta tag =
     (if meta_tag_of meta = tag then
        (case meta_primitive_of meta of
           MetaInt8 i \<Rightarrow> Some (scast i)
         | MetaUint8 i \<Rightarrow> Some (ucast i)
         | MetaInt16 i \<Rightarrow> Some (scast i)
         | MetaUint16 i \<Rightarrow> Some (ucast i)
         | MetaInt32 i \<Rightarrow> Some (scast i)
         | MetaUint32 i \<Rightarrow> Some (ucast i)
         | MetaInt64 i \<Rightarrow> Some i
         | MetaUint64 i \<Rightarrow> Some i
         | _ \<Rightarrow> None)
      else None)"

definition find_meta_string :: "stone_meta_record list \<Rightarrow> meta_tag \<Rightarrow> (string, missing_meta_field_error) result" where
  "find_meta_string meta tag = ok_or (find_map (\<lambda>m. meta_string m tag) meta) (MissingMetaFieldError tag)"

definition find_meta_u64 :: "stone_meta_record list \<Rightarrow> meta_tag \<Rightarrow> (u64, missing_meta_field_error) result" where
  "find_meta_u64 meta tag = ok_or (find_map (\<lambda>m. meta_u64 m tag) meta) (MissingMetaFieldError tag)"

definition meta_dependency_relation :: "stone_meta_record \<Rightarrow> relation option" where
  "meta_dependency_relation meta =
     (case meta_primitive_of meta of
        MetaDependency kind name \<Rightarrow> map_option (\<lambda>kind. Relation kind (text_of name)) (from_stone_dependency kind)
      | _ \<Rightarrow> None)"

definition meta_provider :: "stone_meta_record \<Rightarrow> relation option" where
  "meta_provider meta =
     (case (meta_tag_of meta, meta_primitive_of meta) of
        (TagProvides, MetaProvider kind name) \<Rightarrow>
          map_option (\<lambda>kind. Relation kind (text_of name)) (from_stone_dependency kind)
      | _ \<Rightarrow> None)"

definition meta_conflict :: "stone_meta_record \<Rightarrow> relation option" where
  "meta_conflict meta =
     (case (meta_tag_of meta, meta_primitive_of meta) of
        (TagConflicts, MetaProvider kind name) \<Rightarrow>
          map_option (\<lambda>kind. Relation kind (text_of name)) (from_stone_dependency kind)
      | _ \<Rightarrow> None)"

fun ok_value :: "('a, 'e) result \<Rightarrow> 'a option" where
  "ok_value (Ok x) = Some x"
| "ok_value (Err e) = None"

definition from_stone_payload :: "stone_meta_record list \<Rightarrow> (package_meta, missing_meta_field_error) result" where
  "from_stone_payload payload =
     res_bind (find_meta_string payload TagName) (\<lambda>name.
     res_bind (find_meta_string payload TagVersion) (\<lambda>version_identifier.
     res_bind (find_meta_u64 payload TagRelease) (\<lambda>source_release.
     res_bind (find_meta_u64 payload TagBuildRelease) (\<lambda>build_release.
     res_bind (find_meta_string payload TagArchitecture) (\<lambda>architecture.
     res_bind (find_meta_string payload TagSummary) (\<lambda>summary.
     res_bind (find_meta_string payload TagDescription) (\<lambda>description.
     res_bind (find_meta_string payload TagSourceID) (\<lambda>source_id.
     res_bind (find_meta_string payload TagHomepage) (\<lambda>homepage.
     Ok \<lparr> pm_name = name, pm_version_identifier = version_identifier, pm_source_release = source_release,
          pm_build_release = build_release, pm_architecture = architecture, pm_summary = summary,
          pm_description = description, pm_source_id = source_id, pm_homepage = homepage,
          pm_licenses = List.map_filter (\<lambda>meta. meta_string meta TagLicense) payload,
          pm_dependencies = set (List.map_filter meta_dependency_relation payload),
          pm_providers = set (List.map_filter meta_provider payload @ [Relation PackageName name]),
          pm_conflicts = set (List.map_filter meta_conflict payload),
          pm_uri = ok_value (find_meta_string payload TagPackageURI),
          pm_hash = ok_value (find_meta_string payload TagPackageHash),
          pm_download_size = ok_value (find_meta_u64 payload TagPackageSize) \<rparr>)))))))))"

section \<open>The strict decoder\<close>

text \<open>The download limit of the request policy, 8 GiB.\<close>

definition DEFAULT_DOWNLOAD_LIMIT :: u64 where
  "DEFAULT_DOWNLOAD_LIMIT = 8 * 1024 * 1024 * 1024"

definition repository_record :: "stone_meta_record list \<Rightarrow> meta_tag \<Rightarrow> (stone_meta_record, repository_meta_error) result" where
  "repository_record payload tag =
     (case filter (\<lambda>record. meta_tag_of record = tag) payload of
        [] \<Rightarrow> Err (MissingField tag)
      | record # records \<Rightarrow>
          (let additional = length records
           in if additional \<noteq> 0 then Err (DuplicateField tag (additional + 1)) else Ok record))"

definition repository_string :: "stone_meta_record list \<Rightarrow> meta_tag \<Rightarrow> (string, repository_meta_error) result" where
  "repository_string payload tag =
     res_bind (repository_record payload tag) (\<lambda>record.
       (case meta_primitive_of record of
          MetaString val \<Rightarrow> Ok (text_of val)
        | _ \<Rightarrow> Err (WrongPrimitive tag ''string'')))"

definition repository_nonempty_string :: "stone_meta_record list \<Rightarrow> meta_tag \<Rightarrow> (string, repository_meta_error) result" where
  "repository_nonempty_string payload tag =
     res_bind (repository_string payload tag) (\<lambda>val. if val = [] then Err (EmptyField tag) else Ok val)"

text \<open>\<open>u64::try_from\<close> of a signed integer.\<close>

definition u64_try_from :: "'a::len word \<Rightarrow> u64 option" where
  "u64_try_from i = (if sint i < 0 then None else Some (scast i))"

definition repository_u64 :: "stone_meta_record list \<Rightarrow> meta_tag \<Rightarrow> (u64, repository_meta_error) result" where
  "repository_u64 payload tag =
     res_bind (repository_record payload tag) (\<lambda>record.
       (case meta_primitive_of record of
          MetaInt8 i \<Rightarrow> ok_or (u64_try_from i) (NegativeInteger tag)
        | MetaUint8 i \<Rightarrow> Ok (ucast i)
        | MetaInt16 i \<Rightarrow> ok_or (u64_try_from i) (NegativeInteger tag)
        | MetaUint16 i \<Rightarrow> Ok (ucast i)
        | MetaInt32 i \<Rightarrow> ok_or (u64_try_from i) (NegativeInteger tag)
        | MetaUint32 i \<Rightarrow> Ok (ucast i)
        | MetaInt64 i \<Rightarrow> ok_or (u64_try_from i) (NegativeInteger tag)
        | MetaUint64 i \<Rightarrow> Ok i
        | _ \<Rightarrow> Err (WrongPrimitive tag ''non-negative integer'')))"

definition singleton_tags :: "meta_tag list" where
  "singleton_tags =
     [TagName, TagArchitecture, TagVersion, TagSummary, TagDescription, TagHomepage, TagSourceID, TagRelease,
      TagBuildRelease, TagPackageURI, TagPackageHash, TagPackageSize]"

record repository_relations =
  rr_licenses :: "string list"
  rr_dependencies :: "relation set"
  rr_providers :: "relation set"
  rr_conflicts :: "relation set"

definition checked_relation :: "meta_tag \<Rightarrow> meta_dependency \<Rightarrow> u8 list \<Rightarrow> (relation, repository_meta_error) result" where
  "checked_relation tag kind val =
     res_bind (ok_or (from_stone_dependency kind) (UnknownRelationKind tag)) (\<lambda>kind.
     map_err (\<lambda>e. InvalidRelation tag) (relation_new kind (text_of val)))"

definition repository_step ::
  "stone_meta_record \<Rightarrow> repository_relations \<Rightarrow> (repository_relations, repository_meta_error) result" where
  "repository_step record acc =
     (let tag = meta_tag_of record
      in if tag \<in> set singleton_tags then Ok acc
         else if tag = TagLicense then
           (case meta_primitive_of record of
              MetaString license \<Rightarrow> Ok (acc \<lparr> rr_licenses := rr_licenses acc @ [text_of license] \<rparr>)
            | _ \<Rightarrow> Err (WrongPrimitive tag ''string''))
         else if tag = TagDepends then
           (case meta_primitive_of record of
              MetaDependency kind val \<Rightarrow>
                res_bind (checked_relation tag kind val) (\<lambda>dependency.
                  Ok (acc \<lparr> rr_dependencies := insert dependency (rr_dependencies acc) \<rparr>))
            | _ \<Rightarrow> Err (WrongPrimitive tag ''dependency''))
         else if tag = TagProvides \<or> tag = TagConflicts then
           (case meta_primitive_of record of
              MetaProvider kind val \<Rightarrow>
                res_bind (checked_relation tag kind val) (\<lambda>provider.
                  if tag = TagProvides then Ok (acc \<lparr> rr_providers := insert provider (rr_providers acc) \<rparr>)
                  else Ok (acc \<lparr> rr_conflicts := insert provider (rr_conflicts acc) \<rparr>))
            | _ \<Rightarrow> Err (WrongPrimitive tag ''provider''))
         else Err (UnsupportedTag tag))"

fun repository_loop ::
  "stone_meta_record list \<Rightarrow> repository_relations \<Rightarrow> (repository_relations, repository_meta_error) result" where
  "repository_loop [] acc = Ok acc"
| "repository_loop (record # payload) acc = res_bind (repository_step record acc) (repository_loop payload)"

definition valid_package_hash :: "string \<Rightarrow> bool" where
  "valid_package_hash hash \<longleftrightarrow> length hash = 64 \<and> list_all is_lower_hex hash"

definition from_repository_index_payload :: "stone_meta_record list \<Rightarrow> (package_meta, repository_meta_error) result" where
  "from_repository_index_payload payload =
     res_bind (repository_nonempty_string payload TagName) (\<lambda>name.
     res_bind (repository_nonempty_string payload TagVersion) (\<lambda>version_identifier.
     res_bind (repository_u64 payload TagRelease) (\<lambda>source_release.
     res_bind (repository_u64 payload TagBuildRelease) (\<lambda>build_release.
     res_bind (repository_nonempty_string payload TagArchitecture) (\<lambda>architecture.
     res_bind (repository_string payload TagSummary) (\<lambda>summary.
     res_bind (repository_string payload TagDescription) (\<lambda>description.
     res_bind (repository_nonempty_string payload TagSourceID) (\<lambda>source_id.
     res_bind (repository_string payload TagHomepage) (\<lambda>homepage.
     res_bind (repository_nonempty_string payload TagPackageURI) (\<lambda>uri.
     res_bind (repository_string payload TagPackageHash) (\<lambda>hash.
     res_bind (repository_u64 payload TagPackageSize) (\<lambda>download_size.
     if unat source_release \<ge> 2 ^ 31 then Err (IntegerOutOfRange TagRelease source_release)
     else if unat build_release \<ge> 2 ^ 31 then Err (IntegerOutOfRange TagBuildRelease build_release)
     else if unat download_size \<ge> 2 ^ 63 then Err (IntegerOutOfRange TagPackageSize download_size)
     else if download_size > DEFAULT_DOWNLOAD_LIMIT then Err (PackageSizeExceedsPolicy DEFAULT_DOWNLOAD_LIMIT)
     else if \<not> valid_package_hash hash then Err InvalidPackageHash
     else
       res_bind (repository_loop payload \<lparr> rr_licenses = [], rr_dependencies = {}, rr_providers = {}, rr_conflicts = {} \<rparr>) (\<lambda>acc.
       res_bind (map_err (\<lambda>e. InvalidRelation TagName) (relation_new PackageName name)) (\<lambda>own.
       Ok \<lparr> pm_name = name, pm_version_identifier = version_identifier, pm_source_release = source_release,
            pm_build_release = build_release, pm_architecture = architecture, pm_summary = summary,
            pm_description = description, pm_source_id = source_id, pm_homepage = homepage,
            pm_licenses = rr_licenses acc, pm_dependencies = rr_dependencies acc,
            pm_providers = insert own (rr_providers acc), pm_conflicts = rr_conflicts acc,
            pm_uri = Some uri, pm_hash = Some hash, pm_download_size = Some download_size \<rparr>))))))))))))))"

section \<open>The encoder\<close>

definition meta_entry :: "meta_tag \<Rightarrow> meta_primitive \<Rightarrow> stone_meta_record" where
  "meta_entry tag primitive = \<lparr> meta_tag_of = tag, meta_primitive_of = primitive \<rparr>"

definition string_entry :: "meta_tag \<Rightarrow> string \<Rightarrow> stone_meta_record" where
  "string_entry tag val = meta_entry tag (MetaString (ascii val))"

definition to_stone_payload :: "package_meta \<Rightarrow> stone_meta_record list" where
  "to_stone_payload m =
     [string_entry TagName (pm_name m), string_entry TagVersion (pm_version_identifier m),
      meta_entry TagRelease (MetaUint64 (pm_source_release m)), meta_entry TagBuildRelease (MetaUint64 (pm_build_release m)),
      string_entry TagArchitecture (pm_architecture m), string_entry TagSummary (pm_summary m),
      string_entry TagDescription (pm_description m), string_entry TagSourceID (pm_source_id m),
      string_entry TagHomepage (pm_homepage m)]
     @ (case pm_uri m of None \<Rightarrow> [] | Some uri \<Rightarrow> [string_entry TagPackageURI uri])
     @ (case pm_hash m of None \<Rightarrow> [] | Some hash \<Rightarrow> [string_entry TagPackageHash hash])
     @ (case pm_download_size m of None \<Rightarrow> [] | Some bytes \<Rightarrow> [meta_entry TagPackageSize (MetaUint64 bytes)])
     @ map (string_entry TagLicense) (pm_licenses m)
     @ map (\<lambda>dep. meta_entry TagDepends (MetaDependency (stone_dependency_of (rel_kind dep)) (ascii (rel_name dep))))
         (sorted_list_of_set (pm_dependencies m))
     @ map (\<lambda>p. meta_entry TagProvides (MetaProvider (stone_dependency_of (rel_kind p)) (ascii (rel_name p))))
         (filter (\<lambda>p. rel_kind p \<noteq> PackageName) (sorted_list_of_set (pm_providers m)))
     @ map (\<lambda>c. meta_entry TagConflicts (MetaProvider (stone_dependency_of (rel_kind c)) (ascii (rel_name c))))
         (sorted_list_of_set (pm_conflicts m))"

text \<open>The decimal digits of an unsigned integer.\<close>

fun decimal :: "nat \<Rightarrow> string" where
  "decimal n = (if n < 10 then [char_of (48 + n)] else decimal (n div 10) @ [char_of (48 + n mod 10)])"

declare decimal.simps [simp del]

definition package_meta_id :: "package_meta \<Rightarrow> string" where
  "package_meta_id m =
     pm_name m @ ''-'' @ pm_version_identifier m @ ''-'' @ decimal (unat (pm_source_release m)) @ ''.'' @ pm_architecture m"

end
