(* ===== verification/Package_Meta_Properties.thy ===== *)
theory Package_Meta_Properties
  imports Package_Meta
begin

text \<open>
  The two decoders of package metadata against the encoder and against each other.
\<close>

section \<open>Single fields\<close>

lemma text_of_ascii [simp]: "text_of (ascii s) = s"
proof -
  have "char_of (unat (of_char c :: u8)) = c" for c
  proof -
    have "of_char c = (word_of_nat (of_char c) :: u8)" by (simp add: of_nat_of_char)
    moreover have "unat (word_of_nat (of_char c) :: u8) = of_char c"
      by (rule unat_word_of_nat) (use nat_of_char_less_256 [of c] in simp)
    ultimately show ?thesis by (metis char_of_char)
  qed
  then show ?thesis by (simp add: text_of_def ascii_def comp_def)
qed

lemma from_stone_dependency_of [simp]: "from_stone_dependency (stone_dependency_of k) = Some k"
  by (cases k) simp_all

lemma find_map_append: "find_map f (xs @ ys) = (case find_map f xs of Some y \<Rightarrow> Some y | None \<Rightarrow> find_map f ys)"
  by (induction xs) (simp_all split: option.splits)

lemma find_map_none: "(\<And>x. x \<in> set xs \<Longrightarrow> f x = None) \<Longrightarrow> find_map f xs = None"
  by (induction xs) simp_all

lemma find_map_filter: "(\<And>x. f x \<noteq> None \<Longrightarrow> P x) \<Longrightarrow> find_map f xs = find_map f (filter P xs)"
proof (induction xs)
  case (Cons x xs)
  then show ?case using Cons.prems [of x] by (cases "f x") simp_all
qed simp

lemma map_filter_none: "(\<And>x. x \<in> set xs \<Longrightarrow> f x = None) \<Longrightarrow> List.map_filter f xs = []"
  by (induction xs) (simp_all add: List.map_filter_simps)

lemma map_filter_map: "List.map_filter f (map g xs) = List.map_filter (\<lambda>x. f (g x)) xs"
  by (induction xs) (simp_all add: List.map_filter_simps split: option.splits)

lemma map_filter_None [simp]: "List.map_filter (\<lambda>x. None) xs = []"
  by (induction xs) (simp_all add: List.map_filter_simps)

lemma map_filter_Some [simp]: "List.map_filter (\<lambda>x. Some x) xs = xs"
  by (induction xs) (simp_all add: List.map_filter_simps)

lemma map_filter_append: "List.map_filter f (xs @ ys) = List.map_filter f xs @ List.map_filter f ys"
  by (simp add: List.map_filter_def)

lemma repository_record_Ok: "repository_record p t = Ok r \<longleftrightarrow> filter (\<lambda>r. meta_tag_of r = t) p = [r]"
  by (auto simp: repository_record_def Let_def split: list.splits)

lemma repository_string_Ok:
  "repository_string p t = Ok s \<longleftrightarrow>
     (\<exists>r bs. filter (\<lambda>r. meta_tag_of r = t) p = [r] \<and> meta_primitive_of r = MetaString bs \<and> s = text_of bs)"
proof -
  have "(case x of MetaString val \<Rightarrow> Ok (text_of val) | _ \<Rightarrow> Err (WrongPrimitive t ''string'')) = Ok s \<longleftrightarrow>
      (\<exists>bs. x = MetaString bs \<and> s = text_of bs)" for x by (cases x) auto
  then show ?thesis by (simp add: repository_string_def repository_record_Ok result_simps)
qed

lemma repository_nonempty_string_Ok:
  "repository_nonempty_string p t = Ok s \<longleftrightarrow> repository_string p t = Ok s \<and> s \<noteq> []"
  by (auto simp: repository_nonempty_string_def result_simps)

lemma filter_single_mem: "filter P p = [r] \<Longrightarrow> x \<in> set p \<Longrightarrow> P x \<Longrightarrow> x = r"
  using set_filter [of P p] by auto

lemma filter_single_holds: "filter P p = [r] \<Longrightarrow> r \<in> set p \<and> P r"
  using set_filter [of P p] by auto

lemma repository_string_lenient:
  assumes "repository_string p t = Ok s"
  shows "find_meta_string p t = Ok s \<and> (\<forall>r\<in>set p. meta_tag_of r = t \<longrightarrow> meta_dependency_relation r = None)"
proof -
  obtain r bs where f: "filter (\<lambda>r. meta_tag_of r = t) p = [r]" and bs: "meta_primitive_of r = MetaString bs"
    and s: "s = text_of bs" using assms by (auto simp: repository_string_Ok)
  have "find_map (\<lambda>m. meta_string m t) p = find_map (\<lambda>m. meta_string m t) (filter (\<lambda>r. meta_tag_of r = t) p)"
    by (rule find_map_filter) (auto simp: meta_string_def split: meta_primitive.splits if_splits)
  then have "find_meta_string p t = Ok s"
    using f bs s filter_single_holds [OF f] by (simp add: find_meta_string_def meta_string_def)
  moreover have "meta_dependency_relation r = None" using bs by (simp add: meta_dependency_relation_def)
  ultimately show ?thesis using filter_single_mem [OF f] by blast
qed

lemma u64_try_from_Some: "u64_try_from i = Some n \<Longrightarrow> n = scast i"
  by (simp add: u64_try_from_def split: if_splits)

lemma repository_u64_lenient:
  assumes "repository_u64 p t = Ok n"
  shows "find_meta_u64 p t = Ok n \<and> (\<forall>r\<in>set p. meta_tag_of r = t \<longrightarrow> meta_dependency_relation r = None)"
proof -
  obtain r where f: "filter (\<lambda>r. meta_tag_of r = t) p = [r]"
    using assms by (auto simp: repository_u64_def repository_record_Ok result_simps)
  have tag: "meta_tag_of r = t" using filter_single_holds [OF f] by simp
  have some: "meta_u64 r t = Some n \<and> meta_dependency_relation r = None"
    using assms f tag
    by (cases "meta_primitive_of r")
      (auto simp: repository_u64_def repository_record_def meta_u64_def meta_dependency_relation_def result_simps
        dest!: u64_try_from_Some)
  have "find_map (\<lambda>m. meta_u64 m t) p = find_map (\<lambda>m. meta_u64 m t) (filter (\<lambda>r. meta_tag_of r = t) p)"
    by (rule find_map_filter) (auto simp: meta_u64_def split: if_splits)
  then have "find_meta_u64 p t = Ok n" using f some by (simp add: find_meta_u64_def)
  then show ?thesis using some filter_single_mem [OF f] by blast
qed

section \<open>The loop over relations\<close>

text \<open>What is true of every relation the strict decoder admits: its printed form parses back to it.\<close>

definition understood :: "relation \<Rightarrow> bool" where
  "understood r \<longleftrightarrow> relation_from_str (relation_display r) = Ok r"

lemma relation_new_understood: "relation_new k n = Ok r \<longleftrightarrow> r = Relation k n \<and> understood r"
proof -
  have "relation_from_str (relation_display (Relation k n)) = Ok (Relation k n) \<longleftrightarrow>
      validate_target n (relation_display (Relation k n)) = Ok ()"
    by (auto simp: relation_from_str_def relation_parse_def relation_display_def kind_name_no_paren result_simps Let_def)
  then show ?thesis by (auto simp: relation_new_def understood_def result_simps)
qed

lemma checked_relation_Ok:
  "checked_relation t d bs = Ok r \<longleftrightarrow>
     (\<exists>k. from_stone_dependency d = Some k \<and> r = Relation k (text_of bs) \<and> understood r)"
  by (auto simp: checked_relation_def relation_new_understood result_simps)

text \<open>One record adds to each collection what the lenient decoder reads from it.\<close>

definition absorbed :: "stone_meta_record list \<Rightarrow> repository_relations \<Rightarrow> repository_relations" where
  "absorbed p acc = \<lparr> rr_licenses = rr_licenses acc @ List.map_filter (\<lambda>m. meta_string m TagLicense) p,
     rr_dependencies = rr_dependencies acc \<union> set (List.map_filter meta_dependency_relation p),
     rr_providers = rr_providers acc \<union> set (List.map_filter meta_provider p),
     rr_conflicts = rr_conflicts acc \<union> set (List.map_filter meta_conflict p) \<rparr>"

definition relations_of :: "stone_meta_record list \<Rightarrow> relation list" where
  "relations_of p = List.map_filter meta_dependency_relation p @ List.map_filter meta_provider p @ List.map_filter meta_conflict p"

lemma absorbed_Nil [simp]: "absorbed [] acc = acc"
  by (simp add: absorbed_def List.map_filter_simps)

lemma absorbed_Cons: "absorbed (r # p) acc = absorbed p (absorbed [r] acc)"
  by (auto simp: absorbed_def List.map_filter_simps split: option.splits)

lemma repository_step_Ok:
  assumes "repository_step r acc = Ok acc'" and "meta_tag_of r \<in> set singleton_tags \<longrightarrow> meta_dependency_relation r = None"
  shows "acc' = absorbed [r] acc \<and> list_all understood (relations_of [r])"
  using assms
  by (cases "meta_tag_of r"; cases "meta_primitive_of r")
    (auto simp: repository_step_def singleton_tags_def absorbed_def relations_of_def meta_string_def meta_dependency_relation_def
      meta_provider_def meta_conflict_def List.map_filter_simps result_simps checked_relation_Ok Let_def)

lemma repository_loop_Ok:
  assumes "repository_loop p acc = Ok acc'" and "\<forall>r\<in>set p. meta_tag_of r \<in> set singleton_tags \<longrightarrow> meta_dependency_relation r = None"
  shows "acc' = absorbed p acc \<and> list_all understood (relations_of p)"
  using assms
proof (induction p arbitrary: acc)
  case (Cons r p)
  then obtain mid where mid: "repository_step r acc = Ok mid" and rest: "repository_loop p mid = Ok acc'"
    by (auto simp: result_simps)
  have step: "mid = absorbed [r] acc \<and> list_all understood (relations_of [r])"
    using repository_step_Ok [OF mid] Cons.prems(2) by simp
  have "acc' = absorbed p mid \<and> list_all understood (relations_of p)"
    using Cons.IH [OF rest] Cons.prems(2) by simp
  moreover have "set (relations_of (r # p)) = set (relations_of [r]) \<union> set (relations_of p)"
    by (auto simp: relations_of_def List.map_filter_simps split: option.splits)
  ultimately show ?case using step absorbed_Cons [of r p acc] by (auto simp: list_all_iff)
qed (simp add: relations_of_def List.map_filter_simps)

text \<open>Conversely, a payload without singleton fields, of well-typed and understood relations, passes the loop.\<close>

lemma repository_loop_append: "repository_loop (p @ q) acc = res_bind (repository_loop p acc) (repository_loop q)"
proof (induction p arbitrary: acc)
  case (Cons r p)
  then show ?case by (cases "repository_step r acc") simp_all
qed simp

definition admitted :: "stone_meta_record \<Rightarrow> bool" where
  "admitted r \<longleftrightarrow> list_all understood (relations_of [r]) \<and>
     (meta_tag_of r \<in> set singleton_tags \<and> meta_dependency_relation r = None
      \<or> meta_tag_of r = TagLicense \<and> meta_string r TagLicense \<noteq> None
      \<or> meta_tag_of r = TagDepends \<and> meta_dependency_relation r \<noteq> None
      \<or> meta_tag_of r = TagProvides \<and> meta_provider r \<noteq> None
      \<or> meta_tag_of r = TagConflicts \<and> meta_conflict r \<noteq> None)"

lemma repository_step_admitted: "admitted r \<Longrightarrow> repository_step r acc = Ok (absorbed [r] acc)"
  by (cases "meta_tag_of r"; cases "meta_primitive_of r")
    (auto simp: admitted_def repository_step_def singleton_tags_def absorbed_def relations_of_def meta_string_def
      meta_dependency_relation_def meta_provider_def meta_conflict_def List.map_filter_simps checked_relation_def
      relation_new_understood [THEN iffD2] Let_def)

lemma repository_loop_admitted: "list_all admitted p \<Longrightarrow> repository_loop p acc = Ok (absorbed p acc)"
proof (induction p arbitrary: acc)
  case (Cons r p)
  then show ?case using absorbed_Cons [of r p acc] by (simp add: repository_step_admitted)
qed simp

section \<open>The encoded payload\<close>

text \<open>The encoder's output: the singleton fields, then the repeated ones.\<close>

definition singles :: "package_meta \<Rightarrow> stone_meta_record list" where
  "singles m =
     [string_entry TagName (pm_name m), string_entry TagVersion (pm_version_identifier m),
      meta_entry TagRelease (MetaUint64 (pm_source_release m)), meta_entry TagBuildRelease (MetaUint64 (pm_build_release m)),
      string_entry TagArchitecture (pm_architecture m), string_entry TagSummary (pm_summary m),
      string_entry TagDescription (pm_description m), string_entry TagSourceID (pm_source_id m),
      string_entry TagHomepage (pm_homepage m)]
     @ (case pm_uri m of None \<Rightarrow> [] | Some uri \<Rightarrow> [string_entry TagPackageURI uri])
     @ (case pm_hash m of None \<Rightarrow> [] | Some hash \<Rightarrow> [string_entry TagPackageHash hash])
     @ (case pm_download_size m of None \<Rightarrow> [] | Some bytes \<Rightarrow> [meta_entry TagPackageSize (MetaUint64 bytes)])"

definition repeats :: "package_meta \<Rightarrow> stone_meta_record list" where
  "repeats m =
     map (string_entry TagLicense) (pm_licenses m)
     @ map (\<lambda>dep. meta_entry TagDepends (MetaDependency (stone_dependency_of (rel_kind dep)) (ascii (rel_name dep))))
         (sorted_list_of_set (pm_dependencies m))
     @ map (\<lambda>p. meta_entry TagProvides (MetaProvider (stone_dependency_of (rel_kind p)) (ascii (rel_name p))))
         (filter (\<lambda>p. rel_kind p \<noteq> PackageName) (sorted_list_of_set (pm_providers m)))
     @ map (\<lambda>c. meta_entry TagConflicts (MetaProvider (stone_dependency_of (rel_kind c)) (ascii (rel_name c))))
         (sorted_list_of_set (pm_conflicts m))"

lemma to_stone_payload_split: "to_stone_payload m = singles m @ repeats m"
  by (simp add: to_stone_payload_def singles_def repeats_def)

lemma entry_sel [simp]:
  "meta_tag_of (meta_entry t v) = t" "meta_primitive_of (meta_entry t v) = v"
  "meta_tag_of (string_entry t s) = t" "meta_primitive_of (string_entry t s) = MetaString (ascii s)"
  by (simp_all add: meta_entry_def string_entry_def)

lemma entry_reads [simp]:
  "meta_string (string_entry t s) t' = (if t = t' then Some s else None)"
  "meta_string (meta_entry t (MetaDependency d n)) t' = None"
  "meta_string (meta_entry t (MetaProvider d n)) t' = None"
  "meta_dependency_relation (string_entry t s) = None"
  "meta_dependency_relation (meta_entry t (MetaDependency (stone_dependency_of (rel_kind r)) (ascii (rel_name r)))) = Some r"
  "meta_dependency_relation (meta_entry t (MetaProvider d n)) = None"
  "meta_provider (string_entry t s) = None"
  "meta_provider (meta_entry t (MetaDependency d n)) = None"
  "meta_provider (meta_entry t (MetaProvider (stone_dependency_of (rel_kind r)) (ascii (rel_name r)))) =
     (if t = TagProvides then Some r else None)"
  "meta_conflict (string_entry t s) = None"
  "meta_conflict (meta_entry t (MetaDependency d n)) = None"
  "meta_conflict (meta_entry t (MetaProvider (stone_dependency_of (rel_kind r)) (ascii (rel_name r)))) =
     (if t = TagConflicts then Some r else None)"
  by (simp_all add: meta_string_def meta_dependency_relation_def meta_provider_def meta_conflict_def split: meta_tag.split)

lemma repeats_tags: "r \<in> set (repeats m) \<Longrightarrow> meta_tag_of r \<in> {TagLicense, TagDepends, TagProvides, TagConflicts}"
  by (auto simp: repeats_def)

lemma singles_tags: "r \<in> set (singles m) \<Longrightarrow> meta_tag_of r \<in> set singleton_tags"
  by (auto simp: singles_def singleton_tags_def split: option.splits)

lemma singles_no_relation:
  "r \<in> set (singles m) \<Longrightarrow> meta_dependency_relation r = None \<and> meta_provider r = None \<and> meta_conflict r = None"
  by (auto simp: singles_def meta_dependency_relation_def meta_provider_def meta_conflict_def split: option.splits)

lemma singles_no_license: "r \<in> set (singles m) \<Longrightarrow> meta_string r TagLicense = None"
  using singles_tags [of r m] by (auto simp: meta_string_def singleton_tags_def split: meta_primitive.splits)

lemma find_string_singles:
  "t \<noteq> TagLicense \<Longrightarrow> find_map (\<lambda>r. meta_string r t) (singles m @ repeats m) = find_map (\<lambda>r. meta_string r t) (singles m)"
  by (subst find_map_append, subst find_map_none [of "repeats m"])
    (auto simp: repeats_def meta_string_def split: option.splits)

lemma find_u64_singles:
  "find_map (\<lambda>r. meta_u64 r t) (singles m @ repeats m) = find_map (\<lambda>r. meta_u64 r t) (singles m)"
  by (subst find_map_append, subst find_map_none [of "repeats m"])
    (auto simp: repeats_def meta_u64_def split: option.splits)

lemma find_singles:
  "find_meta_string (to_stone_payload m) TagName = Ok (pm_name m)"
  "find_meta_string (to_stone_payload m) TagVersion = Ok (pm_version_identifier m)"
  "find_meta_string (to_stone_payload m) TagArchitecture = Ok (pm_architecture m)"
  "find_meta_string (to_stone_payload m) TagSummary = Ok (pm_summary m)"
  "find_meta_string (to_stone_payload m) TagDescription = Ok (pm_description m)"
  "find_meta_string (to_stone_payload m) TagSourceID = Ok (pm_source_id m)"
  "find_meta_string (to_stone_payload m) TagHomepage = Ok (pm_homepage m)"
  "find_meta_u64 (to_stone_payload m) TagRelease = Ok (pm_source_release m)"
  "find_meta_u64 (to_stone_payload m) TagBuildRelease = Ok (pm_build_release m)"
  "ok_value (find_meta_string (to_stone_payload m) TagPackageURI) = pm_uri m"
  "ok_value (find_meta_string (to_stone_payload m) TagPackageHash) = pm_hash m"
  "ok_value (find_meta_u64 (to_stone_payload m) TagPackageSize) = pm_download_size m"
  by (simp_all add: to_stone_payload_split find_meta_string_def find_meta_u64_def find_string_singles find_u64_singles)
    (simp_all add: singles_def meta_string_def meta_u64_def split: option.splits)

lemma map_filter_repeats:
  assumes "\<And>r. r \<in> set (singles m) \<Longrightarrow> f r = None"
  shows "List.map_filter f (to_stone_payload m) = List.map_filter f (repeats m)"
  using map_filter_none [of "singles m" f] assms by (simp add: to_stone_payload_split map_filter_append)

lemma licenses_repeats: "List.map_filter (\<lambda>r. meta_string r TagLicense) (to_stone_payload m) = pm_licenses m"
  by (subst map_filter_repeats) (simp_all add: singles_no_license repeats_def map_filter_append map_filter_map)

lemma relations_repeats:
  assumes "finite (pm_dependencies m)" "finite (pm_providers m)" "finite (pm_conflicts m)"
  shows "set (List.map_filter meta_dependency_relation (to_stone_payload m)) = pm_dependencies m"
    and "set (List.map_filter meta_provider (to_stone_payload m)) = {p \<in> pm_providers m. rel_kind p \<noteq> PackageName}"
    and "set (List.map_filter meta_conflict (to_stone_payload m)) = pm_conflicts m"
  using assms map_filter_repeats [of m meta_dependency_relation] map_filter_repeats [of m meta_provider]
    map_filter_repeats [of m meta_conflict]
  by (auto simp: singles_no_relation repeats_def map_filter_append map_filter_map)

text \<open>The encoder drops the providers that are package names, and the decoder adds the package's own.\<close>

definition renamed_providers :: "package_meta \<Rightarrow> package_meta" where
  "renamed_providers m =
     m \<lparr> pm_providers := insert (Relation PackageName (pm_name m)) {p \<in> pm_providers m. rel_kind p \<noteq> PackageName} \<rparr>"

definition finite_relations :: "package_meta \<Rightarrow> bool" where
  "finite_relations m \<longleftrightarrow> finite (pm_dependencies m) \<and> finite (pm_providers m) \<and> finite (pm_conflicts m)"

lemma from_to_stone_payload:
  assumes "finite_relations m"
  shows "from_stone_payload (to_stone_payload m) = Ok (renamed_providers m)"
proof -
  have "finite (pm_dependencies m)" "finite (pm_providers m)" "finite (pm_conflicts m)"
    using assms by (simp_all add: finite_relations_def)
  from relations_repeats [OF this] show ?thesis
    by (simp add: from_stone_payload_def find_singles licenses_repeats renamed_providers_def)
qed

section \<open>The strict decoder\<close>

definition nonempty :: "string option \<Rightarrow> bool" where
  "nonempty v \<longleftrightarrow> (case v of None \<Rightarrow> False | Some s \<Rightarrow> s \<noteq> [])"

text \<open>What a repository index entry promises beyond package metadata.\<close>

definition indexable :: "package_meta \<Rightarrow> bool" where
  "indexable m \<longleftrightarrow>
     pm_name m \<noteq> [] \<and> pm_version_identifier m \<noteq> [] \<and> pm_architecture m \<noteq> [] \<and> pm_source_id m \<noteq> []
     \<and> nonempty (pm_uri m)
     \<and> (case pm_hash m of None \<Rightarrow> False | Some hash \<Rightarrow> valid_package_hash hash)
     \<and> (case pm_download_size m of None \<Rightarrow> False | Some bytes \<Rightarrow> bytes \<le> DEFAULT_DOWNLOAD_LIMIT)
     \<and> unat (pm_source_release m) < 2 ^ 31 \<and> unat (pm_build_release m) < 2 ^ 31
     \<and> (\<forall>r \<in> pm_dependencies m \<union> pm_providers m \<union> pm_conflicts m. understood r)"

lemma limit_below_i64: "bytes \<le> DEFAULT_DOWNLOAD_LIMIT \<Longrightarrow> unat bytes < 2 ^ 63"
  by (simp add: DEFAULT_DOWNLOAD_LIMIT_def word_le_nat_alt)

lemma repository_singletons:
  assumes "from_repository_index_payload p = Ok m"
  shows "\<forall>r\<in>set p. meta_tag_of r \<in> set singleton_tags \<longrightarrow> meta_dependency_relation r = None"
proof -
  have strings: "repository_string p t = Ok s \<Longrightarrow> r \<in> set p \<Longrightarrow> meta_tag_of r = t \<Longrightarrow> meta_dependency_relation r = None" for t s r
    using repository_string_lenient by blast
  have ints: "repository_u64 p t = Ok n \<Longrightarrow> r \<in> set p \<Longrightarrow> meta_tag_of r = t \<Longrightarrow> meta_dependency_relation r = None" for t n r
    using repository_u64_lenient by blast
  show ?thesis
    using assms
    unfolding from_repository_index_payload_def result_simps repository_nonempty_string_Ok
    by (elim exE conjE) (auto simp: singleton_tags_def intro: strings ints)
qed

lemma from_repository_index_sound:
  assumes "from_repository_index_payload p = Ok m"
  shows "from_stone_payload p = Ok m \<and> indexable m"
proof -
  note singles = repository_singletons [OF assms]
  note lenient = repository_string_lenient [THEN conjunct1] repository_u64_lenient [THEN conjunct1]
  obtain acc where loop: "repository_loop p \<lparr> rr_licenses = [], rr_dependencies = {}, rr_providers = {}, rr_conflicts = {} \<rparr> = Ok acc"
    using assms by (auto simp: from_repository_index_payload_def result_simps)
  have acc: "acc = absorbed p \<lparr> rr_licenses = [], rr_dependencies = {}, rr_providers = {}, rr_conflicts = {} \<rparr>"
    and known: "list_all understood (relations_of p)"
    using repository_loop_Ok [OF loop singles] by simp_all
  have "from_stone_payload p = Ok m"
    using assms loop acc
    unfolding from_repository_index_payload_def result_simps repository_nonempty_string_Ok
    by (elim exE conjE) (simp add: from_stone_payload_def lenient absorbed_def relation_new_understood)
  moreover have "indexable m"
    using assms loop acc known
    unfolding from_repository_index_payload_def result_simps repository_nonempty_string_Ok
    by (elim exE conjE)
      (auto simp: indexable_def nonempty_def absorbed_def relation_new_understood relations_of_def list_all_iff not_less)
  ultimately show ?thesis ..
qed

lemma repository_record_singles:
  assumes "t \<in> set singleton_tags"
  shows "repository_record (to_stone_payload m) t = repository_record (singles m) t"
proof -
  have "filter (\<lambda>r. meta_tag_of r = t) (repeats m) = []"
    using assms repeats_tags [of _ m] by (fastforce simp: filter_empty_conv singleton_tags_def)
  then show ?thesis by (simp add: repository_record_def to_stone_payload_split)
qed

lemma repository_singles:
  "repository_string (to_stone_payload m) TagName = Ok (pm_name m)"
  "repository_string (to_stone_payload m) TagVersion = Ok (pm_version_identifier m)"
  "repository_string (to_stone_payload m) TagArchitecture = Ok (pm_architecture m)"
  "repository_string (to_stone_payload m) TagSummary = Ok (pm_summary m)"
  "repository_string (to_stone_payload m) TagDescription = Ok (pm_description m)"
  "repository_string (to_stone_payload m) TagSourceID = Ok (pm_source_id m)"
  "repository_string (to_stone_payload m) TagHomepage = Ok (pm_homepage m)"
  "repository_u64 (to_stone_payload m) TagRelease = Ok (pm_source_release m)"
  "repository_u64 (to_stone_payload m) TagBuildRelease = Ok (pm_build_release m)"
  "pm_uri m = Some uri \<Longrightarrow> repository_string (to_stone_payload m) TagPackageURI = Ok uri"
  "pm_hash m = Some hash \<Longrightarrow> repository_string (to_stone_payload m) TagPackageHash = Ok hash"
  "pm_download_size m = Some bytes \<Longrightarrow> repository_u64 (to_stone_payload m) TagPackageSize = Ok bytes"
  by (simp_all add: repository_string_def repository_u64_def repository_record_singles singleton_tags_def)
    (simp_all add: repository_record_def singles_def split: option.splits)

lemma encoded_admitted:
  assumes "finite_relations m" and "\<forall>r \<in> pm_dependencies m \<union> pm_conflicts m. understood r"
    and "\<forall>r \<in> pm_providers m. rel_kind r \<noteq> PackageName \<longrightarrow> understood r"
  shows "list_all admitted (to_stone_payload m)"
proof -
  have "r \<in> set (singles m) \<Longrightarrow> admitted r" for r
    using singles_tags [of r m] singles_no_relation [of r m]
    by (simp add: admitted_def relations_of_def List.map_filter_simps)
  moreover have "r \<in> set (repeats m) \<Longrightarrow> admitted r" for r
    using assms
    by (auto simp: repeats_def finite_relations_def admitted_def relations_of_def List.map_filter_simps)
  ultimately show ?thesis by (auto simp: to_stone_payload_split list_all_iff)
qed

lemma from_repository_index_encoded:
  assumes fin: "finite_relations m" and ok: "indexable (renamed_providers m)"
  shows "from_repository_index_payload (to_stone_payload m) = Ok (renamed_providers m)"
proof -
  obtain uri where uri: "pm_uri m = Some uri" "uri \<noteq> []"
    using ok by (auto simp: indexable_def nonempty_def renamed_providers_def split: option.splits)
  obtain hash where hash: "pm_hash m = Some hash" "valid_package_hash hash"
    using ok by (auto simp: indexable_def renamed_providers_def split: option.splits)
  obtain bytes where bytes: "pm_download_size m = Some bytes" "bytes \<le> DEFAULT_DOWNLOAD_LIMIT"
    using ok by (auto simp: indexable_def renamed_providers_def split: option.splits)
  have own: "relation_new PackageName (pm_name m) = Ok (Relation PackageName (pm_name m))"
    using ok by (simp add: indexable_def renamed_providers_def relation_new_understood)
  have loop: "repository_loop (to_stone_payload m) acc = Ok (absorbed (to_stone_payload m) acc)" for acc
    by (rule repository_loop_admitted, rule encoded_admitted [OF fin])
      (use ok in \<open>auto simp: indexable_def renamed_providers_def\<close>)
  have "finite (pm_dependencies m)" "finite (pm_providers m)" "finite (pm_conflicts m)"
    using fin by (simp_all add: finite_relations_def)
  note sets = relations_repeats [OF this]
  have "unat bytes < 9223372036854775808" using limit_below_i64 [OF bytes(2)] by simp
  then show ?thesis
    using uri hash bytes ok
    by (simp add: from_repository_index_payload_def repository_nonempty_string_def repository_singles own loop
        absorbed_def licenses_repeats sets indexable_def renamed_providers_def not_le)
qed

section \<open>Properties of package metadata\<close>

text \<open>
  C33: the strict decoder of repository index entries refines the decoder of package metadata. What it
  accepts, the lenient decoder reads as the same package, and the package has a name, version,
  architecture, source identifier and address that are not empty, a hash of 64 lower-case hexadecimal
  digits, a size within the download limit, releases that fit a signed 32-bit column, and only relations
  whose printed form parses back.
\<close>

theorem index_entry_refines_metadata:
  assumes "from_repository_index_payload payload = Ok m"
  shows "from_stone_payload payload = Ok m \<and> indexable m"
  using assms by (rule from_repository_index_sound)

text \<open>
  C34: an encoded package is accepted as an index entry exactly when it meets the promises of an entry, and
  is then read back unchanged but for the providers that are package names: the encoder leaves them out
  and the decoder adds the package's own name.
\<close>

theorem index_entry_accepted_iff:
  assumes "finite_relations m"
  shows "from_repository_index_payload (to_stone_payload m) = Ok m' \<longleftrightarrow>
           m' = renamed_providers m \<and> indexable (renamed_providers m)"
  using from_repository_index_sound [of "to_stone_payload m" m'] from_to_stone_payload [OF assms]
    from_repository_index_encoded [OF assms] by auto

text \<open>
  C35: encoding package metadata as payload records and decoding them gives the metadata back, with the
  package's own name as the only provider that is a package name.
\<close>

theorem package_meta_round_trip:
  assumes "finite_relations m"
  shows "from_stone_payload (to_stone_payload m) = Ok (renamed_providers m)"
  using assms by (rule from_to_stone_payload)

section \<open>An example\<close>

definition sample_meta :: package_meta where
  "sample_meta = \<lparr> pm_name = ''nano'', pm_version_identifier = ''8.1'', pm_source_release = 3, pm_build_release = 1,
     pm_architecture = ''x86_64'', pm_summary = ''Editor'', pm_description = [], pm_source_id = ''nano'',
     pm_homepage = [], pm_licenses = [''GPL-3.0''], pm_dependencies = {Relation SharedLibrary ''libc.so.6(x86_64)''},
     pm_providers = {Relation BinaryName ''nano'', Relation PackageName ''nano''}, pm_conflicts = {},
     pm_uri = Some ''n.stone'', pm_hash = Some (replicate 64 (CHR ''a'')), pm_download_size = Some 4096 \<rparr>"

lemma sample_finite: "finite_relations sample_meta"
  by (simp add: finite_relations_def sample_meta_def)

lemma sample_understood:
  "understood (Relation SharedLibrary ''libc.so.6(x86_64)'')" "understood (Relation BinaryName ''nano'')"
  "understood (Relation PackageName ''nano'')"
  by (simp_all add: understood_def relation_from_str_def relation_parse_def relation_display_def split_once_def
      kind_of_name_def validate_target_def)

lemma sample_renamed: "renamed_providers sample_meta = sample_meta"
  by (auto simp: renamed_providers_def sample_meta_def)

lemma sample_indexable: "indexable sample_meta"
  using sample_understood
  by (simp add: indexable_def nonempty_def sample_meta_def valid_package_hash_def list_all_iff is_lower_hex_def
      less_eq_char_def DEFAULT_DOWNLOAD_LIMIT_def)

theorem index_entry_refines_metadata_witness:
  "from_stone_payload (to_stone_payload sample_meta) = Ok sample_meta \<and> indexable sample_meta"
  by (rule index_entry_refines_metadata)
    (use from_repository_index_encoded [OF sample_finite] sample_renamed sample_indexable in simp)

theorem index_entry_accepted_iff_witness:
  "from_repository_index_payload (to_stone_payload sample_meta) = Ok sample_meta"
  using index_entry_accepted_iff [OF sample_finite, of sample_meta] sample_renamed sample_indexable by simp

theorem package_meta_round_trip_witness:
  "from_stone_payload (to_stone_payload sample_meta) = Ok sample_meta"
  using package_meta_round_trip [OF sample_finite] sample_renamed by simp

end
