(* ===== verification/Ordered_Map.thy ===== *)
theory Ordered_Map
  imports Cast_Prelude "HOL-Library.List_Lexorder" "HOL-Library.Product_Lexorder" "HOL-Library.Sublist"
begin

text \<open>
  What the components use of the ordered collections of the standard library: comparisons, the stable
  sort, and the ordered map (\<open>BTreeMap\<close>) as the list of its entries in ascending key order. Clients of the
  map rely on the laws of the locale \<open>ordered_map\<close>.
\<close>

section \<open>Comparisons\<close>

datatype ordering = Less | Equal | Greater

definition ord_cmp :: "'a::linorder \<Rightarrow> 'a \<Rightarrow> ordering" where
  "ord_cmp a b = (if a < b then Less else if a = b then Equal else Greater)"

fun then_with :: "ordering \<Rightarrow> ordering \<Rightarrow> ordering" where
  "then_with Equal later = later"
| "then_with Less later = Less"
| "then_with Greater later = Greater"

lemma then_with_Less: "then_with a b = Less \<longleftrightarrow> a = Less \<or> a = Equal \<and> b = Less"
  by (cases a) simp_all

lemma then_with_Equal: "then_with a b = Equal \<longleftrightarrow> a = Equal \<and> b = Equal"
  by (cases a) simp_all

text \<open>The stable sort of the standard library by a comparison.\<close>

fun insert_by :: "('a \<Rightarrow> 'a \<Rightarrow> ordering) \<Rightarrow> 'a \<Rightarrow> 'a list \<Rightarrow> 'a list" where
  "insert_by cmp x [] = [x]"
| "insert_by cmp x (y # ys) = (if cmp x y = Greater then y # insert_by cmp x ys else x # y # ys)"

definition sort_by :: "('a \<Rightarrow> 'a \<Rightarrow> ordering) \<Rightarrow> 'a list \<Rightarrow> 'a list" where
  "sort_by cmp xs = foldr (insert_by cmp) xs []"

lemma sort_by_key:
  assumes "\<And>a b. cmp a b = ord_cmp (key a) (key b)"
  shows "sort_by cmp xs = sort_key key xs"
proof -
  have greater: "cmp a b = Greater \<longleftrightarrow> \<not> key a \<le> key b" for a b
    unfolding assms ord_cmp_def by auto
  have "insert_by cmp x ys = insort_key key x ys" for x ys
    by (induction ys) (simp_all add: greater)
  then have "insert_by cmp = insort_key key" by (intro ext)
  then show ?thesis by (simp add: sort_by_def sort_key_def)
qed

section \<open>Ordered maps\<close>

definition btree_get :: "('k \<times> 'v) list \<Rightarrow> 'k \<Rightarrow> 'v option" where
  "btree_get m k = map_of m k"

definition btree_range_first :: "('k::linorder \<times> 'v) list \<Rightarrow> 'k \<Rightarrow> ('k \<times> 'v) option" where
  "btree_range_first m k = find (\<lambda>e. k \<le> fst e) m"

fun btree_insert :: "'k::linorder \<Rightarrow> 'v \<Rightarrow> ('k \<times> 'v) list \<Rightarrow> ('k \<times> 'v) list" where
  "btree_insert k v [] = [(k, v)]"
| "btree_insert k v (e # m) =
     (if k < fst e then (k, v) # e # m else if k = fst e then (k, v) # m else e # btree_insert k v m)"

definition btree_remove :: "'k \<Rightarrow> ('k \<times> 'v) list \<Rightarrow> ('k \<times> 'v) list" where
  "btree_remove k m = filter (\<lambda>e. fst e \<noteq> k) m"

text \<open>Collecting an iterator of entries into a map: a later entry replaces an earlier one of its key.\<close>

definition btree_collect :: "('k::linorder \<times> 'v) list \<Rightarrow> ('k \<times> 'v) list" where
  "btree_collect es = foldl (\<lambda>m e. btree_insert (fst e) (snd e) m) [] es"

definition btree_sorted :: "('k::linorder \<times> 'v) list \<Rightarrow> bool" where
  "btree_sorted m \<longleftrightarrow> sorted_wrt (<) (map fst m)"

section \<open>The contract\<close>

locale ordered_map =
  fixes get :: "'m \<Rightarrow> 'k::linorder \<Rightarrow> 'v option"
    and range_first :: "'m \<Rightarrow> 'k \<Rightarrow> ('k \<times> 'v) option"
    and insert_entry :: "'k \<Rightarrow> 'v \<Rightarrow> 'm \<Rightarrow> 'm"
    and well_formed :: "'m \<Rightarrow> bool"
  assumes get_insert: "well_formed m \<Longrightarrow> get (insert_entry k v m) k' = (if k' = k then Some v else get m k')"
    and insert_well_formed: "well_formed m \<Longrightarrow> well_formed (insert_entry k v m)"
    and range_first_None: "well_formed m \<Longrightarrow> range_first m k = None \<longleftrightarrow> (\<forall>k'. get m k' \<noteq> None \<longrightarrow> k' < k)"
    and range_first_Some: "well_formed m \<Longrightarrow> range_first m k = Some (k', v) \<longleftrightarrow>
      get m k' = Some v \<and> k \<le> k' \<and> (\<forall>k''. get m k'' \<noteq> None \<longrightarrow> k \<le> k'' \<longrightarrow> k' \<le> k'')"

text \<open>Keys that are texts in a domain: the entries below a prefix are found by one probe.\<close>

lemma prefix_interval:
  fixes p x y :: "'a::linorder list"
  assumes "p \<le> x" and "x \<le> y" and "prefix p y"
  shows "prefix p x"
  using assms
proof (induction p arbitrary: x y)
  case (Cons a p)
  from Cons.prems(3) obtain y' where y: "y = a # y'" "prefix p y'" by (cases y) auto
  from Cons.prems(1) obtain b x' where x: "x = b # x'" by (cases x) auto
  from Cons.prems(1,2) have "b = a" "p \<le> x'" "x' \<le> y'" unfolding x y by (auto simp: less_le_not_le)
  with Cons.IH [of x' y'] y(2) show ?case by (simp add: x)
qed simp

lemma prefix_le:
  fixes p x :: "'a::linorder list"
  shows "prefix p x \<Longrightarrow> p \<le> x"
proof (induction p arbitrary: x)
  case (Cons a p)
  then show ?case by (cases x) auto
qed simp

locale path_map = ordered_map get range_first insert_entry well_formed
  for get :: "'m \<Rightarrow> ('d::linorder \<times> 'c::linorder list) \<Rightarrow> 'v option"
    and range_first insert_entry well_formed
begin

lemma prefix_probe_hit:
  assumes "well_formed m" and "range_first m (d, p) = Some ((d', k), v)" and "d' = d" and "prefix p k"
  shows "get m (d, k) = Some v"
  using assms by (simp add: range_first_Some)

lemma prefix_probe_miss:
  assumes wf: "well_formed m" and miss: "\<And>k v. range_first m (d, p) = Some ((d, k), v) \<Longrightarrow> \<not> prefix p k"
    and "prefix p k"
  shows "get m (d, k) = None"
proof (rule ccontr)
  assume some: "get m (d, k) \<noteq> None"
  have le: "(d, p) \<le> (d, k)" using prefix_le [OF \<open>prefix p k\<close>] by (simp add: less_eq_prod_def)
  show False
  proof (cases "range_first m (d, p)")
    case None
    with wf some have "(d, k) < (d, p)" unfolding range_first_None [OF wf] by blast
    with le show False by simp
  next
    case (Some e)
    obtain d' k' v where e: "e = ((d', k'), v)" by (metis surj_pair)
    from Some [unfolded e] wf have "(d, p) \<le> (d', k')" "(d', k') \<le> (d, k)"
      using some le by (auto simp: range_first_Some)
    then have "d' = d" "p \<le> k'" "k' \<le> k" by (auto simp: less_eq_prod_def)
    with prefix_interval [of p k' k] \<open>prefix p k\<close> miss [of k' v] Some e show False by simp
  qed
qed

end

section \<open>The model keeps the contract\<close>

lemma btree_get_insert:
  "btree_sorted m \<Longrightarrow> btree_get (btree_insert k v m) k' = (if k' = k then Some v else btree_get m k')"
  by (induction m) (auto simp: btree_get_def btree_sorted_def)

lemma set_fst_btree_insert: "fst ` set (btree_insert k v m) = insert k (fst ` set m)"
  by (induction m) auto

lemma btree_insert_sorted: "btree_sorted m \<Longrightarrow> btree_sorted (btree_insert k v m)"
proof (induction m)
  case (Cons e m)
  then have "btree_sorted m" "\<forall>k' \<in> fst ` set m. fst e < k'" by (auto simp: btree_sorted_def)
  with Cons.IH show ?case
    using set_fst_btree_insert [of k v m] by (auto simp: btree_sorted_def)
qed (simp add: btree_sorted_def)

lemma btree_get_Some: "btree_sorted m \<Longrightarrow> btree_get m k = Some v \<longleftrightarrow> (k, v) \<in> set m"
  unfolding btree_get_def btree_sorted_def
  by (rule map_of_eq_Some_iff) (simp add: strict_sorted_iff)

lemma btree_get_key: "btree_get m k \<noteq> None \<longleftrightarrow> k \<in> fst ` set m"
  by (simp add: btree_get_def map_of_eq_None_iff)

lemma btree_range_first_None: "btree_range_first m k = None \<longleftrightarrow> (\<forall>k'. btree_get m k' \<noteq> None \<longrightarrow> k' < k)"
  unfolding btree_get_key by (auto simp: btree_range_first_def find_None_iff not_le)

lemma btree_range_first_Cons:
  "btree_range_first (e # m) k = (if k \<le> fst e then Some e else btree_range_first m k)"
  by (simp add: btree_range_first_def)

lemma btree_range_first_Some:
  "btree_sorted m \<Longrightarrow> btree_range_first m k = Some (k', v) \<longleftrightarrow>
     btree_get m k' = Some v \<and> k \<le> k' \<and> (\<forall>k''. btree_get m k'' \<noteq> None \<longrightarrow> k \<le> k'' \<longrightarrow> k' \<le> k'')"
proof (induction m)
  case Nil
  then show ?case by (simp add: btree_range_first_def btree_get_def)
next
  case (Cons e m)
  then have m: "btree_sorted m" and less: "\<forall>k' \<in> fst ` set m. fst e < k'" by (auto simp: btree_sorted_def)
  note IH = Cons.IH [OF m] and keys = btree_get_key [of "e # m"] btree_get_key [of m]
  show ?case
  proof (cases "k \<le> fst e")
    case True
    then show ?thesis
      using less unfolding btree_range_first_Cons keys btree_get_Some [OF Cons.prems]
      by (cases e) force
  next
    case False
    then show ?thesis
      using less IH unfolding btree_range_first_Cons keys btree_get_Some [OF Cons.prems] btree_get_Some [OF m]
      by auto
  qed
qed

interpretation btree: path_map btree_get btree_range_first btree_insert btree_sorted
  by unfold_locales
    (simp_all only: btree_get_insert btree_insert_sorted btree_range_first_None btree_range_first_Some)

lemma btree_get_remove: "btree_get (btree_remove k m) k' = (if k' = k then None else btree_get m k')"
  by (induction m) (auto simp: btree_get_def btree_remove_def)

lemma set_fst_btree_remove: "fst ` set (btree_remove k m) = fst ` set m - {k}"
  by (auto simp: btree_remove_def)

lemma btree_remove_sorted: "btree_sorted m \<Longrightarrow> btree_sorted (btree_remove k m)"
  by (induction m) (auto simp: btree_sorted_def btree_remove_def)

lemma set_fst_btree_collect: "fst ` set (btree_collect es) = fst ` set es"
proof -
  have "fst ` set (foldl (\<lambda>m e. btree_insert (fst e) (snd e) m) m es) = fst ` set m \<union> fst ` set es" for m
    by (induction es arbitrary: m) (auto simp: set_fst_btree_insert)
  then show ?thesis unfolding btree_collect_def by simp
qed

lemma btree_insert_entries: "set (btree_insert k v m) \<subseteq> insert (k, v) (set m)"
  by (induction m) auto

lemma btree_collect_entries: "set (btree_collect es) \<subseteq> set es"
proof -
  have "set (foldl (\<lambda>m e. btree_insert (fst e) (snd e) m) m es) \<subseteq> set m \<union> set es" for m
  proof (induction es arbitrary: m)
    case (Cons e es)
    have "set (btree_insert (fst e) (snd e) m) \<union> set es \<subseteq> set m \<union> set (e # es)"
      using btree_insert_entries [of "fst e" "snd e" m] by auto
    with Cons.IH [of "btree_insert (fst e) (snd e) m"] show ?case by (simp only: foldl.simps)
  qed simp
  from this [of "[]"] show ?thesis by (simp add: btree_collect_def)
qed

end
