(* ===== verification/Boot_Receipt.thy ===== *)
theory Boot_Receipt
  imports Journal_Codec Text_Prelude Ordered_Map
begin

text \<open>
  The boot-publication receipt (\<open>forge/src/boot_publication/receipt_body.rs\<close> and
  \<open>receipt_codec.rs\<close>): the inventory of the files published to the boot partitions, its validation,
  and its canonical encoding. Texts are their UTF-8 bytes. The device-number functions of
  \<open>libc\<close>, the JSON codec of \<open>serde_json\<close> and the digest of \<open>sha2\<close> are parameters.
\<close>

section \<open>Hexadecimal text\<close>

datatype boot_publication_sha256 = BootPublicationSha256 "u8 list"

datatype boot_publication_xxh3 = BootPublicationXxh3 "u8 list"

definition xxh3_from_u128 :: "u128 \<Rightarrow> boot_publication_xxh3" where
  "xxh3_from_u128 value = BootPublicationXxh3 (to_be_bytes value)"

fun xxh3_as_u128 :: "boot_publication_xxh3 \<Rightarrow> u128" where
  "xxh3_as_u128 (BootPublicationXxh3 bytes) = from_be_bytes bytes"

definition HEX :: string where
  "HEX = ''0123456789abcdef''"

definition encode_lower_hex :: "u8 list \<Rightarrow> string" where
  "encode_lower_hex bytes =
     concat (map (\<lambda>byte. [HEX ! unat (drop_bit 4 byte), HEX ! unat (and byte 0x0F)]) bytes)"

definition decode_nibble :: "u8 \<Rightarrow> u8 option" where
  "decode_nibble byte =
     (if 48 \<le> byte \<and> byte \<le> 57 then Some (byte - 48)
      else if 97 \<le> byte \<and> byte \<le> 102 then Some (byte - 97 + 10)
      else None)"

text \<open>The loop over pairs of digits; a trailing odd digit is excluded by the length test before it.\<close>

fun decode_pairs :: "u8 list \<Rightarrow> u8 list option" where
  "decode_pairs (a # b # encoded) =
     (case decode_nibble a of
        None \<Rightarrow> None
      | Some high \<Rightarrow>
          (case decode_nibble b of
             None \<Rightarrow> None
           | Some low \<Rightarrow> map_option ((#) (or (push_bit 4 high) low)) (decode_pairs encoded)))"
| "decode_pairs encoded = Some []"

text \<open>\<open>visit_str\<close> of the visitor for \<open>N\<close> bytes; the error carries the refused text.\<close>

definition lower_hex_visit_str :: "nat \<Rightarrow> string \<Rightarrow> (u8 list, string) result" where
  "lower_hex_visit_str N value =
     (let encoded = map of_char value
      in if length encoded \<noteq> N * 2 then Err value else ok_or (decode_pairs encoded) value)"

definition sha256_serialize :: "boot_publication_sha256 \<Rightarrow> string" where
  "sha256_serialize h = (case h of BootPublicationSha256 bytes \<Rightarrow> encode_lower_hex bytes)"

definition sha256_deserialize :: "string \<Rightarrow> (boot_publication_sha256, string) result" where
  "sha256_deserialize value = res_bind (lower_hex_visit_str 32 value) (\<lambda>bytes. Ok (BootPublicationSha256 bytes))"

definition xxh3_serialize :: "boot_publication_xxh3 \<Rightarrow> string" where
  "xxh3_serialize h = (case h of BootPublicationXxh3 bytes \<Rightarrow> encode_lower_hex bytes)"

definition xxh3_deserialize :: "string \<Rightarrow> (boot_publication_xxh3, string) result" where
  "xxh3_deserialize value = res_bind (lower_hex_visit_str 16 value) (\<lambda>bytes. Ok (BootPublicationXxh3 bytes))"

section \<open>The receipt\<close>

definition BOOT_PUBLICATION_RECEIPT_FORMAT :: string where
  "BOOT_PUBLICATION_RECEIPT_FORMAT = ''cast-boot-publication-receipt''"

definition BOOT_PUBLICATION_RECEIPT_BODY_VERSION :: u16 where
  "BOOT_PUBLICATION_RECEIPT_BODY_VERSION = 1"

definition MAX_BOOT_PUBLICATION_RECEIPT_OUTPUTS :: nat where
  "MAX_BOOT_PUBLICATION_RECEIPT_OUTPUTS = 8336"

definition MAX_BOOT_PUBLICATION_RECEIPT_PATH_BYTES :: nat where
  "MAX_BOOT_PUBLICATION_RECEIPT_PATH_BYTES = 8 * 1024 * 1024"

text \<open>\<open>PATH_MAX\<close> is 4096 on Linux.\<close>

definition MAX_BOOT_PUBLICATION_RECEIPT_SINGLE_PATH_BYTES :: nat where
  "MAX_BOOT_PUBLICATION_RECEIPT_SINGLE_PATH_BYTES = 4096 - 1"

definition MAX_BOOT_PUBLICATION_RECEIPT_PATH_COMPONENTS :: nat where
  "MAX_BOOT_PUBLICATION_RECEIPT_PATH_COMPONENTS = 16"

definition MAX_BOOT_PUBLICATION_RECEIPT_FAT_COMPONENT_BYTES :: nat where
  "MAX_BOOT_PUBLICATION_RECEIPT_FAT_COMPONENT_BYTES = 255"

definition MAX_BOOT_PUBLICATION_RECEIPT_LOGICAL_BYTES :: u64 where
  "MAX_BOOT_PUBLICATION_RECEIPT_LOGICAL_BYTES = 10 * 1024 * 1024 * 1024"

text \<open>Octal 644.\<close>

definition CANONICAL_ACTIVE_REBLIT_OUTPUT_MODE :: u32 where
  "CANONICAL_ACTIVE_REBLIT_OUTPUT_MODE = 420"

record runtime_witness =
  destination_device :: u64
  destination_inode :: u64
  mount_id :: u64
  partition_device_major :: u32
  partition_device_minor :: u32
  disk_sequence :: "u64 option"

record boot_destination =
  partuuid :: string
  partition_number :: u32
  historical_runtime_witness :: runtime_witness

datatype boot_destinations =
  BootAliasesEsp boot_destination
| DistinctXbootldr boot_destination boot_destination

datatype boot_root = Esp | Boot

datatype publication_phase = PayloadPhase | EntryPhase | LoaderControlPhase | BootloaderPhase

datatype output_role = PayloadRole | EntryRole | LoaderControlRole | FallbackBootloader | SystemdBootloader

datatype output_provenance_claim = BorrowedFirstAdoption | UnclaimedAbsent | ClaimedPublishedByCast

record boot_output =
  out_root :: boot_root
  out_phase :: publication_phase
  out_role :: output_role
  relative_path :: string
  out_mode :: u32
  out_xxh3 :: boot_publication_xxh3
  out_length :: u64
  content_sha256 :: boot_publication_sha256
  provenance_claim :: output_provenance_claim

record receipt_body =
  body_format :: string
  body_version :: u16
  body_transition_id :: transition_id
  committed_predecessor :: "receipt_fingerprint option"
  predecessor_journal_sha256 :: boot_publication_sha256
  desired_inventory_sha256 :: boot_publication_sha256
  body_destinations :: boot_destinations
  body_outputs :: "boot_output list"

datatype boot_publication_path_error =
  Empty | Absolute | ByteLimit | ComponentLimit | EmptyComponent | DotComponent | ParentComponent
| NonCanonicalText | FatForbiddenCharacter | FatComponentByteLimit | FatTrailingDotOrSpace
| FatShortNameMarker | FatReservedName

datatype (plugins del: transfer "quickcheck") receipt_body_error =
  UnsupportedFormat string
| UnsupportedVersion u16
| InvalidPartuuid string
| InvalidPartitionNumber string
| InvalidHistoricalRuntimeWitness string
| InvalidHistoricalDestinationDevice string
| HistoricalPartitionDeviceMismatch string
| DistinctPartuuidCollision
| DistinctPartitionIdentityCollision
| DistinctDiskSequenceMismatch
| DistinctRuntimeDestinationCollision
| DistinctRuntimeMountCollision
| EmptyOutputInventory
| OutputCountLimit nat
| UnsafeOutputPath nat boot_publication_path_error
| OutputRoleRootMismatch nat
| OutputRolePhaseMismatch nat
| NonCanonicalOutputMode nat u32
| AggregatePathByteLimit nat
| LogicalByteLimit u64
| NonCanonicalOutputOrder nat
| OutputPathCollision nat nat
| OutputHierarchyCollision nat nat

section \<open>Destinations\<close>

text \<open>The device-number functions of \<open>libc\<close>; \<open>dev_t\<close> is a \<open>u64\<close> on Linux, so its conversion cannot fail.\<close>

record libc_dev =
  dev_major :: "u64 \<Rightarrow> u32"
  dev_minor :: "u64 \<Rightarrow> u32"
  dev_makedev :: "u32 \<Rightarrow> u32 \<Rightarrow> u64"

definition runtime_witness_validate :: "libc_dev \<Rightarrow> runtime_witness \<Rightarrow> string \<Rightarrow> (unit, receipt_body_error) result" where
  "runtime_witness_validate libc w destination =
     (if destination_device w = 0 \<or> destination_inode w = 0 \<or> mount_id w = 0
         \<or> (partition_device_major w = 0 \<and> partition_device_minor w = 0)
         \<or> disk_sequence w = Some 0
      then Err (InvalidHistoricalRuntimeWitness destination)
      else
        (let raw_device = destination_device w;
             device_major = dev_major libc raw_device;
             device_minor = dev_minor libc raw_device
         in if dev_makedev libc device_major device_minor \<noteq> raw_device
            then Err (InvalidHistoricalDestinationDevice destination)
            else if device_major \<noteq> partition_device_major w \<or> device_minor \<noteq> partition_device_minor w
            then Err (HistoricalPartitionDeviceMismatch destination)
            else Ok ()))"

text \<open>The loop over the bytes of a UUID, with the flag for a digit other than zero.\<close>

fun uuid_bytes_ok :: "nat \<Rightarrow> bool \<Rightarrow> string \<Rightarrow> bool" where
  "uuid_bytes_ok index nonzero [] = nonzero"
| "uuid_bytes_ok index nonzero (byte # bytes) =
     (if index \<in> {8, 13, 18, 23}
      then (if byte \<noteq> CHR ''-'' then False else uuid_bytes_ok (index + 1) nonzero bytes)
      else if \<not> is_lower_hex byte then False
      else uuid_bytes_ok (index + 1) (nonzero \<or> byte \<noteq> CHR ''0'') bytes)"

definition is_canonical_nonzero_uuid :: "string \<Rightarrow> bool" where
  "is_canonical_nonzero_uuid value = (if length value \<noteq> 36 then False else uuid_bytes_ok 0 False value)"

definition boot_destination_validate :: "libc_dev \<Rightarrow> boot_destination \<Rightarrow> string \<Rightarrow> (unit, receipt_body_error) result" where
  "boot_destination_validate libc d destination =
     (if \<not> is_canonical_nonzero_uuid (partuuid d) then Err (InvalidPartuuid destination)
      else if partition_number d = 0 then Err (InvalidPartitionNumber destination)
      else runtime_witness_validate libc (historical_runtime_witness d) destination)"

fun destinations_esp :: "boot_destinations \<Rightarrow> boot_destination" where
  "destinations_esp (BootAliasesEsp esp) = esp"
| "destinations_esp (DistinctXbootldr esp xbootldr) = esp"

fun destinations_xbootldr :: "boot_destinations \<Rightarrow> boot_destination option" where
  "destinations_xbootldr (BootAliasesEsp esp) = None"
| "destinations_xbootldr (DistinctXbootldr esp xbootldr) = Some xbootldr"

fun aliases_esp :: "boot_destinations \<Rightarrow> bool" where
  "aliases_esp (BootAliasesEsp esp) = True"
| "aliases_esp (DistinctXbootldr esp xbootldr) = False"

definition destinations_validate :: "libc_dev \<Rightarrow> boot_destinations \<Rightarrow> (unit, receipt_body_error) result" where
  "destinations_validate libc ds =
     res_then (boot_destination_validate libc (destinations_esp ds) ''esp'')
       (case destinations_xbootldr ds of
          None \<Rightarrow> Ok ()
        | Some xbootldr \<Rightarrow>
            res_then (boot_destination_validate libc xbootldr ''xbootldr'')
              (let esp = destinations_esp ds;
                   e = historical_runtime_witness esp; x = historical_runtime_witness xbootldr
               in if partuuid esp = partuuid xbootldr then Err DistinctPartuuidCollision
                  else if partition_device_major e = partition_device_major x
                    \<and> partition_device_minor e = partition_device_minor x
                  then Err DistinctPartitionIdentityCollision
                  else if disk_sequence e \<noteq> disk_sequence x then Err DistinctDiskSequenceMismatch
                  else if destination_device e = destination_device x \<and> destination_inode e = destination_inode x
                  then Err DistinctRuntimeDestinationCollision
                  else if mount_id e = mount_id x then Err DistinctRuntimeMountCollision
                  else Ok ()))"

section \<open>Output paths\<close>

definition is_dos_reserved_component :: "string \<Rightarrow> bool" where
  "is_dos_reserved_component component =
     (let first = hd (split_on (CHR ''.'') component);
          stem = map to_ascii_uppercase (rev (dropWhile (\<lambda>c. c \<in> {CHR '' '', CHR ''.''}) (rev first)))
      in if stem \<in> {''CON'', ''PRN'', ''AUX'', ''NUL''} then True
         else length stem = 4 \<and> (take 3 stem = ''COM'' \<or> take 3 stem = ''LPT'')
           \<and> CHR ''1'' \<le> stem ! 3 \<and> stem ! 3 \<le> CHR ''9'')"

definition component_error :: "string \<Rightarrow> boot_publication_path_error option" where
  "component_error component =
     (if component = [] then Some EmptyComponent
      else if component = ''.'' then Some DotComponent
      else if component = ''..'' then Some ParentComponent
      else if \<not> list_all is_ascii component \<or> list_ex is_control component then Some NonCanonicalText
      else if length component > MAX_BOOT_PUBLICATION_RECEIPT_FAT_COMPONENT_BYTES then Some FatComponentByteLimit
      else if list_ex (\<lambda>byte. byte \<in> set [CHR ''<'', CHR ''>'', CHR '':'', CHR 0x22, CHR 0x5C, CHR ''|'', CHR ''?'', CHR ''*'']) component
      then Some FatForbiddenCharacter
      else if ends_with component (CHR ''.'') \<or> ends_with component (CHR '' '') then Some FatTrailingDotOrSpace
      else if CHR 0x7E \<in> set component then Some FatShortNameMarker
      else if is_dos_reserved_component component then Some FatReservedName
      else None)"

fun validate_components :: "nat \<Rightarrow> string list \<Rightarrow> boot_publication_path_error option" where
  "validate_components components [] = None"
| "validate_components components (component # rest) =
     (let components = min (components + 1) usize_max
      in if components > MAX_BOOT_PUBLICATION_RECEIPT_PATH_COMPONENTS then Some ComponentLimit
         else (case component_error component of
                 Some reason \<Rightarrow> Some reason
               | None \<Rightarrow> validate_components components rest))"

definition validate_path :: "nat \<Rightarrow> string \<Rightarrow> (unit, receipt_body_error) result" where
  "validate_path index path =
     (if path = [] then Err (UnsafeOutputPath index Empty)
      else if hd path = CHR ''/'' then Err (UnsafeOutputPath index Absolute)
      else if length path > MAX_BOOT_PUBLICATION_RECEIPT_SINGLE_PATH_BYTES then Err (UnsafeOutputPath index ByteLimit)
      else (case validate_components 0 (split_on (CHR ''/'') path) of
              Some reason \<Rightarrow> Err (UnsafeOutputPath index reason)
            | None \<Rightarrow> Ok ()))"

fun role_binding :: "output_role \<Rightarrow> boot_root \<times> publication_phase" where
  "role_binding PayloadRole = (Boot, PayloadPhase)"
| "role_binding EntryRole = (Boot, EntryPhase)"
| "role_binding LoaderControlRole = (Boot, LoaderControlPhase)"
| "role_binding FallbackBootloader = (Esp, BootloaderPhase)"
| "role_binding SystemdBootloader = (Esp, BootloaderPhase)"

definition output_validate :: "boot_output \<Rightarrow> nat \<Rightarrow> (unit, receipt_body_error) result" where
  "output_validate output index =
     res_then (validate_path index (relative_path output))
    (if out_mode output \<noteq> CANONICAL_ACTIVE_REBLIT_OUTPUT_MODE
     then Err (NonCanonicalOutputMode index (out_mode output))
     else
       (let (expected_root, expected_phase) = role_binding (out_role output)
        in if out_root output \<noteq> expected_root then Err (OutputRoleRootMismatch index)
           else if out_phase output \<noteq> expected_phase then Err (OutputRolePhaseMismatch index)
           else Ok ()))"

section \<open>Canonical order\<close>

text \<open>The derived order of an enumeration is the order of its declaration.\<close>

fun root_ordinal :: "boot_root \<Rightarrow> nat" where
  "root_ordinal Esp = 0"
| "root_ordinal Boot = 1"

fun publication_phase_ordinal :: "publication_phase \<Rightarrow> nat" where
  "publication_phase_ordinal PayloadPhase = 0"
| "publication_phase_ordinal EntryPhase = 1"
| "publication_phase_ordinal LoaderControlPhase = 2"
| "publication_phase_ordinal BootloaderPhase = 3"

datatype collision_domain = Shared | EspDomain | BootDomain

fun collision_domain_ordinal :: "collision_domain \<Rightarrow> nat" where
  "collision_domain_ordinal Shared = 0"
| "collision_domain_ordinal EspDomain = 1"
| "collision_domain_ordinal BootDomain = 2"

lemma ordinals_inject:
  "root_ordinal r = root_ordinal r' \<longleftrightarrow> r = r'"
  "publication_phase_ordinal p = publication_phase_ordinal p' \<longleftrightarrow> p = p'"
  "collision_domain_ordinal d = collision_domain_ordinal d' \<longleftrightarrow> d = d'"
    apply (cases r; cases r'; simp)
   apply (cases p; cases p'; simp)
  apply (cases d; cases d'; simp)
  done

instantiation boot_root :: linorder
begin

definition less_eq_boot_root :: "boot_root \<Rightarrow> boot_root \<Rightarrow> bool" where
  "less_eq_boot_root a b \<longleftrightarrow> root_ordinal a \<le> root_ordinal b"

definition less_boot_root :: "boot_root \<Rightarrow> boot_root \<Rightarrow> bool" where
  "less_boot_root a b \<longleftrightarrow> root_ordinal a < root_ordinal b"

instance
  by standard (auto simp: less_eq_boot_root_def less_boot_root_def ordinals_inject)

end

instantiation publication_phase :: linorder
begin

definition less_eq_publication_phase :: "publication_phase \<Rightarrow> publication_phase \<Rightarrow> bool" where
  "less_eq_publication_phase a b \<longleftrightarrow> publication_phase_ordinal a \<le> publication_phase_ordinal b"

definition less_publication_phase :: "publication_phase \<Rightarrow> publication_phase \<Rightarrow> bool" where
  "less_publication_phase a b \<longleftrightarrow> publication_phase_ordinal a < publication_phase_ordinal b"

instance
  by standard (auto simp: less_eq_publication_phase_def less_publication_phase_def ordinals_inject)

end

instantiation collision_domain :: linorder
begin

definition less_eq_collision_domain :: "collision_domain \<Rightarrow> collision_domain \<Rightarrow> bool" where
  "less_eq_collision_domain a b \<longleftrightarrow> collision_domain_ordinal a \<le> collision_domain_ordinal b"

definition less_collision_domain :: "collision_domain \<Rightarrow> collision_domain \<Rightarrow> bool" where
  "less_collision_domain a b \<longleftrightarrow> collision_domain_ordinal a < collision_domain_ordinal b"

instance
  by standard (auto simp: less_eq_collision_domain_def less_collision_domain_def ordinals_inject)

end

definition ascii_fold_cmp :: "string \<Rightarrow> string \<Rightarrow> ordering" where
  "ascii_fold_cmp left right = ord_cmp (map to_ascii_lowercase left) (map to_ascii_lowercase right)"

definition compare_outputs :: "boot_output \<Rightarrow> boot_output \<Rightarrow> ordering" where
  "compare_outputs left right =
     then_with (then_with (then_with
       (ord_cmp (out_phase left) (out_phase right))
       (ord_cmp (out_root left) (out_root right)))
       (ascii_fold_cmp (relative_path left) (relative_path right)))
       (ord_cmp (relative_path left) (relative_path right))"

section \<open>Collisions\<close>

type_synonym collision_map = "((collision_domain \<times> string) \<times> (nat \<times> string)) list"

fun output_domain :: "bool \<Rightarrow> boot_root \<Rightarrow> collision_domain" where
  "output_domain True root = Shared"
| "output_domain False Esp = EspDomain"
| "output_domain False Boot = BootDomain"

text \<open>The walk up the ancestors of a path; the index of the output it meets.\<close>

function ancestor_hit :: "collision_map \<Rightarrow> collision_domain \<Rightarrow> string \<Rightarrow> nat option" where
  "ancestor_hit destinations domain path =
     (case before_last (CHR ''/'') path of
        None \<Rightarrow> None
      | Some ancestor \<Rightarrow>
          (case btree_get destinations (domain, ancestor) of
             Some (first, p) \<Rightarrow> Some first
           | None \<Rightarrow> ancestor_hit destinations domain ancestor))"
  by pat_completeness auto
termination
  by (relation "measure (\<lambda>(m, d, path). length path)") (auto dest: before_last_shorter)

declare ancestor_hit.simps [simp del]

definition admit_collision_path ::
  "collision_map \<Rightarrow> bool \<Rightarrow> nat \<Rightarrow> boot_output \<Rightarrow> (collision_map, receipt_body_error) result" where
  "admit_collision_path destinations aliases index output =
     (let domain = output_domain aliases (out_root output);
          folded = map to_ascii_lowercase (relative_path output)
      in case btree_get destinations (domain, folded) of
           Some (first, p) \<Rightarrow> Err (OutputPathCollision first index)
         | None \<Rightarrow>
             (case ancestor_hit destinations domain folded of
                Some first \<Rightarrow> Err (OutputHierarchyCollision first index)
              | None \<Rightarrow>
                  (let prefix_text = folded @ ''/''
                   in case btree_range_first destinations (domain, prefix_text) of
                        Some ((candidate_domain, candidate), (descendant, p)) \<Rightarrow>
                          if candidate_domain = domain \<and> prefix prefix_text candidate
                          then Err (OutputHierarchyCollision index descendant)
                          else Ok (btree_insert (domain, folded) (index, relative_path output) destinations)
                      | None \<Rightarrow> Ok (btree_insert (domain, folded) (index, relative_path output) destinations))))"

section \<open>The body\<close>

text \<open>The loop over the outputs, with the totals, the map and the previous output it carries.\<close>

fun validate_outputs ::
  "bool \<Rightarrow> nat \<Rightarrow> nat \<Rightarrow> u64 \<Rightarrow> collision_map \<Rightarrow> boot_output option \<Rightarrow> boot_output list
     \<Rightarrow> (unit, receipt_body_error) result" where
  "validate_outputs aliases index path_bytes logical_bytes destinations previous [] = Ok ()"
| "validate_outputs aliases index path_bytes logical_bytes destinations previous (output # outputs) =
     res_then (output_validate output index)
    (res_bind (ok_or (usize_checked_add path_bytes (length (relative_path output)))
       (AggregatePathByteLimit usize_max)) (\<lambda>path_bytes.
     if path_bytes > MAX_BOOT_PUBLICATION_RECEIPT_PATH_BYTES then Err (AggregatePathByteLimit path_bytes)
     else res_bind (ok_or (checked_add logical_bytes (out_length output)) (LogicalByteLimit (- 1))) (\<lambda>logical_bytes.
       if logical_bytes > MAX_BOOT_PUBLICATION_RECEIPT_LOGICAL_BYTES then Err (LogicalByteLimit logical_bytes)
       else res_bind (admit_collision_path destinations aliases index output) (\<lambda>destinations.
         if (case previous of None \<Rightarrow> False | Some before \<Rightarrow> compare_outputs before output \<noteq> Less)
         then Err (NonCanonicalOutputOrder index)
         else validate_outputs aliases (index + 1) path_bytes logical_bytes destinations (Some output) outputs))))"

definition receipt_validate :: "libc_dev \<Rightarrow> receipt_body \<Rightarrow> (unit, receipt_body_error) result" where
  "receipt_validate libc body =
     (if body_format body \<noteq> BOOT_PUBLICATION_RECEIPT_FORMAT then Err (UnsupportedFormat (body_format body))
      else if body_version body \<noteq> BOOT_PUBLICATION_RECEIPT_BODY_VERSION then Err (UnsupportedVersion (body_version body))
      else res_then (destinations_validate libc (body_destinations body))
       (if body_outputs body = [] then Err EmptyOutputInventory
        else if length (body_outputs body) > MAX_BOOT_PUBLICATION_RECEIPT_OUTPUTS
        then Err (OutputCountLimit (length (body_outputs body)))
        else validate_outputs (aliases_esp (body_destinations body)) 0 0 0 [] None (body_outputs body)))"

definition receipt_body_new :: "libc_dev \<Rightarrow> transition_id \<Rightarrow> receipt_fingerprint option \<Rightarrow> boot_publication_sha256
    \<Rightarrow> boot_publication_sha256 \<Rightarrow> boot_destinations \<Rightarrow> boot_output list \<Rightarrow> (receipt_body, receipt_body_error) result" where
  "receipt_body_new libc transition predecessor journal inventory destinations outputs =
     (let body = \<lparr> body_format = BOOT_PUBLICATION_RECEIPT_FORMAT,
                   body_version = BOOT_PUBLICATION_RECEIPT_BODY_VERSION,
                   body_transition_id = transition,
                   committed_predecessor = predecessor,
                   predecessor_journal_sha256 = journal,
                   desired_inventory_sha256 = inventory,
                   body_destinations = destinations,
                   body_outputs = outputs \<rparr>
      in res_then (receipt_validate libc body) (Ok body))"

section \<open>The codec\<close>

definition BOOT_PUBLICATION_RECEIPT_FINGERPRINT_DOMAIN :: "u8 list" where
  "BOOT_PUBLICATION_RECEIPT_FINGERPRINT_DOMAIN = ascii ''os-tools/forge/boot-publication-receipt-body/v1'' @ [0]"

definition MAX_CANONICAL_BOOT_PUBLICATION_RECEIPT_BODY_BYTES :: nat where
  "MAX_CANONICAL_BOOT_PUBLICATION_RECEIPT_BODY_BYTES = 16 * 1024 * 1024"

datatype receipt_codec_error =
  BodyTooLarge nat
| ReceiptJson string
| ReceiptBody receipt_body_error
| NonCanonicalBody

record canonical_receipt =
  cr_body :: receipt_body
  cr_canonical_body :: "u8 list"
  cr_fingerprint :: receipt_fingerprint

type_synonym receipt_writer = "receipt_body \<Rightarrow> (u8 list, string) result"
type_synonym receipt_reader = "u8 list \<Rightarrow> (receipt_body, string) result"

definition enforce_body_size :: "nat \<Rightarrow> (unit, receipt_codec_error) result" where
  "enforce_body_size actual =
     (if actual > MAX_CANONICAL_BOOT_PUBLICATION_RECEIPT_BODY_BYTES then Err (BodyTooLarge actual) else Ok ())"

definition receipt_body_fingerprint :: "(u8 list \<Rightarrow> u8 list) \<Rightarrow> u8 list \<Rightarrow> receipt_fingerprint" where
  "receipt_body_fingerprint sha256 canonical =
     ReceiptFingerprint (sha256 (BOOT_PUBLICATION_RECEIPT_FINGERPRINT_DOMAIN
       @ to_be_bytes (word_of_nat (length canonical) :: u64) @ canonical))"

definition canonical_receipt_of :: "(u8 list \<Rightarrow> u8 list) \<Rightarrow> receipt_body \<Rightarrow> u8 list \<Rightarrow> canonical_receipt" where
  "canonical_receipt_of sha256 body canonical =
     \<lparr> cr_body = body, cr_canonical_body = canonical, cr_fingerprint = receipt_body_fingerprint sha256 canonical \<rparr>"

definition prepare_boot_publication_receipt ::
  "libc_dev \<Rightarrow> receipt_writer \<Rightarrow> (u8 list \<Rightarrow> u8 list) \<Rightarrow> receipt_body \<Rightarrow> (canonical_receipt, receipt_codec_error) result" where
  "prepare_boot_publication_receipt libc to_vec sha256 body =
     res_then (map_err ReceiptBody (receipt_validate libc body))
    (res_bind (map_err ReceiptJson (to_vec body)) (\<lambda>canonical.
     res_then (enforce_body_size (length canonical)) (Ok (canonical_receipt_of sha256 body canonical))))"

definition decode_boot_publication_receipt ::
  "libc_dev \<Rightarrow> receipt_writer \<Rightarrow> receipt_reader \<Rightarrow> (u8 list \<Rightarrow> u8 list) \<Rightarrow> u8 list
     \<Rightarrow> (canonical_receipt, receipt_codec_error) result" where
  "decode_boot_publication_receipt libc to_vec from_slice sha256 canonical =
     res_then (enforce_body_size (length canonical))
    (res_bind (map_err ReceiptJson (from_slice canonical)) (\<lambda>body.
     res_then (map_err ReceiptBody (receipt_validate libc body))
    (res_bind (map_err ReceiptJson (to_vec body)) (\<lambda>reencoded.
     if reencoded \<noteq> canonical then Err NonCanonicalBody
     else Ok (canonical_receipt_of sha256 body reencoded)))))"

end
