(* ===== verification/Boot_Receipt_Properties.thy ===== *)
theory Boot_Receipt_Properties
  imports Boot_Receipt
begin

text \<open>
  What a valid boot-publication receipt guarantees: the validation loop with its ordered map is the
  pairwise specification \<open>receipt_ok\<close>, valid receipts can be published to case-insensitive file
  systems without one output hiding another, and the codec accepts canonical bytes only.
\<close>

section \<open>Paths and their components\<close>

definition below :: "string \<Rightarrow> string \<Rightarrow> bool" where
  "below a b \<longleftrightarrow> prefix (a @ ''/'') b"

definition paths_collide :: "string \<Rightarrow> string \<Rightarrow> bool" where
  "paths_collide a b \<longleftrightarrow> a = b \<or> below a b \<or> below b a"

lemma below_iff: "below a b \<longleftrightarrow> (\<exists>x. b = a @ CHR ''/'' # x)"
  by (auto simp: below_def prefix_def)

lemma paths_collide_commute: "paths_collide a b \<longleftrightarrow> paths_collide b a"
  by (auto simp: paths_collide_def)

text \<open>One path is the other or a directory above it exactly when its components come first there.\<close>

lemma prefix_components:
  "prefix (split_on (CHR ''/'') a) (split_on (CHR ''/'') b) \<longleftrightarrow> a = b \<or> below a b"
proof
  assume "prefix (split_on (CHR ''/'') a) (split_on (CHR ''/'') b)"
  then obtain ys where ys: "split_on (CHR ''/'') b = split_on (CHR ''/'') a @ ys" by (auto simp: prefix_def)
  have "b = join_with (CHR ''/'') (split_on (CHR ''/'') a @ ys)" unfolding ys [symmetric] by simp
  then show "a = b \<or> below a b" by (cases "ys = []") (auto simp: join_with_append below_iff)
next
  assume "a = b \<or> below a b"
  then show "prefix (split_on (CHR ''/'') a) (split_on (CHR ''/'') b)"
    by (auto simp: below_iff split_on_append)
qed

lemma below_last:
  assumes "CHR ''/'' \<notin> set u"
  shows "below a (t @ CHR ''/'' # u) \<longleftrightarrow> a = t \<or> below a t"
proof
  assume "below a (t @ CHR ''/'' # u)"
  then obtain x where x: "t @ CHR ''/'' # u = a @ CHR ''/'' # x" by (auto simp: below_iff)
  then show "a = t \<or> below a t"
    using assms by (auto simp: append_eq_append_conv2 below_iff append_eq_Cons_conv Cons_eq_append_conv)
qed (auto simp: below_iff)

section \<open>The probes of the ordered map\<close>

lemma ancestor_hit_None:
  "ancestor_hit m d path = None \<longleftrightarrow> (\<forall>a. below a path \<longrightarrow> btree_get m (d, a) = None)"
proof (induction m d path rule: ancestor_hit.induct)
  case (1 m d path)
  show ?case
  proof (cases "before_last (CHR ''/'') path")
    case None
    then have "\<not> below a path" for a by (auto simp: below_iff before_last_None)
    with None show ?thesis by (subst ancestor_hit.simps) simp
  next
    case (Some t)
    from before_last_Some [OF this] obtain u where u: "path = t @ CHR ''/'' # u" "CHR ''/'' \<notin> set u" .
    have below: "below a path \<longleftrightarrow> a = t \<or> below a t" for a using below_last [OF u(2)] u(1) by simp
    show ?thesis
    proof (cases "btree_get m (d, t)")
      case None
      then show ?thesis using 1 [OF Some None] Some below by (subst ancestor_hit.simps) auto
    next
      case (Some e)
      then show ?thesis using \<open>before_last (CHR ''/'') path = Some t\<close> below
        by (subst ancestor_hit.simps) (auto split: prod.splits)
    qed
  qed
qed

definition folded_path :: "boot_output \<Rightarrow> string" where
  "folded_path o' = map to_ascii_lowercase (relative_path o')"

lemma admit_collision_path_Ok:
  assumes sorted: "btree_sorted m"
  shows "admit_collision_path m al i out = Ok m' \<longleftrightarrow>
     (\<forall>k. btree_get m (output_domain al (out_root out), k) \<noteq> None \<longrightarrow> \<not> paths_collide k (folded_path out))
     \<and> m' = btree_insert (output_domain al (out_root out), folded_path out) (i, relative_path out) m"
    (is "?l \<longleftrightarrow> ?free \<and> ?m")
proof -
  let ?d = "output_domain al (out_root out)" and ?f = "folded_path out"
  let ?probe = "btree_range_first m (?d, ?f @ ''/'')"
  have probe: "(\<forall>k v. ?probe = Some ((?d, k), v) \<longrightarrow> \<not> prefix (?f @ ''/'') k)
      \<longleftrightarrow> (\<forall>k. below ?f k \<longrightarrow> btree_get m (?d, k) = None)" (is "?miss \<longleftrightarrow> ?none")
  proof
    show ?none if ?miss
      using btree.prefix_probe_miss [OF sorted, of ?d "?f @ ''/''"] that unfolding below_def by blast
    show ?miss if ?none
      using btree.prefix_probe_hit [OF sorted, of ?d "?f @ ''/''"] that unfolding below_def by (metis option.distinct(1))
  qed
  have free: "?free \<longleftrightarrow> btree_get m (?d, ?f) = None \<and> ancestor_hit m ?d ?f = None \<and> ?none"
    unfolding ancestor_hit_None paths_collide_def by (metis (no_types))
  have "?l \<longleftrightarrow> btree_get m (?d, ?f) = None \<and> ancestor_hit m ?d ?f = None \<and> ?miss \<and> ?m"
    unfolding admit_collision_path_def folded_path_def [symmetric] Let_def
    by (auto split: option.splits prod.splits if_splits)
  then show ?thesis unfolding free probe by blast
qed

section \<open>The specification of a receipt\<close>

definition component_ok :: "string \<Rightarrow> bool" where
  "component_ok c \<longleftrightarrow> c \<noteq> [] \<and> c \<noteq> ''.'' \<and> c \<noteq> ''..'' \<and> length c \<le> 255
     \<and> list_all (\<lambda>x. 32 \<le> (of_char x :: nat) \<and> (of_char x :: nat) < 127
         \<and> x \<notin> set [CHR ''<'', CHR ''>'', CHR '':'', CHR 0x22, CHR 0x5C, CHR ''|'', CHR ''?'', CHR ''*'', CHR 0x7E]) c
     \<and> last c \<noteq> CHR ''.'' \<and> last c \<noteq> CHR '' '' \<and> \<not> is_dos_reserved_component c"

definition path_ok :: "string \<Rightarrow> bool" where
  "path_ok p \<longleftrightarrow> length p \<le> 4095 \<and> length (split_on (CHR ''/'') p) \<le> 16
     \<and> list_all component_ok (split_on (CHR ''/'') p)"

definition output_ok :: "boot_output \<Rightarrow> bool" where
  "output_ok out \<longleftrightarrow> path_ok (relative_path out) \<and> out_mode out = 420
     \<and> role_binding (out_role out) = (out_root out, out_phase out)"

definition separate :: "bool \<Rightarrow> boot_output \<Rightarrow> boot_output \<Rightarrow> bool" where
  "separate al a b \<longleftrightarrow>
     (output_domain al (out_root a) = output_domain al (out_root b) \<longrightarrow> \<not> paths_collide (folded_path a) (folded_path b))"

definition output_key :: "boot_output \<Rightarrow> publication_phase \<times> boot_root \<times> string \<times> string" where
  "output_key out = (out_phase out, out_root out, folded_path out, relative_path out)"

definition receipt_ok :: "libc_dev \<Rightarrow> receipt_body \<Rightarrow> bool" where
  "receipt_ok libc b \<longleftrightarrow>
     body_format b = BOOT_PUBLICATION_RECEIPT_FORMAT \<and> body_version b = 1
     \<and> destinations_validate libc (body_destinations b) = Ok ()
     \<and> 0 < length (body_outputs b) \<and> length (body_outputs b) \<le> 8336
     \<and> list_all output_ok (body_outputs b)
     \<and> sum_list (map (\<lambda>out. length (relative_path out)) (body_outputs b)) \<le> 8 * 1024 * 1024
     \<and> sum_list (map (\<lambda>out. unat (out_length out)) (body_outputs b)) \<le> 10 * 1024 * 1024 * 1024
     \<and> sorted_wrt (separate (aliases_esp (body_destinations b))) (body_outputs b)
     \<and> sorted_wrt (<) (map output_key (body_outputs b))"

lemma printable_ascii: "is_ascii x \<and> \<not> is_control x \<longleftrightarrow> 32 \<le> (of_char x :: nat) \<and> (of_char x :: nat) < 127"
  by (auto simp: is_ascii_def is_control_def)

lemma component_characters:
  "list_all (\<lambda>x. 32 \<le> (of_char x :: nat) \<and> (of_char x :: nat) < 127 \<and> x \<notin> set (forbidden @ [m])) c
   \<longleftrightarrow> list_all is_ascii c \<and> \<not> list_ex is_control c \<and> \<not> list_ex (\<lambda>x. x \<in> set forbidden) c \<and> m \<notin> set c"
proof -
  have "32 \<le> (of_char x :: nat) \<and> (of_char x :: nat) < 127 \<and> x \<notin> set (forbidden @ [m])
      \<longleftrightarrow> (is_ascii x \<and> \<not> is_control x) \<and> x \<notin> set forbidden \<and> x \<noteq> m" for x
    unfolding printable_ascii by auto
  then show ?thesis by (auto simp: list_all_iff list_ex_iff)
qed

lemma if_Some_None: "(if a then Some e else r) = None \<longleftrightarrow> \<not> a \<and> r = None"
  by simp

lemma component_error_None: "component_error c = None \<longleftrightarrow> component_ok c"
proof -
  let ?f = "[CHR ''<'', CHR ''>'', CHR '':'', CHR 0x22, CHR 0x5C, CHR ''|'', CHR ''?'', CHR ''*'']"
  have forbidden: "[CHR ''<'', CHR ''>'', CHR '':'', CHR 0x22, CHR 0x5C, CHR ''|'', CHR ''?'', CHR ''*'', CHR 0x7E]
      = ?f @ [CHR 0x7E]" by simp
  show ?thesis
    unfolding component_error_def component_ok_def forbidden component_characters if_Some_None ends_with_def
      MAX_BOOT_PUBLICATION_RECEIPT_FAT_COMPONENT_BYTES_def not_less
    by blast
qed

lemma validate_components_None:
  "n \<le> 16 \<Longrightarrow> validate_components n cs = None \<longleftrightarrow> n + length cs \<le> 16 \<and> list_all component_ok cs"
proof (induction cs arbitrary: n)
  case (Cons c cs)
  have "min (n + 1) usize_max = n + 1" using Cons.prems by (simp add: usize_max_def)
  with Cons.IH [of "n + 1"] component_error_None [of c] show ?case
    by (auto simp: Let_def MAX_BOOT_PUBLICATION_RECEIPT_PATH_COMPONENTS_def split: option.splits)
qed simp

lemma validate_path_Ok: "validate_path i p = Ok () \<longleftrightarrow> path_ok p"
proof -
  have "\<not> list_all component_ok (split_on (CHR ''/'') p)" if "p = [] \<or> hd p = CHR ''/''"
    using that by (cases p) (auto simp: component_ok_def)
  with validate_components_None [of 0 "split_on (CHR ''/'') p"] show ?thesis
    by (auto simp: validate_path_def path_ok_def MAX_BOOT_PUBLICATION_RECEIPT_SINGLE_PATH_BYTES_def
        split: option.splits)
qed

lemma output_validate_Ok: "output_validate out i = Ok () \<longleftrightarrow> output_ok out"
  by (auto simp: output_validate_def output_ok_def result_simps validate_path_Ok
      CANONICAL_ACTIVE_REBLIT_OUTPUT_MODE_def split: prod.splits)

lemma compare_outputs_Less: "compare_outputs a b = Less \<longleftrightarrow> output_key a < output_key b"
  by (auto simp: compare_outputs_def ascii_fold_cmp_def then_with_Less then_with_Equal ord_cmp_def output_key_def
      folded_path_def less_prod_def' split: if_splits)

section \<open>The validation loop\<close>

text \<open>The map the loop carries holds the folded paths of the outputs already seen, by domain.\<close>

definition remembers :: "bool \<Rightarrow> boot_output list \<Rightarrow> collision_map \<Rightarrow> bool" where
  "remembers al seen m \<longleftrightarrow> btree_sorted m
     \<and> (\<forall>d k. btree_get m (d, k) \<noteq> None \<longleftrightarrow> (d, k) \<in> (\<lambda>out. (output_domain al (out_root out), folded_path out)) ` set seen)"

lemma remembers_Nil: "remembers al [] []"
  by (simp add: remembers_def btree_sorted_def btree_get_def)

lemma admit_remembers:
  assumes "remembers al seen m"
  shows "admit_collision_path m al i out = Ok m' \<longleftrightarrow> list_all (\<lambda>before. separate al before out) seen
     \<and> m' = btree_insert (output_domain al (out_root out), folded_path out) (i, relative_path out) m"
proof -
  from assms have sorted: "btree_sorted m" and
    keys: "\<And>d k. btree_get m (d, k) \<noteq> None \<longleftrightarrow> (d, k) \<in> (\<lambda>out. (output_domain al (out_root out), folded_path out)) ` set seen"
    by (simp_all only: remembers_def)
  show ?thesis
    unfolding admit_collision_path_Ok [OF sorted] keys by (auto simp: list_all_iff separate_def image_iff) metis
qed

lemma remembers_insert:
  assumes "remembers al seen m"
  shows "remembers al (seen @ [out]) (btree_insert (output_domain al (out_root out), folded_path out) v m)"
proof -
  from assms have sorted: "btree_sorted m" and
    keys: "\<And>d k. btree_get m (d, k) \<noteq> None \<longleftrightarrow> (d, k) \<in> (\<lambda>out. (output_domain al (out_root out), folded_path out)) ` set seen"
    by (simp_all only: remembers_def)
  show ?thesis
    unfolding remembers_def btree.get_insert [OF sorted]
    using keys by (auto simp: btree.insert_well_formed [OF sorted])
qed

text \<open>The condition on the outputs still to come, given those seen and the totals so far.\<close>

definition rest_ok :: "bool \<Rightarrow> boot_output list \<Rightarrow> nat \<Rightarrow> nat \<Rightarrow> boot_output option \<Rightarrow> boot_output list \<Rightarrow> bool" where
  "rest_ok al seen path_bytes logical_bytes previous outs \<longleftrightarrow>
     list_all output_ok outs
     \<and> path_bytes + sum_list (map (\<lambda>out. length (relative_path out)) outs) \<le> 8 * 1024 * 1024
     \<and> logical_bytes + sum_list (map (\<lambda>out. unat (out_length out)) outs) \<le> 10 * 1024 * 1024 * 1024
     \<and> list_all (\<lambda>out. list_all (\<lambda>before. separate al before out) seen) outs
     \<and> sorted_wrt (separate al) outs
     \<and> sorted_wrt (<) (map output_key (case previous of None \<Rightarrow> outs | Some before \<Rightarrow> before # outs))"

lemma sorted_key_previous:
  "sorted_wrt (<) (map output_key (case previous of None \<Rightarrow> out # outs | Some before \<Rightarrow> before # out # outs))
   \<longleftrightarrow> (case previous of None \<Rightarrow> True | Some before \<Rightarrow> compare_outputs before out = Less)
     \<and> sorted_wrt (<) (map output_key (out # outs))"
  by (cases previous) (auto simp: compare_outputs_Less)

lemma rest_ok_Cons:
  "rest_ok al seen pb lb previous (out # outs) \<longleftrightarrow>
     output_ok out \<and> list_all (\<lambda>before. separate al before out) seen
     \<and> (case previous of None \<Rightarrow> True | Some before \<Rightarrow> compare_outputs before out = Less)
     \<and> rest_ok al (seen @ [out]) (pb + length (relative_path out)) (lb + unat (out_length out)) (Some out) outs"
  unfolding rest_ok_def sorted_key_previous
  by (auto simp: list_all_iff add.assoc)

lemma unat_logical_limit: "unat MAX_BOOT_PUBLICATION_RECEIPT_LOGICAL_BYTES = 10737418240"
  by (simp add: MAX_BOOT_PUBLICATION_RECEIPT_LOGICAL_BYTES_def)

lemma logical_total:
  "checked_add lb n = Some lb' \<and> lb' \<le> MAX_BOOT_PUBLICATION_RECEIPT_LOGICAL_BYTES
   \<longleftrightarrow> unat lb + unat n \<le> 10737418240 \<and> lb' = lb + n"
  by (auto simp: checked_add_Some_iff word_le_nat_alt unat_logical_limit unat_word_ariths)

lemma path_total:
  "usize_checked_add pb n = Some pb' \<and> pb' \<le> MAX_BOOT_PUBLICATION_RECEIPT_PATH_BYTES
   \<longleftrightarrow> pb + n \<le> 8388608 \<and> pb' = pb + n"
  by (auto simp: usize_checked_add_def usize_max_def MAX_BOOT_PUBLICATION_RECEIPT_PATH_BYTES_def)

lemma validate_outputs_Cons:
  "validate_outputs al i pb lb m previous (out # outs) = Ok () \<longleftrightarrow>
     output_ok out \<and> pb + length (relative_path out) \<le> 8388608 \<and> unat lb + unat (out_length out) \<le> 10737418240
     \<and> (case previous of None \<Rightarrow> True | Some before \<Rightarrow> compare_outputs before out = Less)
     \<and> (\<exists>m'. admit_collision_path m al i out = Ok m'
         \<and> validate_outputs al (i + 1) (pb + length (relative_path out)) (lb + out_length out) m' (Some out) outs = Ok ())"
proof -
  have "validate_outputs al i pb lb m previous (out # outs) = Ok () \<longleftrightarrow>
     output_ok out \<and> (\<exists>pb' lb' m'. (usize_checked_add pb (length (relative_path out)) = Some pb' \<and> pb' \<le> MAX_BOOT_PUBLICATION_RECEIPT_PATH_BYTES)
     \<and> (checked_add lb (out_length out) = Some lb' \<and> lb' \<le> MAX_BOOT_PUBLICATION_RECEIPT_LOGICAL_BYTES)
     \<and> (case previous of None \<Rightarrow> True | Some before \<Rightarrow> compare_outputs before out = Less)
     \<and> admit_collision_path m al i out = Ok m' \<and> validate_outputs al (i + 1) pb' lb' m' (Some out) outs = Ok ())"
    by (simp only: validate_outputs.simps result_simps output_validate_Ok not_less)
      (auto simp: not_less split: option.splits)
  then show ?thesis unfolding path_total logical_total by auto
qed

lemma validate_outputs_Ok:
  assumes "remembers al seen m" and "pb \<le> 8388608" and "unat lb \<le> 10737418240"
  shows "validate_outputs al i pb lb m previous outs = Ok () \<longleftrightarrow> rest_ok al seen pb (unat lb) previous outs"
  using assms
proof (induction outs arbitrary: seen i pb lb m previous)
  case Nil
  then show ?case by (auto simp: rest_ok_def split: option.splits)
next
  case (Cons out outs)
  let ?m = "btree_insert (output_domain al (out_root out), folded_path out) (i, relative_path out) m"
  have sum: "unat (lb + out_length out) = unat lb + unat (out_length out)"
    if "unat lb + unat (out_length out) \<le> 10737418240" using that by (simp add: unat_word_ariths)
  have totals: "pb + length (relative_path out) \<le> 8388608 \<and> unat lb + unat (out_length out) \<le> 10737418240"
    if "rest_ok al (seen @ [out]) (pb + length (relative_path out)) (unat lb + unat (out_length out)) (Some out) outs"
    using that by (simp add: rest_ok_def)
  note IH = Cons.IH [OF remembers_insert [OF Cons.prems(1), of out "(i, relative_path out)"],
      of "pb + length (relative_path out)" "lb + out_length out" "i + 1" "Some out"]
  show ?case
    unfolding validate_outputs_Cons rest_ok_Cons admit_remembers [OF Cons.prems(1)]
    using IH sum totals by auto
qed

lemma receipt_validate_Ok: "receipt_validate libc b = Ok () \<longleftrightarrow> receipt_ok libc b"
proof -
  have "validate_outputs al 0 0 0 [] None outs = Ok () \<longleftrightarrow> rest_ok al [] 0 0 None outs" for al outs
    using validate_outputs_Ok [OF remembers_Nil, of 0 0] by simp
  then show ?thesis
    unfolding receipt_validate_def receipt_ok_def
    by (auto simp: result_simps rest_ok_def MAX_BOOT_PUBLICATION_RECEIPT_OUTPUTS_def
        BOOT_PUBLICATION_RECEIPT_BODY_VERSION_def list_all_iff)
qed

section \<open>Hexadecimal text\<close>

lemma below_16:
  "(k :: nat) < 16 \<Longrightarrow> k = 0 \<or> k = 1 \<or> k = 2 \<or> k = 3 \<or> k = 4 \<or> k = 5 \<or> k = 6 \<or> k = 7 \<or> k = 8 \<or> k = 9
     \<or> k = 10 \<or> k = 11 \<or> k = 12 \<or> k = 13 \<or> k = 14 \<or> k = 15"
  by arith

lemma HEX_nth: "k < 16 \<Longrightarrow> of_char (HEX ! k) = (if k < 10 then 48 + of_nat k else 87 + of_nat k :: u8)"
  unfolding HEX_def by (drule below_16) (elim disjE; simp)

lemma decode_nibble_HEX: "k < 16 \<Longrightarrow> decode_nibble (of_char (HEX ! k)) = Some (of_nat k)"
  by (simp only: HEX_nth) (drule below_16, elim disjE; simp add: decode_nibble_def)

lemma decode_nibble_Some:
  "decode_nibble a = Some n \<longleftrightarrow> unat n < 16 \<and> a = of_char (HEX ! unat n)"
proof
  assume "decode_nibble a = Some n"
  then consider "48 \<le> a" "a \<le> 57" "n = a - 48" | "97 \<le> a" "a \<le> 102" "n = a - 87"
    by (auto simp: decode_nibble_def split: if_splits)
  then show "unat n < 16 \<and> a = of_char (HEX ! unat n)"
  proof cases
    case 1
    then have "unat n < 10" "a = 48 + n" by (simp_all add: unat_sub word_le_nat_alt)
    then show ?thesis using HEX_nth [of "unat n"] by simp
  next
    case 2
    then have "87 \<le> a" by (simp add: word_le_nat_alt)
    with 2 have "\<not> unat n < 10" "unat n < 16" "a = 87 + n" by (simp_all add: unat_sub word_le_nat_alt)
    then show ?thesis using HEX_nth [of "unat n"] by simp
  qed
qed (auto simp: decode_nibble_HEX)

lemma low_nibble: "and byte 0x0F = take_bit 4 (byte :: u8)"
  by (simp add: take_bit_eq_mask mask_eq_exp_minus_1)

lemma nibble_bits: "unat (n :: u8) < 16 \<longleftrightarrow> take_bit 4 n = n"
  by (simp add: word_unat_eq_iff unsigned_take_bit_eq take_bit_nat_eq_self_iff)

lemma nibbles:
  fixes byte :: u8
  shows "unat (drop_bit 4 byte) < 16" "unat (and byte 0x0F) < 16"
    "or (push_bit 4 (drop_bit 4 byte)) (and byte 0x0F) = byte"
  unfolding nibble_bits low_nibble using bit_imp_le_length [of byte] by (fastforce intro!: bit_eqI simp: bit_simps)+

lemma nibbles_of:
  fixes high low :: u8
  assumes "unat high < 16" "unat low < 16"
  shows "drop_bit 4 (or (push_bit 4 high) low) = high" "and (or (push_bit 4 high) low) 0x0F = low"
proof -
  have h: "bit high n \<Longrightarrow> n < 4" and l: "bit low n \<Longrightarrow> n < 4" for n
    using assms unfolding nibble_bits by (metis bit_take_bit_iff)+
  show "drop_bit 4 (or (push_bit 4 high) low) = high"
    by (rule bit_eqI) (use h l in \<open>force simp: bit_simps\<close>)
  show "and (or (push_bit 4 high) low) 0x0F = low"
    unfolding low_nibble by (rule bit_eqI) (use h l in \<open>force simp: bit_simps\<close>)
qed

lemma decode_pairs_Some:
  "even (length encoded) \<Longrightarrow> decode_pairs encoded = Some bytes \<longleftrightarrow> encoded = map of_char (encode_lower_hex bytes)"
proof (induction encoded arbitrary: bytes rule: induct_list012)
  case (3 a b encoded)
  then have IH: "decode_pairs encoded = Some bs \<longleftrightarrow> encoded = map of_char (encode_lower_hex bs)" for bs by simp
  show ?case
  proof (cases bytes)
    case Nil
    then show ?thesis by (auto simp: encode_lower_hex_def split: option.splits)
  next
    case (Cons byte bs)
    have "decode_pairs (a # b # encoded) = Some (byte # bs) \<longleftrightarrow>
       (\<exists>high low. decode_nibble a = Some high \<and> decode_nibble b = Some low
          \<and> byte = or (push_bit 4 high) low \<and> encoded = map of_char (encode_lower_hex bs))"
      using IH [of bs] by (auto split: option.splits)
    also have "\<dots> \<longleftrightarrow> a = of_char (HEX ! unat (drop_bit 4 byte)) \<and> b = of_char (HEX ! unat (and byte 0x0F))
          \<and> encoded = map of_char (encode_lower_hex bs)"
      unfolding decode_nibble_Some using nibbles [of byte] nibbles_of by metis
    finally show ?thesis unfolding Cons by (simp add: encode_lower_hex_def)
  qed
qed (auto simp: encode_lower_hex_def)

lemma length_encode_lower_hex: "length (encode_lower_hex bytes) = length bytes * 2"
  by (induction bytes) (simp_all add: encode_lower_hex_def)

lemma inj_byte_of_char: "inj (of_char :: char \<Rightarrow> u8)"
proof (rule injI)
  fix x y
  assume "(of_char x :: u8) = of_char y"
  then have "(of_nat (of_char x :: nat) :: u8) = of_nat (of_char y :: nat)" by (simp only: of_nat_of_char)
  then show "x = y"
    using nat_of_char_less_256 [of x] nat_of_char_less_256 [of y]
    by (simp add: word_of_nat_eq_iff take_bit_nat_eq_self_iff [THEN iffD2] del: of_nat_of_char)
qed

lemma lower_hex_visit_str_Ok:
  "lower_hex_visit_str N s = Ok bytes \<longleftrightarrow> length bytes = N \<and> s = encode_lower_hex bytes"
proof -
  have chars: "map (of_char :: char \<Rightarrow> u8) s = map of_char t \<longleftrightarrow> s = t" for t :: string
    by (rule inj_map_eq_map [OF inj_byte_of_char])
  have "lower_hex_visit_str N s = Ok bytes \<longleftrightarrow> length s = N * 2 \<and> decode_pairs (map of_char s) = Some bytes"
    by (simp add: lower_hex_visit_str_def Let_def result_simps)
  also have "\<dots> \<longleftrightarrow> length s = N * 2 \<and> s = encode_lower_hex bytes"
    using decode_pairs_Some [of "map of_char s" bytes] unfolding chars by (metis dvd_triv_right length_map)
  finally show ?thesis using length_encode_lower_hex [of bytes] by auto
qed

section \<open>The receipt codec\<close>

lemma canonical_receipt_of_eq:
  "canonical_receipt_of sha256 body bytes = r \<longleftrightarrow>
     cr_body r = body \<and> cr_canonical_body r = bytes \<and> cr_fingerprint r = receipt_body_fingerprint sha256 bytes"
  by (cases r) (auto simp: canonical_receipt_of_def)

lemma decode_receipt_Ok:
  "decode_boot_publication_receipt libc to_vec from_slice sha256 bytes = Ok r \<longleftrightarrow>
     enforce_body_size (length bytes) = Ok () \<and> from_slice bytes = Ok (cr_body r)
     \<and> receipt_validate libc (cr_body r) = Ok () \<and> to_vec (cr_body r) = Ok bytes
     \<and> cr_canonical_body r = bytes \<and> cr_fingerprint r = receipt_body_fingerprint sha256 bytes"
  by (auto simp: decode_boot_publication_receipt_def result_simps canonical_receipt_of_eq)

lemma prepare_receipt_Ok:
  "prepare_boot_publication_receipt libc to_vec sha256 body = Ok r \<longleftrightarrow>
     receipt_validate libc body = Ok () \<and> to_vec body = Ok (cr_canonical_body r)
     \<and> enforce_body_size (length (cr_canonical_body r)) = Ok ()
     \<and> cr_body r = body \<and> cr_fingerprint r = receipt_body_fingerprint sha256 (cr_canonical_body r)"
  by (auto simp: prepare_boot_publication_receipt_def result_simps canonical_receipt_of_eq)

section \<open>A sample receipt\<close>

text \<open>The encoding of device numbers in Linux.\<close>

definition linux_dev :: libc_dev where
  "linux_dev = \<lparr>
     dev_major = (\<lambda>dev. ucast (or (and (drop_bit 8 dev) 0xFFF) (and (drop_bit 32 dev) 0xFFFFF000))),
     dev_minor = (\<lambda>dev. ucast (or (and dev 0xFF) (and (drop_bit 12 dev) 0xFFFFFF00))),
     dev_makedev = (\<lambda>major minor.
       or (or (push_bit 8 (and (ucast major) 0xFFF)) (push_bit 32 (and (ucast major) 0xFFFFF000)))
          (or (and (ucast minor) 0xFF) (push_bit 12 (and (ucast minor) 0xFFFFFF00)))) \<rparr>"

definition sample_output :: "output_role \<Rightarrow> string \<Rightarrow> boot_output" where
  "sample_output role path = \<lparr>
     out_root = fst (role_binding role), out_phase = snd (role_binding role), out_role = role,
     relative_path = path, out_mode = 420, out_xxh3 = BootPublicationXxh3 (replicate 16 1), out_length = 4096,
     content_sha256 = BootPublicationSha256 (replicate 32 2), provenance_claim = ClaimedPublishedByCast \<rparr>"

definition sample_receipt :: receipt_body where
  "sample_receipt = \<lparr>
     body_format = ''cast-boot-publication-receipt'', body_version = 1,
     body_transition_id = TransitionId ''0123456789abcdef0123456789abcdef'',
     committed_predecessor = None,
     predecessor_journal_sha256 = BootPublicationSha256 (replicate 32 3),
     desired_inventory_sha256 = BootPublicationSha256 (replicate 32 4),
     body_destinations = BootAliasesEsp \<lparr>
       partuuid = ''01234567-89ab-cdef-0123-456789abcdef'', partition_number = 1,
       historical_runtime_witness = \<lparr>
         destination_device = 0x801, destination_inode = 2, mount_id = 30,
         partition_device_major = 8, partition_device_minor = 1, disk_sequence = None \<rparr> \<rparr>,
     body_outputs = [sample_output PayloadRole ''EFI/cast/kernel'', sample_output SystemdBootloader ''EFI/systemd/boot.efi''] \<rparr>"

lemma sample_destinations_valid: "destinations_validate linux_dev (body_destinations sample_receipt) = Ok ()"
  by (simp add: sample_receipt_def destinations_validate_def boot_destination_validate_def
      is_canonical_nonzero_uuid_def is_lower_hex_def is_ascii_digit_def less_eq_char_def
      runtime_witness_validate_def linux_dev_def)

lemma sample_components:
  "split_on (CHR ''/'') ''EFI/cast/kernel'' = [''EFI'', ''cast'', ''kernel'']"
  "split_on (CHR ''/'') ''EFI/systemd/boot.efi'' = [''EFI'', ''systemd'', ''boot.efi'']"
  by simp_all

lemma sample_components_ok:
  "list_all component_ok [''EFI'', ''cast'', ''kernel'', ''systemd'', ''boot.efi'']"
  by (simp add: component_ok_def is_dos_reserved_component_def to_ascii_uppercase_def is_ascii_lowercase_def
      less_eq_char_def)

lemma sample_folded:
  "folded_path (sample_output PayloadRole ''EFI/cast/kernel'') = ''efi/cast/kernel''"
  "folded_path (sample_output SystemdBootloader ''EFI/systemd/boot.efi'') = ''efi/systemd/boot.efi''"
  by (simp_all add: folded_path_def sample_output_def to_ascii_lowercase_def less_eq_char_def char_of_def bit_0)

lemma sample_receipt_valid: "receipt_validate linux_dev sample_receipt = Ok ()"
  using sample_destinations_valid sample_components sample_components_ok sample_folded
  by (simp add: receipt_validate_Ok receipt_ok_def sample_receipt_def output_ok_def path_ok_def separate_def
      paths_collide_def below_def output_key_def sample_output_def BOOT_PUBLICATION_RECEIPT_FORMAT_def less_publication_phase_def)

section \<open>Properties\<close>

text \<open>
  C26: validation of a boot-publication receipt, a single pass with running totals, an ordered map and
  the previous output, is the pairwise specification: format and version, valid destinations, 1 to
  8336 outputs with safe paths, the canonical mode and the root and phase of their role, totals of at
  most 8 MiB of path and 10 GiB of content counted without wrap-around, no two outputs of one
  destination namespace equal or one above the other up to case, and strictly ascending order.
\<close>

theorem receipt_validate_exact: "receipt_validate libc body = Ok () \<longleftrightarrow> receipt_ok libc body"
  by (rule receipt_validate_Ok)

text \<open>
  C27: the outputs of a valid receipt can be published side by side on a file system that ignores the case
  of letters. Every path is made of at most 16 proper names, none of them empty, a dot or the parent
  directory, so it stays below its root; and of two outputs that share a destination namespace neither
  is the other or a directory the other needs.
\<close>

theorem receipt_publishable:
  assumes "receipt_validate libc body = Ok ()"
    and "i < j" and "j < length (body_outputs body)"
    and "output_domain (aliases_esp (body_destinations body)) (out_root (body_outputs body ! i))
       = output_domain (aliases_esp (body_destinations body)) (out_root (body_outputs body ! j))"
  shows "list_all (\<lambda>out. length (split_on (CHR ''/'') (relative_path out)) \<le> 16
           \<and> list_all (\<lambda>c. c \<noteq> [] \<and> c \<noteq> ''.'' \<and> c \<noteq> ''..'') (split_on (CHR ''/'') (relative_path out))) (body_outputs body)
     \<and> \<not> prefix (split_on (CHR ''/'') (folded_path (body_outputs body ! i))) (split_on (CHR ''/'') (folded_path (body_outputs body ! j)))
     \<and> \<not> prefix (split_on (CHR ''/'') (folded_path (body_outputs body ! j))) (split_on (CHR ''/'') (folded_path (body_outputs body ! i)))"
proof (intro conjI)
  from assms(1) have "receipt_ok libc body" by (simp only: receipt_validate_Ok)
  then have outs: "list_all output_ok (body_outputs body)"
    and sep: "sorted_wrt (separate (aliases_esp (body_destinations body))) (body_outputs body)"
    by (simp_all add: receipt_ok_def)
  show "list_all (\<lambda>out. length (split_on (CHR ''/'') (relative_path out)) \<le> 16
           \<and> list_all (\<lambda>c. c \<noteq> [] \<and> c \<noteq> ''.'' \<and> c \<noteq> ''..'') (split_on (CHR ''/'') (relative_path out))) (body_outputs body)"
    using outs by (auto simp: list_all_iff output_ok_def path_ok_def component_ok_def)
  from sep assms(2-4) have "\<not> paths_collide (folded_path (body_outputs body ! i)) (folded_path (body_outputs body ! j))"
    by (auto simp: sorted_wrt_iff_nth_less separate_def)
  then show "\<not> prefix (split_on (CHR ''/'') (folded_path (body_outputs body ! i))) (split_on (CHR ''/'') (folded_path (body_outputs body ! j)))"
    and "\<not> prefix (split_on (CHR ''/'') (folded_path (body_outputs body ! j))) (split_on (CHR ''/'') (folded_path (body_outputs body ! i)))"
    by (auto simp: prefix_components paths_collide_def)
qed

theorem receipt_publishable_witness:
  "\<not> prefix (split_on (CHR ''/'') (folded_path (body_outputs sample_receipt ! 0))) (split_on (CHR ''/'') (folded_path (body_outputs sample_receipt ! 1)))"
  by (rule receipt_publishable [OF sample_receipt_valid, THEN conjunct2, THEN conjunct1])
    (simp_all add: sample_receipt_def)

text \<open>
  A digest has one text. Reading a text of \<open>N\<close> bytes yields the bytes exactly when there are \<open>N\<close> of
  them and the text is their lower-case hexadecimal form.
\<close>

theorem lower_hex_exact:
  "lower_hex_visit_str N s = Ok bytes \<longleftrightarrow> length bytes = N \<and> s = encode_lower_hex bytes"
  by (rule lower_hex_visit_str_Ok)

text \<open>
  C28: the receipt codec is canonical. Where the JSON reader reads back what the JSON writer writes,
  decoding accepts a byte string exactly when it is the canonical body that preparing the decoded receipt
  produces, with the same fingerprint.
\<close>

theorem receipt_codec_canonical:
  assumes "\<And>body bytes. to_vec body = Ok bytes \<Longrightarrow> from_slice bytes = Ok body"
  shows "decode_boot_publication_receipt libc to_vec from_slice sha256 bytes = Ok r \<longleftrightarrow>
     prepare_boot_publication_receipt libc to_vec sha256 (cr_body r) = Ok r \<and> cr_canonical_body r = bytes"
  unfolding decode_receipt_Ok prepare_receipt_Ok using assms by blast

theorem receipt_codec_canonical_witness:
  "decode_boot_publication_receipt linux_dev (\<lambda>body. if body = sample_receipt then Ok [1, 2] else Err ''unsupported'')
       (\<lambda>bytes. if bytes = [1, 2] then Ok sample_receipt else Err ''malformed'') (\<lambda>bytes. replicate 32 7) [1, 2]
     = Ok (canonical_receipt_of (\<lambda>bytes. replicate 32 7) sample_receipt [1, 2])"
  by (rule receipt_codec_canonical [THEN iffD2])
    (auto simp: prepare_receipt_Ok sample_receipt_valid canonical_receipt_of_def enforce_body_size_def
      MAX_CANONICAL_BOOT_PUBLICATION_RECEIPT_BODY_BYTES_def split: if_splits)

end
