(* ===== verification/Fnmatch.thy ===== *)
theory Fnmatch
  imports Text_Prelude Ordered_Map
begin

text \<open>
  Glob patterns with named groups (\<open>fnmatch/src/lib.rs\<close>): the parser of patterns, their translation to
  a regular expression, and matching. The regular-expression engine (the \<open>regex\<close> crate) is a
  parameter. Texts are their UTF-8 bytes; a walker over a text is represented by what it has not
  walked over yet.
\<close>

section \<open>Patterns\<close>

datatype fragment =
  MatchOne
| MatchAnyExceptForwardSlash
| MatchAny
| BackSlash
| Dot
| ForwardSlash
| Text string
| Group string "fragment list"

datatype fnmatch_error = MalformedGroup | InvalidRegex string

text \<open>
  A one-byte slice of a text is a character only where that character is ASCII; elsewhere \<open>str::get\<close>
  returns nothing.
\<close>

fun walker_next :: "string \<Rightarrow> (char \<times> string) option" where
  "walker_next [] = None"
| "walker_next (c # rest) = (if is_ascii c then Some (c, rest) else None)"

definition walker_eat :: "nat \<Rightarrow> string \<Rightarrow> string" where
  "walker_eat much rest = drop much rest"

definition walker_peek :: "string \<Rightarrow> char option" where
  "walker_peek rest = (case rest of [] \<Rightarrow> None | c # rest' \<Rightarrow> if is_ascii c then Some c else None)"

text \<open>The search walks until the character, a text that is not ASCII, or the end.\<close>

fun substring_to :: "char \<Rightarrow> string \<Rightarrow> string option" where
  "substring_to c [] = None"
| "substring_to c (t # rest) =
     (if \<not> is_ascii t then None
      else if t = c then Some []
      else map_option ((#) t) (substring_to c rest))"

definition flush_text :: "string \<Rightarrow> fragment list \<Rightarrow> fragment list" where
  "flush_text pending builder = (if pending \<noteq> [] then builder @ [Text pending] else builder)"

lemma substring_to_length: "substring_to c s = Some t \<Longrightarrow> length t < length s"
  by (induction s arbitrary: t) (auto split: if_splits)

lemma split_on_second: "split_on c s = [key, glob] \<Longrightarrow> length glob \<le> length s"
  using split_on_length [of glob c s] by simp

lemma walker_next_length: "walker_next s = Some (c, rest) \<Longrightarrow> length rest < length s"
  by (cases s) (auto split: if_splits)

text \<open>
  The loop over a pattern, with the text collected so far and the fragments built so far. A group flushes
  no text: it is pushed at once, and the text collected before it comes after it.
\<close>

function fragments_loop :: "string \<Rightarrow> string \<Rightarrow> fragment list \<Rightarrow> (fragment list, fnmatch_error) result" where
  "fragments_loop walker collected builder =
     (case walker_next walker of
        None \<Rightarrow> Ok (flush_text collected builder)
      | Some (ch, rest) \<Rightarrow>
          if ch = CHR ''?'' then fragments_loop rest [] (flush_text collected builder @ [MatchOne])
          else if ch = CHR ''*'' \<and> walker_peek rest = Some (CHR ''*'')
          then fragments_loop (walker_eat 1 rest) [] (flush_text collected builder @ [MatchAny])
          else if ch = CHR ''*'' then fragments_loop rest [] (flush_text collected builder @ [MatchAnyExceptForwardSlash])
          else if ch = CHR 0x5C then fragments_loop rest [] (flush_text collected builder @ [BackSlash])
          else if ch = CHR ''/'' then fragments_loop rest [] (flush_text collected builder @ [ForwardSlash])
          else if ch = CHR ''.'' then fragments_loop rest [] (flush_text collected builder @ [Dot])
          else if ch = CHR ''('' then
            (case substring_to (CHR '')'') rest of
               None \<Rightarrow> Err MalformedGroup
             | Some inner \<Rightarrow>
                 (case split_on (CHR '':'') inner of
                    [key, glob] \<Rightarrow>
                      res_bind (fragments_loop glob [] []) (\<lambda>subpattern.
                        fragments_loop (walker_eat (length inner + 1) rest) collected
                          (builder @ [Group key subpattern]))
                  | _ \<Rightarrow> Err MalformedGroup))
          else if ch = CHR '')'' then fragments_loop rest collected builder
          else fragments_loop rest (collected @ [ch]) builder)"
  by pat_completeness auto
termination
  by (relation "measure (\<lambda>(walker, collected, builder). length walker)")
    (auto simp: walker_eat_def dest!: walker_next_length substring_to_length split_on_second)

declare fragments_loop.simps [simp del]

definition fragments_from_string :: "string \<Rightarrow> (fragment list, fnmatch_error) result" where
  "fragments_from_string s = fragments_loop s [] []"

section \<open>Translation\<close>

fun fragment_to_regex_str :: "fragment \<Rightarrow> string \<times> string list" where
  "fragment_to_regex_str MatchOne = (''.'', [])"
| "fragment_to_regex_str MatchAnyExceptForwardSlash = (''[^'' @ [CHR 0x5C] @ ''/]*'', [])"
| "fragment_to_regex_str MatchAny = (''.*'', [])"
| "fragment_to_regex_str BackSlash = ([CHR 0x5C], [])"
| "fragment_to_regex_str ForwardSlash = ([CHR 0x5C] @ ''/'', [])"
| "fragment_to_regex_str Dot = ([CHR 0x5C] @ ''.'', [])"
| "fragment_to_regex_str (Text t) = (t, [])"
| "fragment_to_regex_str (Group ident elements) =
     (let parts = map fragment_to_regex_str elements
      in (''(?<'' @ ident @ ''>'' @ concat (map fst parts) @ '')'', concat (map snd parts) @ [ident]))"

record 'rx pattern =
  pattern_text :: string
  pattern_regex :: 'rx
  pattern_groups :: "string list"

text \<open>The groups are collected in an ordered set and kept as its ascending list.\<close>

definition pattern_from_str :: "(string \<Rightarrow> ('rx, string) result) \<Rightarrow> string \<Rightarrow> ('rx pattern, fnmatch_error) result" where
  "pattern_from_str regex_new s =
     res_bind (fragments_from_string s) (\<lambda>fragments.
       (let parts = map fragment_to_regex_str fragments;
            groups = sorted_list_of_set (set (concat (map snd parts)));
            compiled = concat (map fst parts)
        in res_bind (map_err InvalidRegex (regex_new (''^'' @ compiled @ ''$''))) (\<lambda>regex.
             Ok \<lparr> pattern_text = s, pattern_regex = regex, pattern_groups = groups \<rparr>)))"

section \<open>Matching\<close>

record path_match =
  match_path_text :: string
  match_variables :: "(string \<times> string) list"

text \<open>
  The outcome of a match: no match, a match, or the panic of \<open>unwrap\<close> on a group the engine did not
  capture. The engine maps the names of the groups that took part in a match to what they matched.
\<close>

datatype match_outcome = NoMatch | Matched path_match | MatchPanic

definition pattern_match_path :: "('rx \<Rightarrow> string \<Rightarrow> (string \<Rightarrow> string option) option) \<Rightarrow> 'rx pattern \<Rightarrow> string \<Rightarrow> match_outcome" where
  "pattern_match_path captures p path =
     (case captures (pattern_regex p) path of
        None \<Rightarrow> NoMatch
      | Some m \<Rightarrow>
          if list_all (\<lambda>k. m k \<noteq> None) (pattern_groups p)
          then Matched \<lparr> match_path_text = path,
                 match_variables = foldl (\<lambda>kv k. btree_insert k (the (m k)) kv) [] (pattern_groups p) \<rparr>
          else MatchPanic)"

definition pattern_eq :: "'rx pattern \<Rightarrow> 'rx pattern \<Rightarrow> bool" where
  "pattern_eq p q \<longleftrightarrow> pattern_text p = pattern_text q \<and> pattern_groups p = pattern_groups q"

section \<open>Patterns that mean what they say\<close>

text \<open>The pattern a list of fragments stands for.\<close>

fun fragment_text :: "fragment \<Rightarrow> string" where
  "fragment_text MatchOne = ''?''"
| "fragment_text MatchAnyExceptForwardSlash = ''*''"
| "fragment_text MatchAny = ''**''"
| "fragment_text BackSlash = [CHR 0x5C]"
| "fragment_text Dot = ''.''"
| "fragment_text ForwardSlash = ''/''"
| "fragment_text (Text t) = t"
| "fragment_text (Group key elements) = ''('' @ key @ '':'' @ concat (map fragment_text elements) @ '')''"

definition fragments_text :: "fragment list \<Rightarrow> string" where
  "fragments_text fs = concat (map fragment_text fs)"

definition plain_char :: "char \<Rightarrow> bool" where
  "plain_char c \<longleftrightarrow> is_ascii c \<and> c \<notin> {CHR ''?'', CHR ''*'', CHR 0x5C, CHR ''/'', CHR ''.'', CHR ''('', CHR '')''}"

fun starts_plain :: "fragment list \<Rightarrow> bool" where
  "starts_plain (Text t # fs) = True"
| "starts_plain (Group key elements # fs) = True"
| "starts_plain fs = False"

fun starts_star :: "fragment list \<Rightarrow> bool" where
  "starts_star (MatchAny # fs) = True"
| "starts_star (MatchAnyExceptForwardSlash # fs) = True"
| "starts_star fs = False"

text \<open>
  Fragments that can be written down: a text is not empty, has no special characters, and is followed by
  neither a text nor a group; a star is not followed by a star; the body of a group has no colon, no
  parenthesis and so no group.
\<close>

fun writable :: "fragment list \<Rightarrow> bool" where
  "writable [] = True"
| "writable (Text t # fs) \<longleftrightarrow> t \<noteq> [] \<and> list_all plain_char t \<and> \<not> starts_plain fs \<and> writable fs"
| "writable (MatchAnyExceptForwardSlash # fs) \<longleftrightarrow> \<not> starts_star fs \<and> writable fs"
| "writable (Group key elements # fs) \<longleftrightarrow>
     list_all (\<lambda>c. is_ascii c \<and> c \<noteq> CHR '':'' \<and> c \<noteq> CHR '')'') (key @ fragments_text elements)
     \<and> writable elements \<and> writable fs"
| "writable (f # fs) \<longleftrightarrow> writable fs"

lemma fragments_text_simps [simp]:
  "fragments_text [] = []" "fragments_text (f # fs) = fragment_text f @ fragments_text fs"
  by (simp_all add: fragments_text_def)

lemma fragments_loop_plain:
  "list_all plain_char t \<Longrightarrow> fragments_loop (t @ rest) collected builder = fragments_loop rest (collected @ t) builder"
proof (induction t arbitrary: collected)
  case (Cons c t)
  then show ?case by (subst fragments_loop.simps) (simp add: plain_char_def)
qed simp

lemma substring_to_found:
  "list_all (\<lambda>c. is_ascii c \<and> c \<noteq> e) s \<Longrightarrow> is_ascii e \<Longrightarrow> substring_to e (s @ e # rest) = Some s"
  by (induction s) auto

lemma split_on_none: "c \<notin> set s \<Longrightarrow> split_on c s = [s]"
  by (induction s) auto

lemma split_on_once: "c \<notin> set a \<Longrightarrow> c \<notin> set b \<Longrightarrow> split_on c (a @ c # b) = [a, b]"
  by (simp add: split_on_append split_on_none)

lemma walker_peek_not_star: "writable fs \<Longrightarrow> \<not> starts_star fs \<Longrightarrow> walker_peek (fragments_text fs) \<noteq> Some (CHR ''*'')"
proof (cases fs)
  case (Cons f fs')
  assume "writable fs" "\<not> starts_star fs"
  with Cons show ?thesis
    by (cases f; cases "case f of Text t \<Rightarrow> t | _ \<Rightarrow> []") (auto simp: walker_peek_def plain_char_def split: if_splits)
qed (simp add: walker_peek_def)

lemma special_ascii [simp]:
  "is_ascii (CHR ''?'')" "is_ascii (CHR ''*'')" "is_ascii (CHR 0x5C)" "is_ascii (CHR ''/'')" "is_ascii (CHR ''.'')"
  "is_ascii (CHR ''('')" "is_ascii (CHR '')'')" "is_ascii (CHR '':'')"
  by (simp_all add: is_ascii_def)

lemma fragments_loop_group:
  assumes "list_all (\<lambda>c. is_ascii c \<and> c \<noteq> CHR '':'' \<and> c \<noteq> CHR '')'') (key @ inner)"
    and "fragments_loop inner [] [] = Ok elements"
  shows "fragments_loop (''('' @ key @ '':'' @ inner @ '')'' @ rest) collected builder
    = fragments_loop rest collected (builder @ [Group key elements])"
proof -
  have found: "substring_to (CHR '')'') ((key @ '':'' @ inner) @ CHR '')'' # rest) = Some (key @ '':'' @ inner)"
    using assms(1) by (intro substring_to_found) (auto simp: list_all_iff)
  have pieces: "split_on (CHR '':'') (key @ CHR '':'' # inner) = [key, inner]"
    using assms(1) by (intro split_on_once) (auto simp: list_all_iff)
  show ?thesis
    using found pieces assms(2) by (subst fragments_loop.simps) (simp add: walker_eat_def)
qed

lemma fragments_loop_writable:
  "writable fs \<Longrightarrow> collected = [] \<or> \<not> starts_plain fs \<Longrightarrow>
     fragments_loop (fragments_text fs) collected builder = Ok (flush_text collected builder @ fs)"
proof (induction fs arbitrary: collected builder rule: writable.induct)
  case 1
  then show ?case by (subst fragments_loop.simps) simp
next
  case (2 t fs)
  then show ?case by (simp add: fragments_loop_plain) (simp add: flush_text_def)
next
  case (3 fs)
  then show ?case using walker_peek_not_star [of fs] by (subst fragments_loop.simps) (simp add: flush_text_def)
next
  case (4 key elements fs)
  then show ?case
    using fragments_loop_group [of key "fragments_text elements" elements "fragments_text fs" collected builder]
    by (simp add: flush_text_def fragments_text_def)
qed (subst fragments_loop.simps, simp add: flush_text_def walker_peek_def walker_eat_def)+

lemma walker_peek_cut: "\<not> is_ascii c \<Longrightarrow> walker_peek (s @ c # rest) = walker_peek s"
  by (cases s) (simp_all add: walker_peek_def)

lemma fragments_loop_cut:
  assumes "list_all (\<lambda>c. c \<noteq> CHR ''('') s" and "\<not> is_ascii c"
  shows "fragments_loop (s @ c # rest) collected builder = fragments_loop s collected builder"
  using assms(1)
proof (induction s arbitrary: collected builder rule: length_induct)
  case (1 s)
  show ?case
  proof (cases s)
    case Nil
    then show ?thesis using assms(2) by (simp add: fragments_loop.simps [of "[]"] fragments_loop.simps [of "c # rest"])
  next
    case (Cons x t)
    have IH: "fragments_loop (u @ c # rest) col b = fragments_loop u col b"
      if "length u < length s" "list_all (\<lambda>c. c \<noteq> CHR ''('') u" for u col b
      using 1(1) that by blast
    have "length t < length s" "list_all (\<lambda>c. c \<noteq> CHR ''('') t"
      and "length (walker_eat 1 t) < length s" "list_all (\<lambda>c. c \<noteq> CHR ''('') (walker_eat 1 t)"
      using 1(2) Cons by (auto simp: walker_eat_def list_all_iff dest: in_set_dropD)
    note step = IH [OF this(1,2)] IH [OF this(3,4)]
    have eat: "walker_eat 1 (t @ c # rest) = walker_eat 1 t @ c # rest" if "walker_peek t = Some (CHR ''*'')"
      using that by (cases t) (simp_all add: walker_eat_def walker_peek_def)
    note unfold = fragments_loop.simps [of "x # t @ c # rest"] fragments_loop.simps [of "x # t"]
    from 1(2) Cons have "x \<noteq> CHR ''(''" by simp
    show ?thesis
    proof (cases "is_ascii x")
      case False
      then show ?thesis unfolding Cons append_Cons unfold by simp
    next
      case True
      then have next_x: "walker_next (x # u) = Some (x, u)" for u by simp
      show ?thesis
      proof (cases "x = CHR ''*'' \<and> walker_peek t = Some (CHR ''*'')")
        case True
        then show ?thesis
          unfolding Cons append_Cons unfold next_x option.case prod.case walker_peek_cut [OF assms(2)]
          using eat step(2) by simp
      next
        case False
        then show ?thesis
          using \<open>x \<noteq> CHR ''(''\<close>
          unfolding Cons append_Cons unfold next_x option.case prod.case walker_peek_cut [OF assms(2)] step(1)
          by (simp only: if_False refl)
      qed
    qed
  qed
qed

section \<open>Properties\<close>



text \<open>
  C32: a group moves before the text it follows. The pattern of a plain text and then a group compiles to the
  regular expression of the group and then the text, so \<open>lib(version:*)\<close> matches \<open>6.2lib\<close> and not
  \<open>lib6.2\<close>.
\<close>

theorem group_before_its_text:
  assumes "t \<noteq> []" and "list_all plain_char t" and "list_all (\<lambda>c. is_ascii c \<and> c \<noteq> CHR '':'' \<and> c \<noteq> CHR '')'') key"
  shows "pattern_from_str Ok (t @ ''('' @ key @ '':*)'')
    = Ok \<lparr> pattern_text = t @ ''('' @ key @ '':*)'',
           pattern_regex = ''^(?<'' @ key @ ''>[^'' @ [CHR 0x5C] @ ''/]*)'' @ t @ ''$'',
           pattern_groups = [key] \<rparr>"
proof -
  have star: "fragments_loop ''*'' [] [] = Ok [MatchAnyExceptForwardSlash]"
    using fragments_loop_writable [of "[MatchAnyExceptForwardSlash]" "[]" "[]"] by (simp add: flush_text_def)
  have "fragments_loop (t @ ''('' @ key @ '':'' @ ''*'' @ '')'' @ []) [] [] = Ok [Group key [MatchAnyExceptForwardSlash], Text t]"
    unfolding fragments_loop_plain [OF assms(2)]
    using fragments_loop_group [OF _ star, of key "[]" t "[]"] assms
    by (simp add: fragments_loop.simps [of "[]"] flush_text_def)
  then show ?thesis by (simp add: pattern_from_str_def fragments_from_string_def Let_def)
qed

theorem group_before_its_text_witness:
  "pattern_from_str Ok ''lib(version:*)''
    = Ok \<lparr> pattern_text = ''lib(version:*)'', pattern_regex = ''^(?<version>[^'' @ [CHR 0x5C] @ ''/]*)lib$'',
           pattern_groups = [''version''] \<rparr>"
  using group_before_its_text [of "''lib''" "''version''"] by (simp add: plain_char_def is_ascii_def)

text \<open>
  A pattern ends at its first character that is not ASCII: what follows is dropped without an error.
\<close>

theorem pattern_cut_at_non_ascii:
  assumes "list_all (\<lambda>c. c \<noteq> CHR ''('') s" and "\<not> is_ascii c"
  shows "fragments_from_string (s @ c # rest) = fragments_from_string s"
  using fragments_loop_cut [OF assms] by (simp add: fragments_from_string_def)

theorem pattern_cut_at_non_ascii_witness:
  "fragments_from_string (''/usr/caf'' @ CHR 0xC3 # CHR 0xA9 # ''/*'') = fragments_from_string ''/usr/caf''"
  by (rule pattern_cut_at_non_ascii) (simp_all add: is_ascii_def)

end
