(* ===== verification/Vfs_Tree.thy ===== *)
theory Vfs_Tree
  imports Text_Prelude Ordered_Map
begin

text \<open>
  The virtual file-system tree that plans the files of a system root (\<open>vfs/src/path.rs\<close>,
  \<open>vfs/src/tree/mod.rs\<close> and \<open>vfs/src/tree/builder.rs\<close>). The arena of the \<open>indextree\<close> crate is a
  parameter, the record \<open>arena_ops\<close>; the trait \<open>BlitFile\<close> is the record \<open>blit_file\<close> of its methods.
  Texts are their UTF-8 bytes.
\<close>

section \<open>Paths\<close>

definition path_join :: "string \<Rightarrow> string \<Rightarrow> string" where
  "path_join a b =
     (if b \<noteq> [] \<and> hd b = CHR ''/'' then b
      else if ends_with a (CHR ''/'') then a @ b
      else a @ ''/'' @ b)"

record vfs_path =
  vp_path :: string
  file_name_start_idx :: u32
  parent_end_idx :: u32

text \<open>\<open>None\<close> is the panic of a failed assertion or conversion.\<close>

definition vfs_path_new :: "string \<Rightarrow> vfs_path option" where
  "vfs_path_new path =
     (if \<not> (path \<noteq> [] \<and> hd path = CHR ''/'') then None
      else if length path > 1 \<and> ends_with path (CHR ''/'') then None
      else
        (case before_last (CHR ''/'') path of
           None \<Rightarrow> None
         | Some before \<Rightarrow>
             (let start = length before + 1
              in if start \<ge> 2 ^ 32 then None
                 else
                   (let file_name_start = (word_of_nat start :: u32)
                    in Some \<lparr> vp_path = path, file_name_start_idx = file_name_start,
                         parent_end_idx = (if file_name_start = 1 then 1 else file_name_start - 1) \<rparr>))))"

definition vp_file_name :: "vfs_path \<Rightarrow> string" where
  "vp_file_name p = drop (unat (file_name_start_idx p)) (vp_path p)"

definition vp_parent :: "vfs_path \<Rightarrow> string option" where
  "vp_parent p = (if length (vp_path p) > 1 then Some (take (unat (parent_end_idx p)) (vp_path p)) else None)"

definition path_components :: "string \<Rightarrow> string list" where
  "path_components path =
     filter (\<lambda>s. s \<noteq> []) ((if path \<noteq> [] \<and> hd path = CHR ''/'' then [''/''] else []) @ split_on (CHR ''/'') path)"

section \<open>Files\<close>

datatype vfs_kind = Regular | Directory | Symlink string

fun is_directory :: "vfs_kind \<Rightarrow> bool" where
  "is_directory Directory = True"
| "is_directory k = False"

record 'f blit_file =
  blit_kind :: "'f \<Rightarrow> vfs_kind"
  blit_path :: "'f \<Rightarrow> string"
  blit_id :: "'f \<Rightarrow> string"
  cloned_to :: "'f \<Rightarrow> string \<Rightarrow> 'f"
  from_path :: "string \<Rightarrow> 'f"

record 'f vfs_file =
  file_id :: string
  file_path :: vfs_path
  file_kind :: vfs_kind
  file_inner :: 'f

definition file_new :: "'f blit_file \<Rightarrow> 'f \<Rightarrow> 'f vfs_file option" where
  "file_new blit inner =
     map_option (\<lambda>path. \<lparr> file_id = blit_id blit inner, file_path = path, file_kind = blit_kind blit inner, file_inner = inner \<rparr>)
       (vfs_path_new (blit_path blit inner))"

definition file_name :: "'f vfs_file \<Rightarrow> string" where
  "file_name f = vp_file_name (file_path f)"

definition file_parent :: "'f vfs_file \<Rightarrow> string option" where
  "file_parent f = vp_parent (file_path f)"

definition file_astr :: "'f vfs_file \<Rightarrow> string" where
  "file_astr f = vp_path (file_path f)"

section \<open>The tree\<close>

text \<open>
  The arena: \<open>descendants\<close> lists a node and what is below it, the node first; \<open>append\<close> panics (\<open>None\<close>) where
  the child is the parent or above it.
\<close>

record ('a, 'n, 'd) arena_ops =
  arena_empty :: 'a
  arena_new_node :: "'a \<Rightarrow> 'd \<Rightarrow> 'n \<times> 'a"
  arena_get :: "'a \<Rightarrow> 'n \<Rightarrow> 'd option"
  arena_children :: "'a \<Rightarrow> 'n \<Rightarrow> 'n list"
  arena_descendants :: "'a \<Rightarrow> 'n \<Rightarrow> 'n list"
  arena_append :: "'a \<Rightarrow> 'n \<Rightarrow> 'n \<Rightarrow> 'a option"
  arena_remove_subtree :: "'a \<Rightarrow> 'n \<Rightarrow> 'a"

datatype vfs_error = MissingParent string | VfsPanic

record ('a, 'n) vfs_tree =
  tree_arena :: 'a
  tree_map :: "string \<Rightarrow> 'n option"
  tree_length :: u64

definition tree_with_capacity :: "('a, 'n, 'f vfs_file) arena_ops \<Rightarrow> ('a, 'n) vfs_tree" where
  "tree_with_capacity ops = \<lparr> tree_arena = arena_empty ops, tree_map = (\<lambda>p. None), tree_length = 0 \<rparr>"

definition tree_new_node :: "('a, 'n, 'f vfs_file) arena_ops \<Rightarrow> 'f vfs_file \<Rightarrow> ('a, 'n) vfs_tree \<Rightarrow> 'n \<times> ('a, 'n) vfs_tree" where
  "tree_new_node ops data t =
     (let path = file_astr data; (node, arena) = arena_new_node ops (tree_arena t) data
      in (node, t \<lparr> tree_arena := arena, tree_map := (tree_map t)(path \<mapsto> node), tree_length := tree_length t + 1 \<rparr>))"

definition resolve_node :: "('a, 'n) vfs_tree \<Rightarrow> string \<Rightarrow> 'n option" where
  "resolve_node t data = tree_map t data"

text \<open>A child of the same name is reported and skipped; the report is the only effect of that branch.\<close>

definition add_child_to_node ::
  "('a, 'n, 'f vfs_file) arena_ops \<Rightarrow> 'n \<Rightarrow> string \<Rightarrow> ('a, 'n) vfs_tree \<Rightarrow> (('a, 'n) vfs_tree, vfs_error) result" where
  "add_child_to_node ops node_id parent t =
     (case arena_get ops (tree_arena t) node_id of
        None \<Rightarrow> Err VfsPanic
      | Some node \<Rightarrow>
          (case tree_map t parent of
             None \<Rightarrow> Err (MissingParent parent)
           | Some parent_node \<Rightarrow>
               (let others = filter (\<lambda>n. file_name n = file_name node)
                  (List.map_filter (arena_get ops (tree_arena t)) (arena_children ops (tree_arena t) parent_node))
                in if others \<noteq> [] then Ok t
                   else (case arena_append ops (tree_arena t) parent_node node_id of
                           None \<Rightarrow> Err VfsPanic
                         | Some arena \<Rightarrow> Ok (t \<lparr> tree_arena := arena \<rparr>)))))"

definition strip_prefix :: "string \<Rightarrow> string \<Rightarrow> string option" where
  "strip_prefix p s = (if prefix p s then Some (drop (length p) s) else None)"

text \<open>The path of a file below a redirected link, as \<open>reparent\<close> computes it.\<close>

definition reparented_path :: "string \<Rightarrow> string \<Rightarrow> string \<Rightarrow> string option" where
  "reparented_path source_path target_path path = map_option (path_join target_path) (strip_prefix source_path path)"

definition make_orphan ::
  "('a, 'n, 'f vfs_file) arena_ops \<Rightarrow> 'f blit_file \<Rightarrow> 'a \<Rightarrow> string \<Rightarrow> string \<Rightarrow> 'n \<Rightarrow> 'f vfs_file option" where
  "make_orphan ops blit arena source_path target_path i =
     (case arena_get ops arena i of
        None \<Rightarrow> None
      | Some original \<Rightarrow>
          (case reparented_path source_path target_path (file_astr original) of
             None \<Rightarrow> None
           | Some relapath \<Rightarrow> file_new blit (cloned_to blit (file_inner original) relapath)))"

fun adopt_orphans ::
  "('a, 'n, 'f vfs_file) arena_ops \<Rightarrow> 'f vfs_file list \<Rightarrow> ('a, 'n) vfs_tree \<Rightarrow> (('a, 'n) vfs_tree, vfs_error) result" where
  "adopt_orphans ops [] t = Ok t"
| "adopt_orphans ops (orphan # orphans) t =
     (let (node, t) = (case resolve_node t (file_astr orphan) of
                         Some n \<Rightarrow> (n, t)
                       | None \<Rightarrow> tree_new_node ops orphan t)
      in case file_parent orphan of
           None \<Rightarrow> adopt_orphans ops orphans t
         | Some parent \<Rightarrow> res_bind (add_child_to_node ops node parent t) (adopt_orphans ops orphans))"

definition reparent ::
  "('a, 'n, 'f vfs_file) arena_ops \<Rightarrow> 'f blit_file \<Rightarrow> string \<Rightarrow> string \<Rightarrow> ('a, 'n) vfs_tree \<Rightarrow> (('a, 'n) vfs_tree, vfs_error) result" where
  "reparent ops blit source_path target_path t =
     (case tree_map t source_path of
        None \<Rightarrow> adopt_orphans ops [] t
      | Some source \<Rightarrow>
          (let mutations = (case tree_map t target_path of
                              None \<Rightarrow> []
                            | Some target \<Rightarrow> drop 1 (arena_descendants ops (tree_arena t) source));
               made = map (make_orphan ops blit (tree_arena t) source_path target_path) mutations
           in if None \<in> set made then Err VfsPanic
              else
                (let arena = foldl (arena_remove_subtree ops) (tree_arena t) (arena_children ops (tree_arena t) source)
                 in adopt_orphans ops (map the made) (t \<lparr> tree_arena := arena \<rparr>))))"

section \<open>The builder\<close>

record 'f tree_builder =
  explicit_files :: "'f vfs_file list"
  implicit_dirs :: "(string \<times> 'f vfs_file) list"

definition builder_new :: "'f tree_builder" where
  "builder_new = \<lparr> explicit_files = [], implicit_dirs = [] \<rparr>"

definition slash_count :: "string \<Rightarrow> nat" where
  "slash_count path = length (filter (\<lambda>c. c = CHR ''/'') path)"

definition sorted_paths :: "'f vfs_file \<Rightarrow> 'f vfs_file \<Rightarrow> ordering" where
  "sorted_paths a b =
     (let a_path_len = slash_count (file_astr a); b_path_len = slash_count (file_astr b)
      in if a_path_len \<noteq> b_path_len then ord_cmp a_path_len b_path_len
         else ord_cmp (file_astr a) (file_astr b))"

text \<open>The loop over the components of a parent path, with the path built up so far.\<close>

fun insert_parents ::
  "'f blit_file \<Rightarrow> string option \<Rightarrow> string list \<Rightarrow> (string \<times> 'f vfs_file) list \<Rightarrow> (string \<times> 'f vfs_file) list option" where
  "insert_parents blit leading_path [] dirs = Some dirs"
| "insert_parents blit leading_path (component # components) dirs =
     (let full_path = (case leading_path of Some fp \<Rightarrow> path_join fp component | None \<Rightarrow> component)
      in case file_new blit (from_path blit full_path) of
           None \<Rightarrow> None
         | Some dir \<Rightarrow> insert_parents blit (Some full_path) components (btree_insert full_path dir dirs))"

definition builder_push :: "'f blit_file \<Rightarrow> 'f \<Rightarrow> 'f tree_builder \<Rightarrow> 'f tree_builder option" where
  "builder_push blit item b =
     (case file_new blit item of
        None \<Rightarrow> None
      | Some file \<Rightarrow>
          (case (case file_parent file of
                   None \<Rightarrow> Some (implicit_dirs b)
                 | Some parent \<Rightarrow> insert_parents blit None (path_components parent) (implicit_dirs b)) of
             None \<Rightarrow> None
           | Some dirs \<Rightarrow> Some \<lparr> explicit_files = explicit_files b @ [file], implicit_dirs = dirs \<rparr>))"

definition builder_bake :: "'f tree_builder \<Rightarrow> 'f tree_builder" where
  "builder_bake b =
     (let explicit = sort_by sorted_paths (explicit_files b)
      in \<lparr> explicit_files = explicit,
           implicit_dirs = foldl (\<lambda>dirs i. btree_remove (file_astr i) dirs) (implicit_dirs b) explicit \<rparr>)"

definition builder_dirs :: "'f tree_builder \<Rightarrow> (string \<times> 'f vfs_file) list" where
  "builder_dirs b =
     btree_collect (map (\<lambda>d. (file_astr d, d))
       (filter (\<lambda>f. is_directory (file_kind f)) (explicit_files b) @ map snd (implicit_dirs b)))"

definition builder_non_dirs :: "'f tree_builder \<Rightarrow> 'f vfs_file list" where
  "builder_non_dirs b = filter (\<lambda>f. \<not> is_directory (file_kind f)) (explicit_files b)"

definition link_target :: "'f vfs_file \<Rightarrow> string \<Rightarrow> string" where
  "link_target link target =
     (if target \<noteq> [] \<and> hd target = CHR ''/'' then target
      else (case file_parent link of Some parent \<Rightarrow> path_join parent target | None \<Rightarrow> target))"

definition builder_redirects :: "'f tree_builder \<Rightarrow> (string \<times> string) list" where
  "builder_redirects b =
     btree_collect (List.map_filter (\<lambda>link.
       (case file_kind link of
          Symlink target \<Rightarrow>
            (let target = link_target link target
             in if btree_get (builder_dirs b) target \<noteq> None then Some (file_astr link, target) else None)
        | _ \<Rightarrow> None)) (builder_non_dirs b))"

fun insert_entries ::
  "('a, 'n, 'f vfs_file) arena_ops \<Rightarrow> 'f vfs_file list \<Rightarrow> ('a, 'n) vfs_tree \<Rightarrow> (('a, 'n) vfs_tree, vfs_error) result" where
  "insert_entries ops [] t = Ok t"
| "insert_entries ops (entry # entries) t =
     (let (node, t) = tree_new_node ops entry t
      in case file_parent entry of
           None \<Rightarrow> insert_entries ops entries t
         | Some parent \<Rightarrow> res_bind (add_child_to_node ops node parent t) (insert_entries ops entries))"

fun apply_redirects ::
  "('a, 'n, 'f vfs_file) arena_ops \<Rightarrow> 'f blit_file \<Rightarrow> (string \<times> string) list \<Rightarrow> ('a, 'n) vfs_tree \<Rightarrow> (('a, 'n) vfs_tree, vfs_error) result" where
  "apply_redirects ops blit [] t = Ok t"
| "apply_redirects ops blit ((source_tree, target_tree) # redirects) t =
     res_bind (reparent ops blit source_tree target_tree t) (apply_redirects ops blit redirects)"

definition builder_tree ::
  "('a, 'n, 'f vfs_file) arena_ops \<Rightarrow> 'f blit_file \<Rightarrow> 'f tree_builder \<Rightarrow> (('a, 'n) vfs_tree, vfs_error) result" where
  "builder_tree ops blit b =
     (let full_set = sort_by sorted_paths (map snd (builder_dirs b) @ builder_non_dirs b)
      in res_bind (insert_entries ops full_set (tree_with_capacity ops))
           (apply_redirects ops blit (builder_redirects b)))"

fun push_all :: "'f blit_file \<Rightarrow> 'f list \<Rightarrow> 'f tree_builder \<Rightarrow> 'f tree_builder option" where
  "push_all blit [] b = Some b"
| "push_all blit (item # items) b =
     (case builder_push blit item b of None \<Rightarrow> None | Some b \<Rightarrow> push_all blit items b)"

end
