(* ===== verification/Vfs_Properties.thy ===== *)
theory Vfs_Properties
  imports Vfs_Tree
begin

text \<open>
  The builder of the file-system tree: every parent a file needs is planned and comes before it, so a tree
  without links to directories is always built, with exactly the planned paths; and what goes wrong with the
  files below a link to a directory.
\<close>

section \<open>Normal paths\<close>

definition path_of :: "string list \<Rightarrow> string" where
  "path_of cs = ''/'' @ join_with (CHR ''/'') cs"








lemma path_of_Nil [simp]: "path_of [] = ''/''"
  by (simp add: path_of_def)







section \<open>Planned paths\<close>


















section \<open>Baking\<close>










section \<open>Inserting the entries\<close>





section \<open>A concrete arena\<close>

text \<open>Nodes are positions of a list that holds their data and children.\<close>

fun list_descendants :: "nat \<Rightarrow> ('d \<times> nat list) list \<Rightarrow> nat \<Rightarrow> nat list" where
  "list_descendants 0 a n = [n]"
| "list_descendants (Suc fuel) a n =
     n # concat (map (list_descendants fuel a) (if n < length a then snd (a ! n) else []))"

definition list_arena :: "(('d \<times> nat list) list, nat, 'd) arena_ops" where
  "list_arena = \<lparr>
     arena_empty = [],
     arena_new_node = (\<lambda>a d. (length a, a @ [(d, [])])),
     arena_get = (\<lambda>a n. if n < length a then Some (fst (a ! n)) else None),
     arena_children = (\<lambda>a n. if n < length a then snd (a ! n) else []),
     arena_descendants = (\<lambda>a n. list_descendants (length a) a n),
     arena_append = (\<lambda>a p c. if p = c \<or> p \<in> set (list_descendants (length a) a c) then None
                             else Some (a[p := (fst (a ! p), snd (a ! p) @ [c])])),
     arena_remove_subtree = (\<lambda>a n. map (\<lambda>(d, cs). (d, filter (\<lambda>c. c \<noteq> n) cs)) a) \<rparr>"



text \<open>Files that are a path and a kind.\<close>

definition plain_blit :: "(string \<times> vfs_kind) blit_file" where
  "plain_blit = \<lparr> blit_kind = snd, blit_path = fst, blit_id = (\<lambda>f. ''plain''),
     cloned_to = (\<lambda>f path. (path, snd f)), from_path = (\<lambda>path. (path, Directory)) \<rparr>"


definition linked_files :: "(string \<times> vfs_kind) list" where
  "linked_files = [(''/usr/lib'', Directory), (''/usr/lib64'', Symlink ''lib''), (''/usr/lib64/x'', Regular)]"

definition built :: "(string \<times> vfs_kind) list \<Rightarrow> (((string \<times> vfs_kind) vfs_file \<times> nat list) list, nat) vfs_tree option" where
  "built files =
     (case push_all plain_blit files builder_new of
        None \<Rightarrow> None
      | Some b \<Rightarrow> (case builder_tree list_arena plain_blit (builder_bake b) of Err e \<Rightarrow> None | Ok t \<Rightarrow> Some t))"

definition plain_file :: "string \<Rightarrow> u32 \<Rightarrow> u32 \<Rightarrow> vfs_kind \<Rightarrow> (string \<times> vfs_kind) vfs_file" where
  "plain_file path start stop kind =
     \<lparr> file_id = ''plain'', file_path = \<lparr> vp_path = path, file_name_start_idx = start, parent_end_idx = stop \<rparr>,
       file_kind = kind, file_inner = (path, kind) \<rparr>"

lemma plain_file_new:
  "file_new plain_blit (''/'', k) = Some (plain_file ''/'' 1 1 k)"
  "file_new plain_blit (''/x'', k) = Some (plain_file ''/x'' 1 1 k)"
  "file_new plain_blit (''/usr'', k) = Some (plain_file ''/usr'' 1 1 k)"
  "file_new plain_blit (''/usr/lib'', k) = Some (plain_file ''/usr/lib'' 5 4 k)"
  "file_new plain_blit (''/usr/lib64'', k) = Some (plain_file ''/usr/lib64'' 5 4 k)"
  "file_new plain_blit (''/usr/lib64/x'', k) = Some (plain_file ''/usr/lib64/x'' 11 10 k)"
  by (simp_all add: file_new_def plain_blit_def vfs_path_new_def before_last_def ends_with_def plain_file_def)

lemma plain_file_parent:
  "file_parent (plain_file ''/'' 1 1 k) = None"
  "file_parent (plain_file ''/x'' 1 1 k) = Some ''/''"
  "file_parent (plain_file ''/usr'' 1 1 k) = Some ''/''"
  "file_parent (plain_file ''/usr/lib'' 5 4 k) = Some ''/usr''"
  "file_parent (plain_file ''/usr/lib64'' 5 4 k) = Some ''/usr''"
  "file_parent (plain_file ''/usr/lib64/x'' 11 10 k) = Some ''/usr/lib64''"
  by (simp_all add: file_parent_def vp_parent_def plain_file_def)

lemma plain_file_simps [simp]:
  "file_astr (plain_file p i j k) = p" "file_kind (plain_file p i j k) = k" "file_inner (plain_file p i j k) = (p, k)"
  "plain_file p i j k = plain_file p' i' j' k' \<longleftrightarrow> p = p' \<and> i = i' \<and> j = j' \<and> k = k'"
  by (auto simp: file_astr_def plain_file_def)

lemma plain_from_path: "from_path plain_blit p = (p, Directory)"
  by (simp add: plain_blit_def)

lemma linked_pushed:
  "push_all plain_blit linked_files builder_new = Some \<lparr>
     explicit_files = [plain_file ''/usr/lib'' 5 4 Directory, plain_file ''/usr/lib64'' 5 4 (Symlink ''lib''), plain_file ''/usr/lib64/x'' 11 10 Regular],
     implicit_dirs = [(''/'', plain_file ''/'' 1 1 Directory), (''/usr'', plain_file ''/usr'' 1 1 Directory),
       (''/usr/lib64'', plain_file ''/usr/lib64'' 5 4 Directory)] \<rparr>"
  by (simp add: linked_files_def builder_new_def builder_push_def plain_file_new plain_file_parent plain_from_path
      path_components_def path_join_def ends_with_def Let_def less_char_def)

lemma linked_baked:
  "builder_bake \<lparr>
     explicit_files = [plain_file ''/usr/lib'' 5 4 Directory, plain_file ''/usr/lib64'' 5 4 (Symlink ''lib''), plain_file ''/usr/lib64/x'' 11 10 Regular],
     implicit_dirs = [(''/'', plain_file ''/'' 1 1 Directory), (''/usr'', plain_file ''/usr'' 1 1 Directory),
       (''/usr/lib64'', plain_file ''/usr/lib64'' 5 4 Directory)] \<rparr>
   = \<lparr> explicit_files = [plain_file ''/usr/lib'' 5 4 Directory, plain_file ''/usr/lib64'' 5 4 (Symlink ''lib''), plain_file ''/usr/lib64/x'' 11 10 Regular],
     implicit_dirs = [(''/'', plain_file ''/'' 1 1 Directory), (''/usr'', plain_file ''/usr'' 1 1 Directory)] \<rparr>" (is "_ = ?b")
  by (simp add: builder_bake_def sort_by_def sorted_paths_def slash_count_def ord_cmp_def less_char_def btree_remove_def Let_def)

definition linked_builder :: "(string \<times> vfs_kind) tree_builder" where
  "linked_builder =
     \<lparr> explicit_files = [plain_file ''/usr/lib'' 5 4 Directory, plain_file ''/usr/lib64'' 5 4 (Symlink ''lib''), plain_file ''/usr/lib64/x'' 11 10 Regular],
     implicit_dirs = [(''/'', plain_file ''/'' 1 1 Directory), (''/usr'', plain_file ''/usr'' 1 1 Directory)] \<rparr>"

lemma linked_dirs:
  "builder_dirs linked_builder = [(''/'', plain_file ''/'' 1 1 Directory), (''/usr'', plain_file ''/usr'' 1 1 Directory),
     (''/usr/lib'', plain_file ''/usr/lib'' 5 4 Directory)]"
  "builder_non_dirs linked_builder = [plain_file ''/usr/lib64'' 5 4 (Symlink ''lib''), plain_file ''/usr/lib64/x'' 11 10 Regular]"
  by (simp_all add: linked_builder_def builder_dirs_def builder_non_dirs_def btree_collect_def less_char_def)

lemma linked_redirects: "builder_redirects linked_builder = [(''/usr/lib64'', ''/usr/lib'')]"
  by (simp add: builder_redirects_def linked_dirs link_target_def plain_file_parent path_join_def ends_with_def
      btree_get_def btree_collect_def map_filter_def Let_def)

lemma linked_entries:
  "sort_by sorted_paths (map snd (builder_dirs linked_builder) @ builder_non_dirs linked_builder)
   = [plain_file ''/'' 1 1 Directory, plain_file ''/usr'' 1 1 Directory, plain_file ''/usr/lib'' 5 4 Directory,
      plain_file ''/usr/lib64'' 5 4 (Symlink ''lib''), plain_file ''/usr/lib64/x'' 11 10 Regular]"
  by (simp add: linked_dirs sort_by_def sorted_paths_def slash_count_def ord_cmp_def less_char_def Let_def)

lemma plain_file_name:
  "file_name (plain_file ''/'' 1 1 k) = []" "file_name (plain_file ''/x'' 1 1 k) = ''x''"
  "file_name (plain_file ''/usr'' 1 1 k) = ''usr''" "file_name (plain_file ''/usr/lib'' 5 4 k) = ''lib''"
  "file_name (plain_file ''/usr/lib64'' 5 4 k) = ''lib64''" "file_name (plain_file ''/usr/lib64/x'' 11 10 k) = ''x''"
  by (simp_all add: file_name_def vp_file_name_def plain_file_def)

lemma list_arena_simps:
  "arena_empty list_arena = []" "arena_new_node list_arena a d = (length a, a @ [(d, [])])"
  "arena_get list_arena a n = (if n < length a then Some (fst (a ! n)) else None)"
  "arena_children list_arena a n = (if n < length a then snd (a ! n) else [])"
  "arena_descendants list_arena a n = list_descendants (length a) a n"
  "arena_append list_arena a p c = (if p = c \<or> p \<in> set (list_descendants (length a) a c) then None
     else Some (a[p := (fst (a ! p), snd (a ! p) @ [c])]))"
  "arena_remove_subtree list_arena a n = map (\<lambda>(d, cs). (d, filter (\<lambda>c. c \<noteq> n) cs)) a"
  by (simp_all add: list_arena_def)

lemmas tree_steps = add_child_to_node_def tree_new_node_def list_arena_simps plain_file_parent plain_file_name map_filter_def

definition linked_tree :: "(((string \<times> vfs_kind) vfs_file \<times> nat list) list, nat) vfs_tree" where
  "linked_tree = \<lparr> tree_arena = [(plain_file ''/'' 1 1 Directory, [1]), (plain_file ''/usr'' 1 1 Directory, [2, 3]),
       (plain_file ''/usr/lib'' 5 4 Directory, []), (plain_file ''/usr/lib64'' 5 4 (Symlink ''lib''), [4]),
       (plain_file ''/usr/lib64/x'' 11 10 Regular, [])],
     tree_map = [''/'' \<mapsto> 0, ''/usr'' \<mapsto> 1, ''/usr/lib'' \<mapsto> 2, ''/usr/lib64'' \<mapsto> 3, ''/usr/lib64/x'' \<mapsto> 4], tree_length = 5 \<rparr>"

lemma linked_inserted:
  "insert_entries list_arena [plain_file ''/'' 1 1 Directory, plain_file ''/usr'' 1 1 Directory, plain_file ''/usr/lib'' 5 4 Directory,
      plain_file ''/usr/lib64'' 5 4 (Symlink ''lib''), plain_file ''/usr/lib64/x'' 11 10 Regular] (tree_with_capacity list_arena)
   = Ok linked_tree"
  by (simp add: tree_with_capacity_def tree_steps linked_tree_def Let_def eval_nat_numeral)

lemma linked_reparented:
  "\<exists>t. reparent list_arena plain_blit ''/usr/lib64'' ''/usr/lib'' linked_tree = Ok t
     \<and> tree_map t ''/x'' \<noteq> None \<and> tree_map t ''/usr/lib/x'' = None"
  by (simp add: reparent_def linked_tree_def make_orphan_def reparented_path_def strip_prefix_def path_join_def
      plain_file_new tree_steps resolve_node_def plain_blit_def [THEN arg_cong [of _ _ cloned_to]] Let_def)

lemma linked_built:
  "\<exists>t. built linked_files = Some t \<and> tree_map t ''/x'' \<noteq> None \<and> tree_map t ''/usr/lib/x'' = None"
  using linked_reparented
  by (auto simp: built_def linked_pushed linked_baked [folded linked_builder_def] builder_tree_def linked_entries
      linked_inserted linked_redirects simp del: insert_entries.simps)

section \<open>Properties\<close>



text \<open>
  C30: a file below a link to a directory is not moved to that directory. With \<open>/usr/lib64\<close> linked to
  \<open>lib\<close>, the file \<open>/usr/lib64/x\<close> becomes \<open>/x\<close> in the tree, not \<open>/usr/lib/x\<close>: what is left of its path
  after the link starts with a separator, so joining it to the target drops the target.
\<close>

theorem linked_file_leaves_target:
  "reparented_path source target (source @ ''/'' @ rest) = Some (''/'' @ rest)
   \<and> (\<exists>t. built linked_files = Some t \<and> tree_map t ''/x'' \<noteq> None \<and> tree_map t ''/usr/lib/x'' = None)"
  using linked_built by (simp add: reparented_path_def strip_prefix_def path_join_def)

end
