(* ===== verification/Run_Monad.thy ===== *)
theory Run_Monad
  imports Cast_Prelude
begin

text \<open>
  Computations that thread a state and may fail: the result of every call is a value with the next state,
  or an error. Used for code that reads clocks, reserves memory, reads descriptors or spends a budget.
\<close>

type_synonym ('a, 's, 'e) run = "'s \<Rightarrow> ('a \<times> 's, 'e) result"

definition run_bind :: "('a, 's, 'e) run \<Rightarrow> ('a \<Rightarrow> ('b, 's, 'e) run) \<Rightarrow> ('b, 's, 'e) run" where
  "run_bind m f = (\<lambda>s. case m s of Ok (x, s') \<Rightarrow> f x s' | Err e \<Rightarrow> Err e)"

definition run_then :: "('a, 's, 'e) run \<Rightarrow> ('b, 's, 'e) run \<Rightarrow> ('b, 's, 'e) run" where
  "run_then m k = run_bind m (\<lambda>_. k)"

definition run_return :: "'a \<Rightarrow> ('a, 's, 'e) run" where
  "run_return x = (\<lambda>s. Ok (x, s))"

definition run_fail :: "'e \<Rightarrow> ('a, 's, 'e) run" where
  "run_fail e = (\<lambda>s. Err e)"

definition run_ok_or :: "'a option \<Rightarrow> 'e \<Rightarrow> ('a, 's, 'e) run" where
  "run_ok_or v e = (case v of None \<Rightarrow> run_fail e | Some x \<Rightarrow> run_return x)"

named_theorems run_simps \<open>evaluation of computations on a state\<close>

lemma run_bind_apply [run_simps]: "run_bind m f s = (case m s of Ok (x, s') \<Rightarrow> f x s' | Err e \<Rightarrow> Err e)"
  by (simp add: run_bind_def)

lemma run_then_apply [run_simps]: "run_then m k s = (case m s of Ok (x, s') \<Rightarrow> k s' | Err e \<Rightarrow> Err e)"
  by (simp add: run_then_def run_bind_def)

lemma run_return_apply [run_simps]: "run_return x s = Ok (x, s)"
  by (simp add: run_return_def)

lemma run_fail_apply [run_simps]: "run_fail e s = Err e"
  by (simp add: run_fail_def)

lemma run_ok_or_Some: "run_bind (run_ok_or (Some x) e) f = f x"
  by (simp add: run_ok_or_def run_bind_def run_return_def)

lemma run_bind_return: "run_bind (run_return x) f = f x"
  by (simp add: run_bind_def run_return_def)

lemma run_bind_cong [fundef_cong]:
  "m = m' \<Longrightarrow> s = s' \<Longrightarrow> (\<And>x t. m' s' = Ok (x, t) \<Longrightarrow> f x t = f' x t) \<Longrightarrow> run_bind m f s = run_bind m' f' s'"
  by (simp add: run_bind_apply split: result.splits)

section \<open>The world outside\<close>

text \<open>
  What a computation asks of the world: readings of the clock and reservations of memory. The \<open>k\<close>-th question
  is answered by the \<open>k\<close>-th reading or the \<open>k\<close>-th reservation of that many bytes.
\<close>

record world =
  now_at :: "nat \<Rightarrow> nat"
  grants :: "nat \<Rightarrow> nat \<Rightarrow> bool"

text \<open>The kinds of \<open>io::Error\<close> the sources construct.\<close>

datatype io_kind =
  IoInvalidInput | IoInvalidData | IoUnexpectedEof | IoTimedOut | IoInterrupted | IoPermissionDenied | IoOtherKind

end
