(* ===== verification/Mountinfo.thy ===== *)
theory Mountinfo
  imports Run_Monad Text_Prelude
begin

text \<open>
  The bounded parser of Linux mount tables (\<open>forge/src/linux_fs/mountinfo.rs\<close>). The parser threads a work
  budget, and asks the outside world for the time and for memory; the world is a parameter that answers
  the questions in the order they are asked. Sizes are \<open>usize\<close> values kept as naturals; a subtraction
  below zero and an index past the end are the panics of the code.
\<close>

section \<open>Limits and records\<close>

definition MAX_MOUNTINFO_BYTES :: nat where
  "MAX_MOUNTINFO_BYTES = 4 * 1024 * 1024"

definition MAX_MOUNTINFO_LINES :: nat where
  "MAX_MOUNTINFO_LINES = 16 * 1024"

definition MAX_MOUNTINFO_FIELDS_PER_LINE :: nat where
  "MAX_MOUNTINFO_FIELDS_PER_LINE = 256"

definition MAX_MOUNTINFO_TOTAL_FIELDS :: nat where
  "MAX_MOUNTINFO_TOTAL_FIELDS = 256 * 1024"

definition MAX_MOUNTINFO_FIELD_BYTES :: nat where
  "MAX_MOUNTINFO_FIELD_BYTES = 256 * 1024"

definition MAX_MOUNTINFO_WORK :: nat where
  "MAX_MOUNTINFO_WORK = MAX_MOUNTINFO_BYTES * 8"

record mountinfo_limits =
  max_bytes :: nat
  max_lines :: nat
  max_fields_per_line :: nat
  max_total_fields :: nat
  max_field_bytes :: nat
  max_work :: nat

definition MOUNTINFO_LIMITS :: mountinfo_limits where
  "MOUNTINFO_LIMITS = \<lparr> max_bytes = MAX_MOUNTINFO_BYTES, max_lines = MAX_MOUNTINFO_LINES,
     max_fields_per_line = MAX_MOUNTINFO_FIELDS_PER_LINE, max_total_fields = MAX_MOUNTINFO_TOTAL_FIELDS,
     max_field_bytes = MAX_MOUNTINFO_FIELD_BYTES, max_work = MAX_MOUNTINFO_WORK \<rparr>"

record mount_device =
  dev_major :: u32
  dev_minor :: u32

record mountinfo_entry =
  mi_mount_id :: u64
  mi_parent_id :: u64
  mi_device :: mount_device
  mi_root :: "u8 list"
  mi_mount_point :: "u8 list"
  mi_mount_options :: "u8 list list"
  mi_optional_fields :: "u8 list list"
  mi_filesystem_type :: "u8 list"
  mi_mount_source :: "u8 list"
  mi_super_options :: "u8 list list"

text \<open>The errors, one constructor per message of the code; \<open>MiPanic\<close> is a failed index or subtraction.\<close>

datatype mi_error =
  MiInvalidLimits | MiByteLimit nat | MiSentinel | MiEmpty | MiNoNewline | MiNul | MiTimedOut | MiLineLimit nat
| MiEmptyLine nat | MiLongLine nat | MiTab nat | MiFieldCountOverflow | MiTotalFieldLimit nat
| MiRepeatedMountId u64 | MiNoRecords | MiEmptyField nat | MiLongField nat nat | MiLineFieldLimit nat nat
| MiLineCountOverflow | MiFewFields nat | MiNoSeparator nat | MiAmbiguousSeparator nat | MiOptionCountOverflow
| MiLineUnitLimit nat nat | MiNonCanonical nat string | MiDecimalOverflow nat string | MiDeviceNoColon nat
| MiDeviceColons nat | MiEscapeOverflow | MiTruncatedEscape nat string | MiUnknownEscape nat string
| MiEmptyValue nat string | MiNotAbsolute nat string | MiOptionItemLimit nat | MiEmptyOption nat string
| MiWorkLimit string | MiAllocation string | MiRead io_kind | MiPanic

fun mi_error_kind :: "mi_error \<Rightarrow> io_kind" where
  "mi_error_kind MiInvalidLimits = IoInvalidInput"
| "mi_error_kind MiSentinel = IoInvalidInput"
| "mi_error_kind MiEmpty = IoUnexpectedEof"
| "mi_error_kind MiNoNewline = IoUnexpectedEof"
| "mi_error_kind MiNoRecords = IoUnexpectedEof"
| "mi_error_kind MiTimedOut = IoTimedOut"
| "mi_error_kind (MiAllocation _) = IoOtherKind"
| "mi_error_kind (MiRead kind) = kind"
| "mi_error_kind _ = IoInvalidData"

section \<open>The work budget\<close>

definition require_parse_deadline :: "world \<Rightarrow> nat option \<Rightarrow> (unit, nat, mi_error) run" where
  "require_parse_deadline w deadline =
     (\<lambda>k. case deadline of
            None \<Rightarrow> Ok ((), k)
          | Some d \<Rightarrow> if now_at w k > d then Err MiTimedOut else Ok ((), k + 1))"

record work_budget =
  wb_limit :: nat
  wb_consumed :: nat
  wb_deadline :: "nat option"
  wb_asked :: nat

definition work_budget_new :: "nat \<Rightarrow> nat option \<Rightarrow> nat \<Rightarrow> work_budget" where
  "work_budget_new limit deadline k = \<lparr> wb_limit = limit, wb_consumed = 0, wb_deadline = deadline, wb_asked = k \<rparr>"

type_synonym 'a parse = "('a, work_budget, mi_error) run"

definition checkpoint :: "world \<Rightarrow> unit parse" where
  "checkpoint w = (\<lambda>b. case require_parse_deadline w (wb_deadline b) (wb_asked b) of
      Ok (u, k) \<Rightarrow> Ok ((), b \<lparr> wb_asked := k \<rparr>) | Err e \<Rightarrow> Err e)"

definition spend :: "nat \<Rightarrow> string \<Rightarrow> unit parse" where
  "spend amount operation = (\<lambda>b. case usize_checked_add (wb_consumed b) amount of
      None \<Rightarrow> Err (MiWorkLimit operation)
    | Some consumed \<Rightarrow>
        if consumed \<le> wb_limit b then Ok ((), b \<lparr> wb_consumed := consumed \<rparr>) else Err (MiWorkLimit operation))"

definition charge :: "world \<Rightarrow> nat \<Rightarrow> string \<Rightarrow> unit parse" where
  "charge w amount operation = run_then (checkpoint w) (run_then (spend amount operation) (checkpoint w))"

definition consumed :: "nat parse" where
  "consumed = (\<lambda>b. Ok (wb_consumed b, b))"

definition try_reserve :: "world \<Rightarrow> nat \<Rightarrow> string \<Rightarrow> unit parse" where
  "try_reserve w n name = (\<lambda>b.
     if grants w (wb_asked b) n then Ok ((), b \<lparr> wb_asked := wb_asked b + 1 \<rparr>) else Err (MiAllocation name))"

definition usize_sub :: "nat \<Rightarrow> nat \<Rightarrow> nat parse" where
  "usize_sub a b = (if b \<le> a then run_return (a - b) else run_fail MiPanic)"

definition index :: "'a list \<Rightarrow> nat \<Rightarrow> 'a parse" where
  "index xs i = (if i < length xs then run_return (xs ! i) else run_fail MiPanic)"

definition mi_validate_limits :: "mountinfo_limits \<Rightarrow> bool" where
  "mi_validate_limits limits \<longleftrightarrow>
     \<not> (max_bytes limits = 0 \<or> max_lines limits = 0 \<or> max_fields_per_line limits < 12
        \<or> max_total_fields limits < 12 \<or> max_field_bytes limits = 0 \<or> max_work limits = 0)"

section \<open>Fields\<close>

definition copy_bytes :: "world \<Rightarrow> u8 list \<Rightarrow> string \<Rightarrow> u8 list parse" where
  "copy_bytes w bytes name = run_then (try_reserve w (length bytes) name) (run_return bytes)"

fun option_items :: "world \<Rightarrow> string \<Rightarrow> nat \<Rightarrow> nat \<Rightarrow> u8 list list \<Rightarrow> u8 list list \<Rightarrow> u8 list list parse" where
  "option_items w name line_number max_items [] options = run_return options"
| "option_items w name line_number max_items (option # rest) options =
     (if option = [] then run_fail (MiEmptyOption line_number name)
      else if length options \<ge> max_items then run_fail (MiOptionItemLimit line_number)
      else
        run_then (charge w (length option) ''copying mountinfo option fields'')
       (run_then (try_reserve w 1 ''mountinfo options'')
       (run_bind (copy_bytes w option ''mountinfo option'') (\<lambda>copy.
        option_items w name line_number max_items rest (options @ [copy])))))"

definition parse_option_list :: "world \<Rightarrow> u8 list \<Rightarrow> string \<Rightarrow> nat \<Rightarrow> nat \<Rightarrow> u8 list list parse" where
  "parse_option_list w field name line_number max_items =
     (if max_items = 0 then run_fail (MiOptionItemLimit line_number)
      else
        run_then (charge w (length field) ''splitting mountinfo option fields'')
          (option_items w name line_number max_items (split_on 44 field) []))"

text \<open>The five escapes of the kernel, by the three digits after the backslash.\<close>

definition escape_byte :: "bool \<Rightarrow> u8 list \<Rightarrow> u8 option" where
  "escape_byte allow_hash_escape digits =
     (if digits = [48, 52, 48] then Some 32
      else if digits = [48, 49, 49] then Some 9
      else if digits = [48, 49, 50] then Some 10
      else if digits = [49, 51, 52] then Some 92
      else if digits = [48, 52, 51] \<and> allow_hash_escape then Some 35
      else None)"

fun decode_escapes :: "world \<Rightarrow> string \<Rightarrow> nat \<Rightarrow> bool \<Rightarrow> nat \<Rightarrow> u8 list \<Rightarrow> u8 list \<Rightarrow> u8 list parse" where
  "decode_escapes w name line_number allow offset [] decoded = run_return decoded"
| "decode_escapes w name line_number allow offset (byte # rest) decoded =
     run_then (if offset mod 4096 = 0 then checkpoint w else run_return ())
       (if byte \<noteq> 92 then decode_escapes w name line_number allow (offset + 1) rest (decoded @ [byte])
        else
          run_bind (run_ok_or (usize_checked_add offset 4) MiEscapeOverflow) (\<lambda>escape_end.
          if length rest < 3 then run_fail (MiTruncatedEscape line_number name)
          else
            run_bind (run_ok_or (escape_byte allow (take 3 rest)) (MiUnknownEscape line_number name)) (\<lambda>decoded_byte.
            decode_escapes w name line_number allow escape_end (drop 3 rest) (decoded @ [decoded_byte]))))"

definition decode_mountinfo_escaped_field ::
  "world \<Rightarrow> u8 list \<Rightarrow> string \<Rightarrow> nat \<Rightarrow> bool \<Rightarrow> bool \<Rightarrow> u8 list parse" where
  "decode_mountinfo_escaped_field w field name line_number require_absolute allow =
     run_then (charge w (length field) ''decoding mountinfo path fields'')
    (run_then (try_reserve w (length field) ''decoded mountinfo path'')
    (run_bind (decode_escapes w name line_number allow 0 field []) (\<lambda>decoded.
       if decoded = [] then run_fail (MiEmptyValue line_number name)
       else if require_absolute \<and> hd decoded \<noteq> 47 then run_fail (MiNotAbsolute line_number name)
       else run_return decoded)))"

definition decode_mountinfo_path :: "world \<Rightarrow> u8 list \<Rightarrow> string \<Rightarrow> nat \<Rightarrow> bool \<Rightarrow> u8 list parse" where
  "decode_mountinfo_path w field name line_number require_absolute =
     decode_mountinfo_escaped_field w field name line_number require_absolute False"

definition decode_mountinfo_mangled_field :: "world \<Rightarrow> u8 list \<Rightarrow> string \<Rightarrow> nat \<Rightarrow> u8 list parse" where
  "decode_mountinfo_mangled_field w field name line_number =
     decode_mountinfo_escaped_field w field name line_number False True"

definition is_digit_byte :: "u8 \<Rightarrow> bool" where
  "is_digit_byte byte \<longleftrightarrow> 48 \<le> byte \<and> byte \<le> 57"

fun fold_digits :: "'a::len word \<Rightarrow> u8 list \<Rightarrow> 'a word option" where
  "fold_digits val [] = Some val"
| "fold_digits val (digit # digits) =
     (case checked_mul val 10 of
        None \<Rightarrow> None
      | Some val \<Rightarrow> (case checked_add val (ucast (digit - 48)) of None \<Rightarrow> None | Some val \<Rightarrow> fold_digits val digits))"

definition parse_positive_u64 :: "world \<Rightarrow> u8 list \<Rightarrow> string \<Rightarrow> nat \<Rightarrow> u64 parse" where
  "parse_positive_u64 w field name line_number =
     run_then (charge w (length field) ''parsing mountinfo decimal fields'')
       (if field = [] \<or> hd field = 48 \<or> \<not> list_all is_digit_byte field then run_fail (MiNonCanonical line_number name)
        else run_ok_or (fold_digits 0 field) (MiDecimalOverflow line_number name))"

definition parse_canonical_u32 :: "world \<Rightarrow> u8 list \<Rightarrow> string \<Rightarrow> nat \<Rightarrow> u32 parse" where
  "parse_canonical_u32 w field name line_number =
     run_then (charge w (length field) ''parsing mountinfo device fields'')
       (if field = [] \<or> (length field > 1 \<and> hd field = 48) \<or> \<not> list_all is_digit_byte field
        then run_fail (MiNonCanonical line_number name)
        else run_ok_or (fold_digits 0 field) (MiDecimalOverflow line_number name))"

definition parse_device :: "world \<Rightarrow> u8 list \<Rightarrow> nat \<Rightarrow> mount_device parse" where
  "parse_device w field line_number =
     run_then (charge w (length field) ''splitting mountinfo device fields'')
       (case split_on 58 field of
          [] \<Rightarrow> run_fail (MiDeviceNoColon line_number)
        | [major] \<Rightarrow> run_fail (MiDeviceNoColon line_number)
        | [major, minor] \<Rightarrow>
            run_bind (parse_canonical_u32 w major ''device major number'' line_number) (\<lambda>major.
            run_bind (parse_canonical_u32 w minor ''device minor number'' line_number) (\<lambda>minor.
            run_return \<lparr> dev_major = major, dev_minor = minor \<rparr>))
        | _ \<Rightarrow> run_fail (MiDeviceColons line_number))"

section \<open>Lines\<close>

definition add_list_field_units :: "nat \<Rightarrow> nat \<Rightarrow> nat \<Rightarrow> mountinfo_limits \<Rightarrow> nat parse" where
  "add_list_field_units current count line_number limits =
     run_bind (run_ok_or (usize_checked_add current count) MiLineCountOverflow) (\<lambda>total.
       if total > max_fields_per_line limits then run_fail (MiLineUnitLimit line_number (max_fields_per_line limits))
       else run_return total)"

fun copy_optional_fields :: "world \<Rightarrow> u8 list list \<Rightarrow> u8 list list \<Rightarrow> u8 list list parse" where
  "copy_optional_fields w [] optional_fields = run_return optional_fields"
| "copy_optional_fields w (field # flds) optional_fields =
     run_then (charge w (length field) ''copying mountinfo optional fields'')
    (run_then (try_reserve w 1 ''mountinfo optional fields'')
    (run_bind (copy_bytes w field ''mountinfo optional field'') (\<lambda>copy.
     copy_optional_fields w flds (optional_fields @ [copy]))))"

definition list_allowance :: "mountinfo_limits \<Rightarrow> nat \<Rightarrow> nat \<Rightarrow> nat \<Rightarrow> nat parse" where
  "list_allowance limits line_field_units max_list_fields list_field_units =
     run_bind (usize_sub (max_fields_per_line limits) line_field_units) (\<lambda>a.
     run_bind (usize_sub max_list_fields list_field_units) (\<lambda>b. run_return (min a b)))"

definition parse_mountinfo_line ::
  "world \<Rightarrow> u8 list list \<Rightarrow> nat \<Rightarrow> mountinfo_limits \<Rightarrow> nat \<Rightarrow> (mountinfo_entry \<times> nat) parse" where
  "parse_mountinfo_line w flds line_number limits max_list_fields =
    (if length flds < 10 then run_fail (MiFewFields line_number)
     else
       run_bind (usize_sub (length flds) 4) (\<lambda>separator_index.
       run_bind (index flds separator_index) (\<lambda>separator.
       if separator \<noteq> [45] then run_fail (MiNoSeparator line_number)
       else if [45] \<in> set (drop 6 (take separator_index flds)) then run_fail (MiAmbiguousSeparator line_number)
       else
         run_bind (index flds 0) (\<lambda>field0.
         run_bind (parse_positive_u64 w field0 ''mount ID'' line_number) (\<lambda>mount_id.
         run_bind (index flds 1) (\<lambda>field1.
         run_bind (parse_positive_u64 w field1 ''parent mount ID'' line_number) (\<lambda>parent_id.
         run_bind (index flds 2) (\<lambda>field2.
         run_bind (parse_device w field2 line_number) (\<lambda>device.
         run_bind (index flds 3) (\<lambda>field3.
         run_bind (decode_mountinfo_path w field3 ''root'' line_number False) (\<lambda>root.
         run_bind (index flds 4) (\<lambda>field4.
         run_bind (decode_mountinfo_path w field4 ''mount point'' line_number True) (\<lambda>mount_point.
         run_bind (index flds 5) (\<lambda>field5.
         run_bind (list_allowance limits (length flds) max_list_fields 0) (\<lambda>allowance.
         run_bind (parse_option_list w field5 ''mount options'' line_number allowance) (\<lambda>mount_options.
         run_bind (add_list_field_units (length flds) (length mount_options) line_number limits) (\<lambda>line_field_units.
         run_bind (run_ok_or (usize_checked_add 0 (length mount_options)) MiOptionCountOverflow) (\<lambda>list_field_units.
         run_bind (copy_optional_fields w (drop 6 (take separator_index flds)) []) (\<lambda>optional_fields.
         run_bind (index flds (separator_index + 1)) (\<lambda>type_field.
         run_bind (decode_mountinfo_mangled_field w type_field ''filesystem type'' line_number) (\<lambda>filesystem_type.
         run_bind (index flds (separator_index + 2)) (\<lambda>source_field.
         run_bind (decode_mountinfo_mangled_field w source_field ''mount source'' line_number) (\<lambda>mount_source.
         run_bind (index flds (separator_index + 3)) (\<lambda>super_field.
         run_bind (list_allowance limits line_field_units max_list_fields list_field_units) (\<lambda>allowance.
         run_bind (parse_option_list w super_field ''superblock options'' line_number allowance) (\<lambda>super_options.
         run_bind (add_list_field_units line_field_units (length super_options) line_number limits) (\<lambda>_.
         run_bind (run_ok_or (usize_checked_add list_field_units (length super_options)) MiOptionCountOverflow) (\<lambda>list_field_units.
         run_return
           (\<lparr> mi_mount_id = mount_id, mi_parent_id = parent_id, mi_device = device, mi_root = root,
              mi_mount_point = mount_point, mi_mount_options = mount_options, mi_optional_fields = optional_fields,
              mi_filesystem_type = filesystem_type, mi_mount_source = mount_source,
              mi_super_options = super_options \<rparr>, list_field_units)))))))))))))))))))))))))))))"

fun split_fields_from ::
  "world \<Rightarrow> nat \<Rightarrow> mountinfo_limits \<Rightarrow> nat \<Rightarrow> u8 list list \<Rightarrow> u8 list list \<Rightarrow> u8 list list parse" where
  "split_fields_from w line_number limits max_aggregate_fields [] flds = run_return flds"
| "split_fields_from w line_number limits max_aggregate_fields (field # rest) flds =
     (if field = [] then run_fail (MiEmptyField line_number)
      else if length field > max_field_bytes limits then run_fail (MiLongField line_number (max_field_bytes limits))
      else if length flds \<ge> max_fields_per_line limits
      then run_fail (MiLineFieldLimit line_number (max_fields_per_line limits))
      else if length flds \<ge> max_aggregate_fields then run_fail (MiTotalFieldLimit (max_total_fields limits))
      else
        run_then (charge w 1 ''counting mountinfo fields'')
       (run_then (try_reserve w 1 ''mountinfo line fields'')
        (split_fields_from w line_number limits max_aggregate_fields rest (flds @ [field]))))"

definition split_fields :: "world \<Rightarrow> u8 list \<Rightarrow> nat \<Rightarrow> mountinfo_limits \<Rightarrow> nat \<Rightarrow> u8 list list parse" where
  "split_fields w line line_number limits max_aggregate_fields =
     split_fields_from w line_number limits max_aggregate_fields (split_on 32 line) []"

text \<open>One turn of the loop over the lines, from the field count so far to the entry and the next count.\<close>

definition parse_line ::
  "world \<Rightarrow> mountinfo_limits \<Rightarrow> nat \<Rightarrow> u8 list \<Rightarrow> nat \<Rightarrow> (mountinfo_entry \<times> nat) parse" where
  "parse_line w limits line_number line total_fields =
     run_then (checkpoint w)
     (if line_number > max_lines limits then run_fail (MiLineLimit (max_lines limits))
      else if line = [] then run_fail (MiEmptyLine line_number)
      else if length line > max_bytes limits then run_fail (MiLongLine line_number)
      else if 9 \<in> set line then run_fail (MiTab line_number)
      else
        run_then (charge w (length line) ''splitting mountinfo fields'')
       (run_bind (usize_sub (max_total_fields limits) total_fields) (\<lambda>available_raw_fields.
        run_bind (split_fields w line line_number limits available_raw_fields) (\<lambda>flds.
        run_bind (run_ok_or (usize_checked_add total_fields (length flds)) MiFieldCountOverflow) (\<lambda>total_fields.
        if total_fields > max_total_fields limits then run_fail (MiTotalFieldLimit (max_total_fields limits))
        else
          run_bind (usize_sub (max_total_fields limits) total_fields) (\<lambda>available_list_fields.
          run_bind (parse_mountinfo_line w flds line_number limits available_list_fields) (\<lambda>(entry, list_fields).
          run_bind (run_ok_or (usize_checked_add total_fields list_fields) MiFieldCountOverflow) (\<lambda>total_fields.
          if total_fields > max_total_fields limits then run_fail (MiTotalFieldLimit (max_total_fields limits))
          else run_return (entry, total_fields)))))))))"

fun parse_lines ::
  "world \<Rightarrow> mountinfo_limits \<Rightarrow> nat \<Rightarrow> u8 list list \<Rightarrow> nat \<Rightarrow> u64 set \<Rightarrow> mountinfo_entry list \<Rightarrow> mountinfo_entry list parse" where
  "parse_lines w limits line_index [] total_fields mount_ids entries = run_return entries"
| "parse_lines w limits line_index (line # lines) total_fields mount_ids entries =
     run_bind (parse_line w limits (line_index + 1) line total_fields) (\<lambda>(entry, total_fields).
     run_then (try_reserve w 1 ''mount ID set'')
     (if mi_mount_id entry \<in> mount_ids then run_fail (MiRepeatedMountId (mi_mount_id entry))
      else
        run_then (try_reserve w 1 ''mountinfo entries'')
       (run_then (checkpoint w)
        (parse_lines w limits (line_index + 1) lines total_fields (insert (mi_mount_id entry) mount_ids)
           (entries @ [entry])))))"

definition parse_body :: "world \<Rightarrow> u8 list \<Rightarrow> mountinfo_limits \<Rightarrow> (mountinfo_entry list \<times> nat) parse" where
  "parse_body w bytes limits =
     run_then (charge w (length bytes) ''scanning mountinfo bytes'')
    (run_bind (parse_lines w limits 0 (split_on 10 (butlast bytes)) 0 {} []) (\<lambda>entries.
       if entries = [] then run_fail MiNoRecords
       else run_then (checkpoint w) (run_bind consumed (\<lambda>work. run_return (entries, work)))))"

text \<open>Run the parser on a fresh budget, from a number of questions asked to the world to the next.\<close>

definition with_budget :: "nat \<Rightarrow> nat option \<Rightarrow> 'a parse \<Rightarrow> ('a, nat, mi_error) run" where
  "with_budget limit deadline m =
     (\<lambda>k. case m (work_budget_new limit deadline k) of Ok (x, b) \<Rightarrow> Ok (x, wb_asked b) | Err e \<Rightarrow> Err e)"

definition parse_mountinfo_with_limits_and_work_deadline ::
  "world \<Rightarrow> u8 list \<Rightarrow> mountinfo_limits \<Rightarrow> nat option \<Rightarrow> (mountinfo_entry list \<times> nat, nat, mi_error) run" where
  "parse_mountinfo_with_limits_and_work_deadline w bytes limits deadline =
     run_then (require_parse_deadline w deadline)
     (if \<not> mi_validate_limits limits then run_fail MiInvalidLimits
      else if length bytes > max_bytes limits then run_fail (MiByteLimit (max_bytes limits))
      else if bytes = [] then run_fail MiEmpty
      else if last bytes \<noteq> 10 then run_fail MiNoNewline
      else if 0 \<in> set bytes then run_fail MiNul
      else
        run_then (require_parse_deadline w deadline)
          (with_budget (max_work limits) deadline (parse_body w bytes limits)))"

definition parse_mountinfo_with_limits ::
  "world \<Rightarrow> u8 list \<Rightarrow> mountinfo_limits \<Rightarrow> (mountinfo_entry list, nat, mi_error) run" where
  "parse_mountinfo_with_limits w bytes limits =
     run_bind (parse_mountinfo_with_limits_and_work_deadline w bytes limits None) (\<lambda>(mountinfo, work). run_return mountinfo)"

definition parse_mountinfo_bytes :: "world \<Rightarrow> u8 list \<Rightarrow> (mountinfo_entry list, nat, mi_error) run" where
  "parse_mountinfo_bytes w bytes = parse_mountinfo_with_limits w bytes MOUNTINFO_LIMITS"

end
