(* ===== verification/Mountinfo_Reference.thy ===== *)
theory Mountinfo_Reference
  imports Mountinfo
begin

text \<open>
  A reference reader of mount tables without budget, clock or memory, and the proof that the bounded
  parser computes it: it returns what the reference reads, fails where the reference fails, and
  otherwise fails only for lack of time, memory or work, with a bound on the work.
\<close>

section \<open>Refinement of a pure reader\<close>

definition is_work_limit :: "mi_error \<Rightarrow> bool" where
  "is_work_limit e \<longleftrightarrow> (case e of MiWorkLimit op \<Rightarrow> True | _ \<Rightarrow> False)"

definition is_allocation :: "mi_error \<Rightarrow> bool" where
  "is_allocation e \<longleftrightarrow> (case e of MiAllocation name \<Rightarrow> True | _ \<Rightarrow> False)"

text \<open>An error that the input is not to blame for.\<close>

definition starved :: "world \<Rightarrow> nat option \<Rightarrow> mi_error \<Rightarrow> bool" where
  "starved w deadline e \<longleftrightarrow>
     is_work_limit e \<or> (is_allocation e \<and> (\<exists>k n. \<not> grants w k n)) \<or> (e = MiTimedOut \<and> deadline \<noteq> None)"

definition refines :: "world \<Rightarrow> 'a parse \<Rightarrow> nat \<Rightarrow> 'a option \<Rightarrow> bool" where
  "refines w m n r \<longleftrightarrow>
     (\<forall>b. case m b of
        Ok (x, b') \<Rightarrow> r = Some x \<and> wb_limit b' = wb_limit b \<and> wb_deadline b' = wb_deadline b
          \<and> wb_consumed b' \<le> wb_consumed b + n \<and> (wb_consumed b \<le> wb_limit b \<longrightarrow> wb_consumed b' \<le> wb_limit b)
      | Err e \<Rightarrow> e \<noteq> MiPanic \<and> (r = None \<or> starved w (wb_deadline b) e)
          \<and> (is_work_limit e \<longrightarrow> min (wb_limit b) usize_max < wb_consumed b + n))"

lemma refines_bind:
  assumes m: "refines w m a r" and f: "\<And>x. r = Some x \<Longrightarrow> refines w (f x) c (g x)"
  shows "refines w (run_bind m f) (a + c) (Option.bind r g)"
  unfolding refines_def
proof
  fix b
  note mb = m [unfolded refines_def, THEN spec, of b]
  show "case run_bind m f b of
        Ok (x, b') \<Rightarrow> Option.bind r g = Some x \<and> wb_limit b' = wb_limit b \<and> wb_deadline b' = wb_deadline b
          \<and> wb_consumed b' \<le> wb_consumed b + (a + c) \<and> (wb_consumed b \<le> wb_limit b \<longrightarrow> wb_consumed b' \<le> wb_limit b)
      | Err e \<Rightarrow> e \<noteq> MiPanic \<and> (Option.bind r g = None \<or> starved w (wb_deadline b) e)
          \<and> (is_work_limit e \<longrightarrow> min (wb_limit b) usize_max < wb_consumed b + (a + c))"
  proof (cases "m b")
    case (Ok xb)
    obtain x b' where xb: "xb = (x, b')" by (cases xb)
    have facts: "r = Some x" "wb_limit b' = wb_limit b" "wb_deadline b' = wb_deadline b"
      "wb_consumed b' \<le> wb_consumed b + a" "wb_consumed b \<le> wb_limit b \<longrightarrow> wb_consumed b' \<le> wb_limit b"
      using mb by (simp_all add: Ok xb)
    note fb = f [OF facts(1), unfolded refines_def, THEN spec, of b']
    show ?thesis
      using fb facts by (auto simp: run_bind_apply Ok xb split: result.splits)
  next
    case (Err e)
    then show ?thesis using mb by (auto simp: run_bind_apply)
  qed
qed

lemma refines_then:
  assumes "refines w m a (Some u)" and "refines w k c r"
  shows "refines w (run_then m k) (a + c) r"
  using refines_bind [OF assms(1), of "\<lambda>_. k" c "\<lambda>_. r"] assms(2) by (simp add: run_then_def)

lemma refines_weaken:
  assumes "refines w m a r" and "a \<le> n" and "r = r'"
  shows "refines w m n r'"
  unfolding refines_def
proof
  fix b
  show "case m b of
        Ok (x, b') \<Rightarrow> r' = Some x \<and> wb_limit b' = wb_limit b \<and> wb_deadline b' = wb_deadline b
          \<and> wb_consumed b' \<le> wb_consumed b + n \<and> (wb_consumed b \<le> wb_limit b \<longrightarrow> wb_consumed b' \<le> wb_limit b)
      | Err e \<Rightarrow> e \<noteq> MiPanic \<and> (r' = None \<or> starved w (wb_deadline b) e)
          \<and> (is_work_limit e \<longrightarrow> min (wb_limit b) usize_max < wb_consumed b + n)"
    using assms(1) [unfolded refines_def, THEN spec, of b] assms(2,3) by (cases "m b") auto
qed

lemma refines_return: "refines w (run_return x) 0 (Some x)"
  by (simp add: refines_def run_return_def)

lemma refines_fail: "e \<noteq> MiPanic \<Longrightarrow> \<not> is_work_limit e \<Longrightarrow> refines w (run_fail e) 0 None"
  by (simp add: refines_def run_fail_def)

lemma refines_if: "(c \<Longrightarrow> refines w m n r) \<Longrightarrow> (\<not> c \<Longrightarrow> refines w m' n r') \<Longrightarrow>
    refines w (if c then m else m') n (if c then r else r')"
  by simp

lemma refines_if_fail:
  "e \<noteq> MiPanic \<Longrightarrow> \<not> is_work_limit e \<Longrightarrow> (\<not> c \<Longrightarrow> refines w m n r) \<Longrightarrow>
    refines w (if c then run_fail e else m) n (if c then None else r)"
  by (auto intro: refines_weaken [OF refines_fail])

lemma refines_ok_or: "e \<noteq> MiPanic \<Longrightarrow> \<not> is_work_limit e \<Longrightarrow> refines w (run_ok_or v e) 0 v"
  by (cases v) (simp_all add: run_ok_or_def refines_return refines_fail)

lemma refines_checkpoint: "refines w (checkpoint w) 0 (Some ())"
  by (simp add: refines_def checkpoint_def require_parse_deadline_def starved_def is_work_limit_def split: option.splits)

lemma refines_spend: "refines w (spend n op) n (Some ())"
  by (auto simp: refines_def spend_def usize_checked_add_def starved_def is_work_limit_def)

lemma refines_charge: "refines w (charge w n op) n (Some ())"
  using refines_then [OF refines_checkpoint refines_then [OF refines_spend [of w n op] refines_checkpoint]]
  by (simp add: charge_def)

lemma refines_try_reserve: "refines w (try_reserve w n name) 0 (Some ())"
  by (auto simp: refines_def try_reserve_def starved_def is_allocation_def is_work_limit_def)

lemma refines_copy: "refines w (copy_bytes w bytes name) 0 (Some bytes)"
  using refines_then [OF refines_try_reserve refines_return] by (simp add: copy_bytes_def)

lemma refines_usize_sub: "b \<le> a \<Longrightarrow> refines w (usize_sub a b) 0 (Some (a - b))"
  by (simp add: usize_sub_def refines_return)

lemma refines_index: "i < length xs \<Longrightarrow> refines w (index xs i) 0 (Some (xs ! i))"
  by (simp add: index_def refines_return)

section \<open>The reference reader of fields\<close>

fun unescape :: "bool \<Rightarrow> u8 list \<Rightarrow> u8 list option" where
  "unescape allow [] = Some []"
| "unescape allow (byte # rest) =
     (if byte \<noteq> 92 then map_option (Cons byte) (unescape allow rest)
      else if length rest < 3 then None
      else (case escape_byte allow (take 3 rest) of
              None \<Rightarrow> None
            | Some d \<Rightarrow> map_option (Cons d) (unescape allow (drop 3 rest))))"

definition read_escaped :: "bool \<Rightarrow> bool \<Rightarrow> u8 list \<Rightarrow> u8 list option" where
  "read_escaped absolute allow field =
     Option.bind (unescape allow field) (\<lambda>d. if d = [] \<or> (absolute \<and> hd d \<noteq> 47) then None else Some d)"

definition read_options :: "u8 list \<Rightarrow> u8 list list option" where
  "read_options field = (if [] \<in> set (split_on 44 field) then None else Some (split_on 44 field))"

definition read_decimal :: "bool \<Rightarrow> u8 list \<Rightarrow> 'a::len word option" where
  "read_decimal zero field =
     (if field = [] \<or> ((zero \<longrightarrow> length field > 1) \<and> hd field = 48) \<or> \<not> list_all is_digit_byte field then None
      else fold_digits 0 field)"

definition read_device :: "u8 list \<Rightarrow> mount_device option" where
  "read_device field =
     (case split_on 58 field of
        [major, minor] \<Rightarrow>
          Option.bind (read_decimal True major) (\<lambda>major.
          Option.bind (read_decimal True minor) (\<lambda>minor. Some \<lparr> dev_major = major, dev_minor = minor \<rparr>))
      | _ \<Rightarrow> None)"

lemma append_snoc_fun: "(@) (xs @ [y]) = (\<lambda>a. xs @ y # a)"
  by (simp add: fun_eq_iff)

lemma refines_decode_escapes:
  "offset + length rest \<le> usize_max \<Longrightarrow>
   refines w (decode_escapes w name ln allow offset rest decoded) 0 (map_option ((@) decoded) (unescape allow rest))"
proof (induction "length rest" arbitrary: offset rest decoded rule: less_induct)
  case less
  show ?case
  proof (cases rest)
    case Nil
    then show ?thesis using refines_return by simp
  next
    case (Cons byte tail)
    have step: "refines w (if offset mod 4096 = 0 then checkpoint w else run_return ()) 0 (Some ())"
      using refines_checkpoint refines_return [of w "()"] by auto
    consider (plain) "byte \<noteq> 92" | (short) "byte = 92" "length tail < 3" | (long) "byte = 92" "\<not> length tail < 3"
      by blast
    then show ?thesis
    proof cases
      case plain
      have "refines w (decode_escapes w name ln allow (offset + 1) tail (decoded @ [byte])) 0
          (map_option ((@) (decoded @ [byte])) (unescape allow tail))"
        by (rule less.hyps) (use less.prems Cons in simp_all)
      from refines_then [OF step this] show ?thesis
        using plain by (simp add: Cons option.map_comp comp_def append_snoc_fun)
    next
      case short
      have "refines w (run_bind (run_ok_or (usize_checked_add offset 4) MiEscapeOverflow) (\<lambda>escape_end.
          run_fail (MiTruncatedEscape ln name))) (0 + 0) (Option.bind (usize_checked_add offset 4) (\<lambda>_. None))"
        by (intro refines_bind refines_ok_or refines_fail) (simp_all add: is_work_limit_def)
      from refines_then [OF step this] show ?thesis using short by (simp add: Cons)
    next
      case long
      then have sum: "usize_checked_add offset 4 = Some (offset + 4)"
        using less.prems by (simp add: usize_checked_add_def Cons)
      have "refines w (run_bind (run_ok_or (escape_byte allow (take 3 tail)) (MiUnknownEscape ln name)) (\<lambda>d.
          decode_escapes w name ln allow (offset + 4) (drop 3 tail) (decoded @ [d]))) (0 + 0)
          (Option.bind (escape_byte allow (take 3 tail)) (\<lambda>d. map_option ((@) (decoded @ [d])) (unescape allow (drop 3 tail))))"
        by (intro refines_bind refines_ok_or less.hyps) (use less.prems long in \<open>simp_all add: is_work_limit_def Cons\<close>)
      from refines_then [OF step this] show ?thesis
        using long by (cases "escape_byte allow (take 3 tail)")
          (simp_all add: Cons sum run_ok_or_Some option.map_comp comp_def append_snoc_fun)
    qed
  qed
qed

lemma refines_escaped:
  assumes "length field \<le> usize_max"
  shows "refines w (decode_mountinfo_escaped_field w field name ln absolute allow) (length field) (read_escaped absolute allow field)"
proof -
  have id: "map_option ((@) []) v = v" for v :: "u8 list option" by (cases v) simp_all
  have "refines w (decode_escapes w name ln allow 0 field []) 0 (unescape allow field)"
    using refines_decode_escapes [of 0 field w name ln allow "[]"] assms by (simp add: id)
  note decode = refines_bind [OF this, where c = 0]
  have check: "refines w (if d = [] then run_fail (MiEmptyValue ln name)
        else if absolute \<and> hd d \<noteq> 47 then run_fail (MiNotAbsolute ln name) else run_return d) 0
      (if d = [] \<or> (absolute \<and> hd d \<noteq> 47) then None else Some d)" for d
    using refines_return [of w d] by (auto intro: refines_fail simp: is_work_limit_def)
  show ?thesis
    using refines_then [OF refines_charge refines_then [OF refines_try_reserve decode [OF check]]]
    by (simp add: decode_mountinfo_escaped_field_def read_escaped_def)
qed

lemma sum_list_split: "sum_list (map length (split_on c s)) \<le> length s"
  by (induction s) (auto split: list.splits)

lemma refines_option_items:
  "length options \<le> mx \<Longrightarrow>
   refines w (option_items w name ln mx items options) (sum_list (map length items))
     (if [] \<in> set items \<or> length options + length items > mx then None else Some (options @ items))"
proof (induction items arbitrary: options)
  case (Cons item items)
  show ?case
  proof (cases "item = [] \<or> length options \<ge> mx")
    case True
    then show ?thesis by (auto intro: refines_weaken [OF refines_fail] simp: is_work_limit_def)
  next
    case False
    let ?r = "if [] \<in> set items \<or> length (options @ [item]) + length items > mx then None else Some ((options @ [item]) @ items)"
    have "refines w (option_items w name ln mx items (options @ [item])) (sum_list (map length items)) ?r"
      by (rule Cons.IH) (use False in simp)
    then have "refines w (run_bind (copy_bytes w item ''mountinfo option'') (\<lambda>copy.
        option_items w name ln mx items (options @ [copy]))) (0 + sum_list (map length items)) (Option.bind (Some item) (\<lambda>_. ?r))"
      by (intro refines_bind [OF refines_copy]) simp
    note chain = refines_then [OF refines_charge refines_then [OF refines_try_reserve this]]
    have "\<not> (item = [])" and "\<not> (length options \<ge> mx)" using False by simp_all
    then show ?thesis
      unfolding option_items.simps by (simp only: if_False) (rule refines_weaken [OF chain], use False in auto)
  qed
qed (use refines_return in simp)

lemma refines_option_list:
  "refines w (parse_option_list w field name ln mx) (2 * length field)
     (if length (split_on 44 field) > mx then None else read_options field)"
proof (cases "mx = 0")
  case True
  then show ?thesis
    by (auto intro: refines_weaken [OF refines_fail] simp: parse_option_list_def is_work_limit_def length_greater_0_conv)
next
  case False
  have "refines w (parse_option_list w field name ln mx) (length field + sum_list (map length (split_on 44 field)))
      (if [] \<in> set (split_on 44 field) \<or> length [] + length (split_on 44 field) > mx then None else Some ([] @ split_on 44 field))"
    using refines_then [OF refines_charge refines_option_items [of "[]" mx]] False by (simp add: parse_option_list_def)
  then show ?thesis
    by (rule refines_weaken) (use sum_list_split [of 44 field] in \<open>auto simp: read_options_def\<close>)
qed

lemma refines_positive:
  "refines w (parse_positive_u64 w field name ln) (length field) (read_decimal False field)"
proof -
  have "refines w (if field = [] \<or> hd field = 48 \<or> \<not> list_all is_digit_byte field then run_fail (MiNonCanonical ln name)
      else run_ok_or (fold_digits 0 field) (MiDecimalOverflow ln name)) 0 (read_decimal False field :: u64 option)"
    by (auto simp: read_decimal_def is_work_limit_def intro: refines_fail refines_ok_or)
  from refines_then [OF refines_charge this] show ?thesis by (simp add: parse_positive_u64_def)
qed

lemma refines_canonical:
  "refines w (parse_canonical_u32 w field name ln) (length field) (read_decimal True field)"
proof -
  have "refines w (if field = [] \<or> (length field > 1 \<and> hd field = 48) \<or> \<not> list_all is_digit_byte field
      then run_fail (MiNonCanonical ln name)
      else run_ok_or (fold_digits 0 field) (MiDecimalOverflow ln name)) 0 (read_decimal True field :: u32 option)"
    by (auto simp: read_decimal_def is_work_limit_def intro: refines_fail refines_ok_or)
  from refines_then [OF refines_charge this] show ?thesis by (simp add: parse_canonical_u32_def)
qed

lemma refines_device: "refines w (parse_device w field ln) (2 * length field) (read_device field)"
proof -
  have pair: "refines w (run_bind (parse_canonical_u32 w major a ln) (\<lambda>major.
        run_bind (parse_canonical_u32 w minor b ln) (\<lambda>minor. run_return \<lparr> dev_major = major, dev_minor = minor \<rparr>)))
      (length major + (length minor + 0))
      (Option.bind (read_decimal True major) (\<lambda>major. Option.bind (read_decimal True minor) (\<lambda>minor.
         Some \<lparr> dev_major = major, dev_minor = minor \<rparr>)))" for major minor a b
    by (intro refines_bind refines_canonical refines_return)
  have "refines w (case split_on 58 field of
          [] \<Rightarrow> run_fail (MiDeviceNoColon ln)
        | [major] \<Rightarrow> run_fail (MiDeviceNoColon ln)
        | [major, minor] \<Rightarrow>
            run_bind (parse_canonical_u32 w major ''device major number'' ln) (\<lambda>major.
            run_bind (parse_canonical_u32 w minor ''device minor number'' ln) (\<lambda>minor.
            run_return \<lparr> dev_major = major, dev_minor = minor \<rparr>))
        | _ \<Rightarrow> run_fail (MiDeviceColons ln)) (sum_list (map length (split_on 58 field))) (read_device field)"
    using pair by (auto simp: read_device_def is_work_limit_def split: list.splits intro: refines_weaken [OF refines_fail])
  note chain = refines_then [OF refines_charge this]
  show ?thesis
    unfolding parse_device_def by (rule refines_weaken [OF chain]) (use sum_list_split [of 58 field] in simp_all)
qed

section \<open>The reference reader of lines\<close>

definition read_row :: "u8 list list \<Rightarrow> mountinfo_entry option" where
  "read_row row =
     (let sep = length row - 4; optional = drop 6 (take sep row)
      in if length row < 10 \<or> row ! sep \<noteq> [45] \<or> [45] \<in> set optional then None
         else
           Option.bind (read_decimal False (row ! 0)) (\<lambda>mount_id.
           Option.bind (read_decimal False (row ! 1)) (\<lambda>parent_id.
           Option.bind (read_device (row ! 2)) (\<lambda>device.
           Option.bind (read_escaped False False (row ! 3)) (\<lambda>root.
           Option.bind (read_escaped True False (row ! 4)) (\<lambda>mount_point.
           Option.bind (read_options (row ! 5)) (\<lambda>mount_options.
           Option.bind (read_escaped False True (row ! (sep + 1))) (\<lambda>filesystem_type.
           Option.bind (read_escaped False True (row ! (sep + 2))) (\<lambda>mount_source.
           Option.bind (read_options (row ! (sep + 3))) (\<lambda>super_options.
           Some \<lparr> mi_mount_id = mount_id, mi_parent_id = parent_id, mi_device = device, mi_root = root,
                  mi_mount_point = mount_point, mi_mount_options = mount_options, mi_optional_fields = optional,
                  mi_filesystem_type = filesystem_type, mi_mount_source = mount_source,
                  mi_super_options = super_options \<rparr>))))))))))"

definition list_units :: "mountinfo_entry \<Rightarrow> nat" where
  "list_units e = length (mi_mount_options e) + length (mi_super_options e)"

definition read_line :: "nat \<Rightarrow> nat \<Rightarrow> u8 list list \<Rightarrow> (mountinfo_entry \<times> nat) option" where
  "read_line per_line room row =
     Option.bind (read_row row) (\<lambda>e.
       if length row + list_units e \<le> per_line \<and> list_units e \<le> room then Some (e, list_units e) else None)"

lemma refines_copy_optional:
  "refines w (copy_optional_fields w row acc) (sum_list (map length row)) (Some (acc @ row))"
proof (induction row arbitrary: acc)
  case (Cons field row)
  have "refines w (run_bind (copy_bytes w field ''mountinfo optional field'') (\<lambda>copy.
      copy_optional_fields w row (acc @ [copy]))) (0 + sum_list (map length row)) (Option.bind (Some field) (\<lambda>copy. Some ((acc @ [copy]) @ row)))"
    by (intro refines_bind refines_copy Cons.IH)
  note chain = refines_then [OF refines_charge refines_then [OF refines_try_reserve this]]
  show ?case unfolding copy_optional_fields.simps by (rule refines_weaken [OF chain]) simp_all
qed (use refines_return in simp)

lemma refines_add_units:
  assumes "per \<le> usize_max" and "per = max_fields_per_line limits"
  shows "refines w (add_list_field_units a c ln limits) 0 (if a + c \<le> per then Some (a + c) else None)"
proof (cases "a + c \<le> usize_max")
  case True
  then show ?thesis
    using assms refines_return [of w "a + c"]
    by (auto simp: add_list_field_units_def usize_checked_add_def run_ok_or_Some is_work_limit_def intro: refines_fail)
next
  case False
  then show ?thesis
    using assms
    by (auto simp: add_list_field_units_def usize_checked_add_def run_ok_or_def run_bind_def run_fail_def
        refines_def is_work_limit_def)
qed

lemma list_allowance_return:
  "a \<le> max_fields_per_line limits \<Longrightarrow> c \<le> room \<Longrightarrow>
   list_allowance limits a room c = run_return (min (max_fields_per_line limits - a) (room - c))"
  by (simp add: list_allowance_def usize_sub_def run_bind_return)

lemma read_options_Some: "read_options f = Some os \<longleftrightarrow> os = split_on 44 f \<and> [] \<notin> set os"
  by (auto simp: read_options_def)

text \<open>The part of a line after the mount options, once they fit.\<close>

lemma refines_line_tail:
  assumes per: "max_fields_per_line limits \<le> usize_max" and room: "length os \<le> room" "room \<le> usize_max"
    and units: "n + length os \<le> max_fields_per_line limits"
    and small: "length ft \<le> usize_max" "length fs \<le> usize_max"
  shows "refines w
     (run_bind (add_list_field_units n (length os) ln limits) (\<lambda>line_units.
      run_bind (run_ok_or (usize_checked_add 0 (length os)) MiOptionCountOverflow) (\<lambda>lists.
      run_bind (copy_optional_fields w optional []) (\<lambda>optional_fields.
      run_bind (decode_mountinfo_mangled_field w ft ''filesystem type'' ln) (\<lambda>filesystem_type.
      run_bind (decode_mountinfo_mangled_field w fs ''mount source'' ln) (\<lambda>mount_source.
      run_bind (list_allowance limits line_units room lists) (\<lambda>allowance.
      run_bind (parse_option_list w fo ''superblock options'' ln allowance) (\<lambda>super_options.
      run_bind (add_list_field_units line_units (length super_options) ln limits) (\<lambda>_.
      run_bind (run_ok_or (usize_checked_add lists (length super_options)) MiOptionCountOverflow) (\<lambda>lists.
      run_return (mk optional_fields filesystem_type mount_source super_options, lists)))))))))))
     (sum_list (map length optional) + length ft + length fs + 2 * length fo)
     (Option.bind (read_escaped False True ft) (\<lambda>filesystem_type.
      Option.bind (read_escaped False True fs) (\<lambda>mount_source.
      Option.bind (read_options fo) (\<lambda>super_options.
      if n + length os + length super_options \<le> max_fields_per_line limits \<and> length os + length super_options \<le> room
      then Some (mk optional filesystem_type mount_source super_options, length os + length super_options) else None))))"
proof -
  have add: "add_list_field_units n (length os) ln limits = run_return (n + length os)"
    using units per by (simp add: add_list_field_units_def usize_checked_add_def run_ok_or_Some)
  have sum0: "usize_checked_add 0 (length os) = Some (length os)"
    using room by (simp add: usize_checked_add_def)
  let ?allow = "min (max_fields_per_line limits - (n + length os)) (room - length os)"
  have super: "refines w (run_bind (parse_option_list w fo ''superblock options'' ln ?allow) (\<lambda>so.
        run_bind (add_list_field_units (n + length os) (length so) ln limits) (\<lambda>_.
        run_bind (run_ok_or (usize_checked_add (length os) (length so)) MiOptionCountOverflow) (\<lambda>lists.
        run_return (mk optional x y so, lists)))))
      (2 * length fo + (0 + (0 + 0)))
      (Option.bind (if length (split_on 44 fo) > ?allow then None else read_options fo) (\<lambda>so.
       Option.bind (if n + length os + length so \<le> max_fields_per_line limits then Some (n + length os + length so) else None) (\<lambda>_.
       Option.bind (usize_checked_add (length os) (length so)) (\<lambda>lists. Some (mk optional x y so, lists)))))" for x y
    by (intro refines_bind refines_option_list refines_add_units refines_ok_or refines_return)
      (use per in \<open>simp_all add: is_work_limit_def\<close>)
  have eq: "Option.bind (if length (split_on 44 fo) > ?allow then None else read_options fo) (\<lambda>so.
       Option.bind (if n + length os + length so \<le> max_fields_per_line limits then Some (n + length os + length so) else None) (\<lambda>_.
       Option.bind (usize_checked_add (length os) (length so)) (\<lambda>lists. Some (mk optional x y so, lists))))
     = Option.bind (read_options fo) (\<lambda>so.
       if n + length os + length so \<le> max_fields_per_line limits \<and> length os + length so \<le> room
       then Some (mk optional x y so, length os + length so) else None)" for x y
    using units room by (auto simp: read_options_def usize_checked_add_def)
  have "refines w
      (run_bind (copy_optional_fields w optional []) (\<lambda>optional_fields.
       run_bind (decode_mountinfo_mangled_field w ft ''filesystem type'' ln) (\<lambda>x.
       run_bind (decode_mountinfo_mangled_field w fs ''mount source'' ln) (\<lambda>y.
       run_bind (parse_option_list w fo ''superblock options'' ln ?allow) (\<lambda>so.
        run_bind (add_list_field_units (n + length os) (length so) ln limits) (\<lambda>_.
        run_bind (run_ok_or (usize_checked_add (length os) (length so)) MiOptionCountOverflow) (\<lambda>lists.
        run_return (mk optional_fields x y so, lists))))))))
      (sum_list (map length optional) + (length ft + (length fs + 2 * length fo)))
      (Option.bind (Some ([] @ optional)) (\<lambda>optional_fields.
       Option.bind (read_escaped False True ft) (\<lambda>x. Option.bind (read_escaped False True fs) (\<lambda>y.
       Option.bind (read_options fo) (\<lambda>so.
       if n + length os + length so \<le> max_fields_per_line limits \<and> length os + length so \<le> room
       then Some (mk optional x y so, length os + length so) else None)))))"
    unfolding decode_mountinfo_mangled_field_def
    by (rule refines_bind [OF refines_copy_optional], rule refines_bind [OF refines_escaped [OF small(1)]],
        rule refines_bind [OF refines_escaped [OF small(2)]]) (use super [unfolded eq] in simp)
  then show ?thesis
    using units room
    by (simp add: add sum0 run_ok_or_Some run_bind_return list_allowance_return add.assoc)
qed

lemma index_return: "i < length xs \<Longrightarrow> index xs i = run_return (xs ! i)"
  by (simp add: index_def)

text \<open>A line has at least ten fields: six, the optional ones, the separator and three.\<close>

lemma row_shape:
  assumes "10 \<le> length row"
  obtains a b c d e f optional s ft fs fo where "row = a # b # c # d # e # f # optional @ [s, ft, fs, fo]"
proof -
  define rest where "rest = drop 6 row"
  have "length (take 6 row) = Suc (Suc (Suc (Suc (Suc (Suc 0)))))" using assms by simp
  then obtain a b c d e f where front: "take 6 row = [a, b, c, d, e, f]" by (auto simp only: length_Suc_conv length_0_conv)
  have "length (drop (length rest - 4) rest) = Suc (Suc (Suc (Suc 0)))" using assms by (simp add: rest_def)
  then obtain s ft fs fo where rear: "drop (length rest - 4) rest = [s, ft, fs, fo]"
    by (auto simp only: length_Suc_conv length_0_conv)
  have "row = [a, b, c, d, e, f] @ take (length rest - 4) rest @ [s, ft, fs, fo]"
    unfolding front [symmetric] rear [symmetric] by (simp only: append_take_drop_id rest_def)
  then show ?thesis using that by simp
qed

lemma row_nth:
  assumes "row = a # b # c # d # e # f # optional @ [s, ft, fs, fo]"
  shows "row ! 0 = a" "row ! 1 = b" "row ! 2 = c" "row ! 3 = d" "row ! 4 = e" "row ! 5 = f"
    "length row = 10 + length optional" "length row - 4 = 6 + length optional"
    "row ! (6 + length optional) = s" "row ! (6 + length optional + 1) = ft" "row ! (6 + length optional + 2) = fs"
    "row ! (6 + length optional + 3) = fo"
    "drop 6 (take (6 + length optional) row) = optional"
  by (simp_all add: assms nth_append eval_nat_numeral)

lemma parse_row_shape:
  fixes optional :: "u8 list list"
  assumes row: "row = a # b # c # d # e # f # optional @ [s, ft, fs, fo]" and good: "s = [45]" "[45] \<notin> set optional"
    and len: "length row \<le> max_fields_per_line limits"
  shows "parse_mountinfo_line w row ln limits room =
     run_bind (parse_positive_u64 w a ''mount ID'' ln) (\<lambda>mount_id.
     run_bind (parse_positive_u64 w b ''parent mount ID'' ln) (\<lambda>parent_id.
     run_bind (parse_device w c ln) (\<lambda>device.
     run_bind (decode_mountinfo_path w d ''root'' ln False) (\<lambda>root.
     run_bind (decode_mountinfo_path w e ''mount point'' ln True) (\<lambda>mount_point.
     run_bind (parse_option_list w f ''mount options'' ln (min (max_fields_per_line limits - length row) room)) (\<lambda>os.
     run_bind (add_list_field_units (length row) (length os) ln limits) (\<lambda>line_units.
     run_bind (run_ok_or (usize_checked_add 0 (length os)) MiOptionCountOverflow) (\<lambda>lists.
     run_bind (copy_optional_fields w optional []) (\<lambda>optional_fields.
     run_bind (decode_mountinfo_mangled_field w ft ''filesystem type'' ln) (\<lambda>filesystem_type.
     run_bind (decode_mountinfo_mangled_field w fs ''mount source'' ln) (\<lambda>mount_source.
     run_bind (list_allowance limits line_units room lists) (\<lambda>allowance.
     run_bind (parse_option_list w fo ''superblock options'' ln allowance) (\<lambda>super_options.
     run_bind (add_list_field_units line_units (length super_options) ln limits) (\<lambda>_.
     run_bind (run_ok_or (usize_checked_add lists (length super_options)) MiOptionCountOverflow) (\<lambda>lists.
     run_return (\<lparr> mi_mount_id = mount_id, mi_parent_id = parent_id, mi_device = device, mi_root = root,
       mi_mount_point = mount_point, mi_mount_options = os, mi_optional_fields = optional_fields,
       mi_filesystem_type = filesystem_type, mi_mount_source = mount_source, mi_super_options = super_options \<rparr>,
       lists))))))))))))))))"
proof -
  note nth = row_nth [OF row]
  have idx: "index row i = run_return (row ! i)" if "i < length row" for i using that by (rule index_return)
  have at: "index row 0 = run_return a" "index row 1 = run_return b" "index row 2 = run_return c"
    "index row 3 = run_return d" "index row 4 = run_return e" "index row 5 = run_return f"
    "index row (6 + length optional) = run_return s" "index row (6 + length optional + 1) = run_return ft"
    "index row (6 + length optional + 2) = run_return fs" "index row (6 + length optional + 3) = run_return fo"
    using nth by (simp_all add: idx)
  have "usize_sub (length row) 4 = run_return (6 + length optional)" using nth by (simp add: usize_sub_def)
  moreover have "list_allowance limits (length row) room 0 = run_return (min (max_fields_per_line limits - length row) room)"
    using len by (simp add: list_allowance_return)
  moreover have "\<not> length row < 10" using nth by simp
  ultimately show ?thesis
    unfolding parse_mountinfo_line_def by (simp only: run_bind_return at nth(13) good if_False simp_thms)
qed

lemma refines_parse_row:
  assumes per: "max_fields_per_line limits \<le> usize_max" and room: "room \<le> usize_max"
    and len: "length row \<le> max_fields_per_line limits" and small: "\<forall>f\<in>set row. length f \<le> usize_max"
  shows "refines w (parse_mountinfo_line w row ln limits room) (2 * sum_list (map length row))
    (read_line (max_fields_per_line limits) room row)"
proof (cases "length row < 10 \<or> row ! (length row - 4) \<noteq> [45] \<or> [45] \<in> set (drop 6 (take (length row - 4) row))")
  case True
  then show ?thesis
    by (auto simp: parse_mountinfo_line_def read_line_def read_row_def Let_def is_work_limit_def index_return
        usize_sub_def run_bind_return intro: refines_weaken [OF refines_fail])
next
  case False
  then obtain a b c d e f optional s ft fs fo where row: "row = a # b # c # d # e # f # optional @ [s, ft, fs, fo]"
    using row_shape [of row] by (metis not_less)
  note nth = row_nth [OF row]
  have good: "s = [45]" "[45] \<notin> set optional" using False nth by simp_all
  have sm: "length d \<le> usize_max" "length e \<le> usize_max" "length ft \<le> usize_max" "length fs \<le> usize_max"
    using small by (simp_all add: row)
  have fits: "length os \<le> room" "length row + length os \<le> max_fields_per_line limits"
    if "(if length (split_on 44 f) > min (max_fields_per_line limits - length row) room then None else read_options f) = Some os" for os
    using that len by (auto simp: read_options_def split: if_splits)
  note tail = refines_line_tail [OF per fits(1) room fits(2) sm(3,4)]
  show ?thesis
    unfolding parse_row_shape [OF row good len] decode_mountinfo_path_def
    apply (rule refines_weaken)
      apply (rule refines_bind [OF refines_positive])
      apply (rule refines_bind [OF refines_positive])
      apply (rule refines_bind [OF refines_device])
      apply (rule refines_bind [OF refines_escaped [OF sm(1)]])
      apply (rule refines_bind [OF refines_escaped [OF sm(2)]])
      apply (rule refines_bind [OF refines_option_list])
      apply (rule tail)
    apply assumption
    apply assumption
    subgoal by (simp add: row)
    subgoal
      using good nth fits by (auto simp: read_line_def read_row_def Let_def list_units_def read_options_def split: Option.bind_splits)
    done
qed

section \<open>The reference reader of tables\<close>

definition row_ok :: "mountinfo_limits \<Rightarrow> u8 list list \<Rightarrow> bool" where
  "row_ok limits row \<longleftrightarrow>
     list_all (\<lambda>f. f \<noteq> [] \<and> length f \<le> max_field_bytes limits) row \<and> length row \<le> max_fields_per_line limits"

definition read_text_line :: "mountinfo_limits \<Rightarrow> nat \<Rightarrow> nat \<Rightarrow> u8 list \<Rightarrow> (mountinfo_entry \<times> nat) option" where
  "read_text_line limits ln used line =
     (let row = split_on 32 line; used = used + length row
      in if ln \<le> max_lines limits \<and> length line \<le> max_bytes limits \<and> 9 \<notin> set line \<and> row_ok limits row
            \<and> used \<le> max_total_fields limits
         then Option.bind (read_line (max_fields_per_line limits) (max_total_fields limits - used) row)
                (\<lambda>(e, units). Some (e, used + units))
         else None)"

fun read_lines ::
  "mountinfo_limits \<Rightarrow> nat \<Rightarrow> nat \<Rightarrow> u64 set \<Rightarrow> u8 list list \<Rightarrow> mountinfo_entry list option" where
  "read_lines limits k used ids [] = Some []"
| "read_lines limits k used ids (line # lines) =
     Option.bind (read_text_line limits (k + 1) used line) (\<lambda>(e, used).
       if mi_mount_id e \<in> ids then None
       else map_option (Cons e) (read_lines limits (k + 1) used (insert (mi_mount_id e) ids) lines))"

text \<open>Limits of the type \<open>usize\<close>.\<close>

definition usize_limits :: "mountinfo_limits \<Rightarrow> bool" where
  "usize_limits limits \<longleftrightarrow>
     max_bytes limits \<le> usize_max \<and> max_fields_per_line limits \<le> usize_max \<and> max_total_fields limits \<le> usize_max
     \<and> max_work limits \<le> usize_max"

lemma refines_split_fields_from:
  "length acc \<le> max_fields_per_line limits \<Longrightarrow> length acc \<le> room \<Longrightarrow>
   refines w (split_fields_from w ln limits room rest acc) (length rest)
     (if list_all (\<lambda>f. f \<noteq> [] \<and> length f \<le> max_field_bytes limits) rest
         \<and> length acc + length rest \<le> max_fields_per_line limits \<and> length acc + length rest \<le> room
      then Some (acc @ rest) else None)"
proof (induction rest arbitrary: acc)
  case (Cons field rest)
  show ?case
  proof (cases "field = [] \<or> length field > max_field_bytes limits \<or> length acc \<ge> max_fields_per_line limits \<or> length acc \<ge> room")
    case True
    then show ?thesis by (auto intro: refines_weaken [OF refines_fail] simp: is_work_limit_def)
  next
    case False
    note IH = Cons.IH [of "acc @ [field]"]
    have "refines w (split_fields_from w ln limits room rest (acc @ [field])) (length rest)
       (if list_all (\<lambda>f. f \<noteq> [] \<and> length f \<le> max_field_bytes limits) rest
         \<and> length (acc @ [field]) + length rest \<le> max_fields_per_line limits \<and> length (acc @ [field]) + length rest \<le> room
        then Some ((acc @ [field]) @ rest) else None)"
      by (rule IH) (use False in simp_all)
    note chain = refines_then [OF refines_charge refines_then [OF refines_try_reserve this]]
    have "split_fields_from w ln limits room (field # rest) acc = run_then (charge w 1 ''counting mountinfo fields'')
        (run_then (try_reserve w 1 ''mountinfo line fields'') (split_fields_from w ln limits room rest (acc @ [field])))"
      using False by simp
    then show ?thesis by (simp only:) (rule refines_weaken [OF chain], use False in auto)
  qed
qed (use refines_return in simp)

lemma split_on_count: "length (split_on c s) \<le> length s + 1"
  by (induction s) (auto split: list.splits)

lemma read_line_room: "read_line per room row = Some (e, units) \<Longrightarrow> units \<le> room"
  by (auto simp: read_line_def split: Option.bind_splits if_splits)

lemma refines_parse_line:
  assumes limits: "usize_limits limits" and used: "used \<le> max_total_fields limits"
  shows "refines w (parse_line w limits ln line used) (5 * length line) (read_text_line limits ln used line)"
proof (cases "ln > max_lines limits \<or> line = [] \<or> length line > max_bytes limits \<or> 9 \<in> set line")
  case True
  have "refines w (parse_line w limits ln line used) (0 + 0) None"
    unfolding parse_line_def
    by (rule refines_then [OF refines_checkpoint]) (use True in \<open>auto intro: refines_fail simp: is_work_limit_def\<close>)
  then show ?thesis
    by (rule refines_weaken) (use True in \<open>auto simp: read_text_line_def row_ok_def\<close>)
next
  case False
  let ?row = "split_on 32 line" and ?n = "max_total_fields limits"
  let ?ok = "row_ok limits ?row \<and> used + length ?row \<le> ?n"
  have usize: "max_fields_per_line limits \<le> usize_max" "?n \<le> usize_max" "length line \<le> usize_max"
    using limits False by (auto simp: usize_limits_def)
  have guards: "\<not> ln > max_lines limits" "\<not> line = []" "\<not> length line > max_bytes limits" "\<not> 9 \<in> set line"
    using False by simp_all
  have room: "usize_sub ?n used = run_return (?n - used)" using used by (simp add: usize_sub_def)
  have fields: "refines w (split_fields w line ln limits (?n - used)) (length ?row) (if ?ok then Some ?row else None)"
    unfolding split_fields_def
    by (rule refines_weaken [OF refines_split_fields_from]) (use used in \<open>auto simp: row_ok_def\<close>)
  have rest: "refines w
      (run_bind (run_ok_or (usize_checked_add used (length ?row)) MiFieldCountOverflow) (\<lambda>sum.
        if sum > ?n then run_fail (MiTotalFieldLimit ?n)
        else
          run_bind (usize_sub ?n sum) (\<lambda>room.
          run_bind (parse_mountinfo_line w ?row ln limits room) (\<lambda>(entry, list_fields).
          run_bind (run_ok_or (usize_checked_add sum list_fields) MiFieldCountOverflow) (\<lambda>sum.
          if sum > ?n then run_fail (MiTotalFieldLimit ?n) else run_return (entry, sum))))))
      (2 * sum_list (map length ?row) + 0)
      (Option.bind (read_line (max_fields_per_line limits) (?n - (used + length ?row)) ?row)
         (\<lambda>(e, units). Some (e, used + length ?row + units)))" if ok: ?ok
  proof -
    have add: "usize_checked_add used (length ?row) = Some (used + length ?row)"
      using ok usize by (simp add: usize_checked_add_def)
    have tail: "refines w (case x of (entry, list_fields) \<Rightarrow>
        run_bind (run_ok_or (usize_checked_add (used + length ?row) list_fields) MiFieldCountOverflow) (\<lambda>sum.
          if sum > ?n then run_fail (MiTotalFieldLimit ?n) else run_return (entry, sum))) 0
        (case x of (e, units) \<Rightarrow> Some (e, used + length ?row + units))"
      if x: "read_line (max_fields_per_line limits) (?n - (used + length ?row)) ?row = Some x" for x
    proof -
      obtain e units where xe: "x = (e, units)" by (cases x)
      have "units \<le> ?n - (used + length ?row)" using read_line_room x xe by blast
      then have sum: "used + length ?row + units \<le> ?n" using le_diff_conv2 [OF ok [THEN conjunct2], of units] by (simp only: add.commute)
      then have "usize_checked_add (used + length ?row) units = Some (used + length ?row + units)"
        using usize by (simp add: usize_checked_add_def)
      then show ?thesis using sum refines_return by (simp add: xe run_ok_or_Some)
    qed
    have "refines w (parse_mountinfo_line w ?row ln limits (?n - (used + length ?row))) (2 * sum_list (map length ?row))
        (read_line (max_fields_per_line limits) (?n - (used + length ?row)) ?row)"
    proof (rule refines_parse_row)
      show "\<forall>f\<in>set ?row. length f \<le> usize_max"
      proof
        fix f assume "f \<in> set ?row"
        then have "length f \<le> length line" by (rule split_on_length)
        then show "length f \<le> usize_max" using usize(3) by (rule le_trans)
      qed
    qed (use ok usize in \<open>auto simp: row_ok_def\<close>)
    from refines_bind [OF this tail] show ?thesis
      using ok by (simp add: add run_ok_or_Some usize_sub_def run_bind_return)
  qed
  have "refines w (parse_line w limits ln line used)
      (0 + (length line + (length ?row + (2 * sum_list (map length ?row) + 0))))
      (Option.bind (if ?ok then Some ?row else None) (\<lambda>row.
         Option.bind (read_line (max_fields_per_line limits) (?n - (used + length ?row)) ?row)
         (\<lambda>(e, units). Some (e, used + length ?row + units))))"
    unfolding parse_line_def if_not_P [OF guards(1)] if_not_P [OF guards(2)] if_not_P [OF guards(3)] if_not_P [OF guards(4)]
      room run_bind_return
  proof (rule refines_then [OF refines_checkpoint], rule refines_then [OF refines_charge], rule refines_bind [OF fields], goal_cases)
    case (1 x)
    then have x: "x = ?row" and ok: ?ok by (auto split: if_splits)
    show ?case unfolding x by (rule rest [OF ok])
  qed
  then show ?thesis
  proof (rule refines_weaken)
    have "1 \<le> length line" using False by (cases line) simp_all
    then show "0 + (length line + (length ?row + (2 * sum_list (map length ?row) + 0))) \<le> 5 * length line"
      using sum_list_split [of 32 line] split_on_count [of 32 line] by linarith
    show "Option.bind (if ?ok then Some ?row else None) (\<lambda>row.
         Option.bind (read_line (max_fields_per_line limits) (?n - (used + length ?row)) ?row)
         (\<lambda>(e, units). Some (e, used + length ?row + units))) = read_text_line limits ln used line"
      using False by (auto simp: read_text_line_def Let_def)
  qed
qed

lemma read_text_line_Some:
  "read_text_line limits ln used line = Some (e, used') \<longleftrightarrow>
     ln \<le> max_lines limits \<and> length line \<le> max_bytes limits \<and> 9 \<notin> set line \<and> row_ok limits (split_on 32 line)
     \<and> length (split_on 32 line) + list_units e \<le> max_fields_per_line limits
     \<and> used' \<le> max_total_fields limits
     \<and> read_row (split_on 32 line) = Some e \<and> used' = used + length (split_on 32 line) + list_units e"
proof (cases "read_row (split_on 32 line)")
  case None
  then show ?thesis by (simp add: read_text_line_def read_line_def Let_def)
next
  case (Some e')
  then show ?thesis by (auto simp: read_text_line_def read_line_def Let_def)
qed

lemma read_text_line_room: "read_text_line limits ln used line = Some (e, used') \<Longrightarrow> used' \<le> max_total_fields limits"
  by (simp add: read_text_line_Some)

lemma refines_parse_lines:
  assumes limits: "usize_limits limits"
  shows "used \<le> max_total_fields limits \<Longrightarrow>
    refines w (parse_lines w limits k lines used ids entries) (5 * sum_list (map length lines))
      (map_option ((@) entries) (read_lines limits k used ids lines))"
proof (induction lines arbitrary: k used ids entries)
  case Nil
  then show ?case using refines_return by simp
next
  case (Cons line lines)
  let ?g = "\<lambda>(e, used). if mi_mount_id e \<in> ids then None
      else map_option ((@) (entries @ [e])) (read_lines limits (k + 1) used (insert (mi_mount_id e) ids) lines)"
  have tail: "refines w (case x of (entry, used) \<Rightarrow>
      run_then (try_reserve w 1 ''mount ID set'')
      (if mi_mount_id entry \<in> ids then run_fail (MiRepeatedMountId (mi_mount_id entry))
       else run_then (try_reserve w 1 ''mountinfo entries'') (run_then (checkpoint w)
         (parse_lines w limits (k + 1) lines used (insert (mi_mount_id entry) ids) (entries @ [entry])))))
      (5 * sum_list (map length lines)) (?g x)"
    if x: "read_text_line limits (k + 1) used line = Some x" for x
  proof -
    obtain e used' where xe: "x = (e, used')" by (cases x)
    have IH: "refines w (parse_lines w limits (k + 1) lines used' (insert (mi_mount_id e) ids) (entries @ [e]))
        (5 * sum_list (map length lines))
        (map_option ((@) (entries @ [e])) (read_lines limits (k + 1) used' (insert (mi_mount_id e) ids) lines))"
      by (rule Cons.IH) (use read_text_line_room x xe in blast)
    note chain = refines_then [OF refines_try_reserve refines_then [OF refines_checkpoint IH]]
    show ?thesis
    proof (cases "mi_mount_id e \<in> ids")
      case True
      have fail: "refines w (run_fail (MiRepeatedMountId (mi_mount_id e))) 0 None"
        by (rule refines_fail) (simp_all add: is_work_limit_def)
      show ?thesis unfolding xe prod.case using True
        by (simp only: if_True) (rule refines_weaken [OF refines_then [OF refines_try_reserve fail]], simp_all)
    next
      case False
      show ?thesis unfolding xe prod.case using False
        by (simp only: if_False) (rule refines_weaken [OF refines_then [OF refines_try_reserve chain]], simp_all)
    qed
  qed
  have eq: "Option.bind (read_text_line limits (k + 1) used line) ?g
      = map_option ((@) entries) (read_lines limits k used ids (line # lines))"
    by (auto simp: option.map_comp comp_def append_snoc_fun split: Option.bind_splits)
  show ?case
    unfolding parse_lines.simps
    by (rule refines_weaken [OF refines_bind [OF refines_parse_line [OF limits Cons.prems] tail] _ eq]) simp_all
qed

text \<open>The reference reader of a whole table.\<close>

definition read_table :: "mountinfo_limits \<Rightarrow> u8 list \<Rightarrow> mountinfo_entry list option" where
  "read_table limits bytes =
     (if mi_validate_limits limits \<and> length bytes \<le> max_bytes limits \<and> bytes \<noteq> [] \<and> last bytes = 10 \<and> 0 \<notin> set bytes
      then read_lines limits 0 0 {} (split_on 10 (butlast bytes)) else None)"

lemma read_lines_length: "read_lines limits k used ids lines = Some es \<Longrightarrow> length es = length lines"
proof (induction lines arbitrary: k used ids es)
  case (Cons line lines)
  obtain e used' rest where "read_lines limits (k + 1) used' (insert (mi_mount_id e) ids) lines = Some rest" "es = e # rest"
    using Cons.prems by (auto split: Option.bind_splits if_splits)
  then show ?case using Cons.IH by auto
qed simp

end
