(* ===== verification/Mountinfo_Properties.thy ===== *)
theory Mountinfo_Properties
  imports Mountinfo_Reference
begin

text \<open>
  What the mount table parser guarantees: it is the reference reader up to lack of time, memory and work;
  it never panics; its work is linear in the input; printed tables are read back; and what it accepts is
  well formed.
\<close>

section \<open>The whole parser\<close>

definition parser_verdict ::
  "world \<Rightarrow> mountinfo_limits \<Rightarrow> nat option \<Rightarrow> u8 list \<Rightarrow> (((mountinfo_entry list \<times> nat) \<times> nat), mi_error) result \<Rightarrow> bool" where
  "parser_verdict w limits deadline bytes outcome \<longleftrightarrow>
     (case outcome of
        Ok ((es, work), k) \<Rightarrow> read_table limits bytes = Some es \<and> work \<le> max_work limits \<and> work \<le> 6 * length bytes
      | Err e \<Rightarrow> e \<noteq> MiPanic \<and> (read_table limits bytes = None \<or> starved w deadline e)
          \<and> (is_work_limit e \<longrightarrow> max_work limits < 6 * length bytes))"

lemma refines_body:
  assumes "usize_limits limits"
  shows "refines w (run_then (charge w (length bytes) op) (parse_lines w limits 0 (split_on 10 (butlast bytes)) 0 {} []))
    (6 * length bytes) (read_lines limits 0 0 {} (split_on 10 (butlast bytes)))"
proof -
  have id: "map_option ((@) []) v = v" for v :: "mountinfo_entry list option" by (cases v) simp_all
  have "sum_list (map length (split_on 10 (butlast bytes))) \<le> length bytes"
    using sum_list_split [of 10 "butlast bytes"] by simp
  then show ?thesis
    by (intro refines_weaken [OF refines_then [OF refines_charge refines_parse_lines [OF assms]]]) (simp_all add: id)
qed

lemma parse_body_verdict:
  assumes limits: "usize_limits limits" and table: "read_table limits bytes = read_lines limits 0 0 {} (split_on 10 (butlast bytes))"
  shows "parser_verdict w limits deadline bytes (with_budget (max_work limits) deadline (parse_body w bytes limits) k)"
proof -
  define m where "m = run_then (charge w (length bytes) ''scanning mountinfo bytes'')
    (parse_lines w limits 0 (split_on 10 (butlast bytes)) 0 {} [])"
  have body: "parse_body w bytes limits = run_bind m (\<lambda>entries. if entries = [] then run_fail MiNoRecords
      else run_then (checkpoint w) (run_bind consumed (\<lambda>work. run_return (entries, work))))"
    by (auto simp: parse_body_def m_def run_then_def run_bind_def fun_eq_iff split: result.splits)
  define b where "b = work_budget_new (max_work limits) deadline k"
  have b: "wb_limit b = max_work limits" "wb_consumed b = 0" "wb_deadline b = deadline"
    by (simp_all add: b_def work_budget_new_def)
  note verdict = refines_body [OF limits, of w bytes "''scanning mountinfo bytes''", folded m_def,
      unfolded refines_def, THEN spec, of b]
  have min: "min (max_work limits) usize_max = max_work limits" using limits by (simp add: usize_limits_def)
  show ?thesis
  proof (cases "m b")
    case (Err e)
    then show ?thesis
      using verdict b min by (auto simp: parser_verdict_def with_budget_def body run_bind_apply table simp flip: b_def)
  next
    case (Ok xb)
    obtain es b' where xb: "xb = (es, b')" by (cases xb)
    have facts: "read_table limits bytes = Some es" "wb_deadline b' = deadline" "wb_consumed b' \<le> 6 * length bytes"
      "wb_consumed b' \<le> max_work limits"
      using verdict b by (simp_all add: Ok xb table)
    then have "es \<noteq> []" using read_lines_length [of limits 0 0 "{}" "split_on 10 (butlast bytes)" es] table by auto
    moreover have "checkpoint w b' = Err e \<Longrightarrow> e = MiTimedOut \<and> deadline \<noteq> None" for e
      using facts(2) by (auto simp: checkpoint_def require_parse_deadline_def split: option.splits if_splits)
    moreover have "checkpoint w b' = Ok (u, b'') \<Longrightarrow> wb_consumed b'' = wb_consumed b'" for u b''
      by (auto simp: checkpoint_def require_parse_deadline_def split: option.splits if_splits)
    ultimately show ?thesis
      using facts
      by (auto simp: parser_verdict_def with_budget_def body run_bind_apply run_then_apply Ok xb consumed_def
          run_return_def starved_def is_work_limit_def simp flip: b_def split: result.splits)
  qed
qed

lemma parser_verdict_holds:
  assumes limits: "usize_limits limits"
  shows "parser_verdict w limits deadline bytes (parse_mountinfo_with_limits_and_work_deadline w bytes limits deadline k)"
proof -
  have late: "require_parse_deadline w deadline k' = Err e \<Longrightarrow> e = MiTimedOut \<and> deadline \<noteq> None" for k' e
    by (auto simp: require_parse_deadline_def split: option.splits if_splits)
  have timeout: "parser_verdict w limits deadline bytes (Err MiTimedOut)" if "deadline \<noteq> None"
    using that by (simp add: parser_verdict_def starved_def is_work_limit_def)
  consider (bad) "\<not> (mi_validate_limits limits \<and> length bytes \<le> max_bytes limits \<and> bytes \<noteq> [] \<and> last bytes = 10 \<and> 0 \<notin> set bytes)"
    | (good) "mi_validate_limits limits" "length bytes \<le> max_bytes limits" "bytes \<noteq> []" "last bytes = 10" "0 \<notin> set bytes"
    by blast
  then show ?thesis
  proof cases
    case bad
    then have none: "read_table limits bytes = None" by (auto simp: read_table_def)
    show ?thesis
    proof (cases "require_parse_deadline w deadline k")
      case (Err e)
      then show ?thesis
        using late timeout by (auto simp: parse_mountinfo_with_limits_and_work_deadline_def run_then_apply)
    next
      case (Ok x)
      then show ?thesis
        using bad none
        by (cases x) (auto simp: parse_mountinfo_with_limits_and_work_deadline_def run_then_apply run_fail_apply
          parser_verdict_def is_work_limit_def)
    qed
  next
    case good
    then have "read_table limits bytes = read_lines limits 0 0 {} (split_on 10 (butlast bytes))" by (simp add: read_table_def)
    note body = parse_body_verdict [OF limits this]
    show ?thesis
      using good late timeout body
      by (auto simp: parse_mountinfo_with_limits_and_work_deadline_def run_then_apply split: result.splits)
  qed
qed

section \<open>Printing\<close>

text \<open>The decimal digits of a number as the kernel prints it.\<close>

fun decimal_bytes :: "nat \<Rightarrow> u8 list" where
  "decimal_bytes n = (if n < 10 then [48 + of_nat n] else decimal_bytes (n div 10) @ [48 + of_nat (n mod 10)])"

declare decimal_bytes.simps [simp del]

definition digits_value :: "nat \<Rightarrow> u8 list \<Rightarrow> nat" where
  "digits_value n ds = foldl (\<lambda>n d. n * 10 + (unat d - 48)) n ds"

lemma digit_byte: "n < 10 \<Longrightarrow> unat (48 + of_nat n :: u8) = 48 + n"
  by (simp add: unat_word_ariths unat_of_nat)

lemma digit_byte_ok: "n < 10 \<Longrightarrow> is_digit_byte (48 + of_nat n)"
  by (simp add: is_digit_byte_def word_le_nat_alt digit_byte)

lemma decimal_bytes_digits: "list_all is_digit_byte (decimal_bytes n)"
  by (induction n rule: decimal_bytes.induct) (subst decimal_bytes.simps, simp add: digit_byte_ok)

lemma digits_value_snoc: "digits_value m (ds @ [d]) = digits_value m ds * 10 + (unat d - 48)"
  by (simp add: digits_value_def)

lemma digits_value_decimal: "digits_value 0 (decimal_bytes n) = n"
proof (induction n rule: decimal_bytes.induct)
  case (1 n)
  show ?case
  proof (cases "n < 10")
    case True
    then show ?thesis using digit_byte [OF True] by (simp add: decimal_bytes.simps [of n] digits_value_def)
  next
    case False
    then show ?thesis
      using 1 digit_byte [of "n mod 10"] by (simp add: decimal_bytes.simps [of n] digits_value_snoc)
  qed
qed

lemma decimal_bytes_head: "decimal_bytes n \<noteq> [] \<and> (n > 0 \<longrightarrow> hd (decimal_bytes n) \<noteq> 48)"
proof (induction n rule: decimal_bytes.induct)
  case (1 n)
  show ?case
  proof (cases "n < 10")
    case True
    have "(48 + of_nat n :: u8) = 48 \<Longrightarrow> n = 0" using digit_byte [OF True] by simp
    then show ?thesis using True by (auto simp: decimal_bytes.simps [of n])
  next
    case False
    then show ?thesis using 1 by (simp add: decimal_bytes.simps [of n])
  qed
qed

lemma decimal_bytes_long: "length (decimal_bytes n) > 1 \<Longrightarrow> n > 0"
  by (cases "n = 0") (simp_all add: decimal_bytes.simps [of 0])

text \<open>The checked fold over the digits computes their value or reports that it does not fit.\<close>

lemma digits_value_Cons: "digits_value n (d # ds) = digits_value (n * 10 + (unat d - 48)) ds"
  by (simp add: digits_value_def)

lemma digits_value_mono: "n \<le> digits_value n ds"
proof (induction ds arbitrary: n)
  case (Cons d ds)
  have "n \<le> n * 10 + (unat d - 48)" by simp
  also have "\<dots> \<le> digits_value (n * 10 + (unat d - 48)) ds" by (rule Cons.IH)
  finally show ?case by (simp add: digits_value_Cons)
qed (simp add: digits_value_def)

lemma fold_digits_value:
  fixes v :: "'a::len word"
  assumes wide: "8 \<le> LENGTH('a)"
  shows "list_all is_digit_byte ds \<Longrightarrow> fold_digits v ds =
    (if digits_value (unat v) ds < 2 ^ LENGTH('a) then Some (word_of_nat (digits_value (unat v) ds)) else None)"
proof (induction ds arbitrary: v)
  case Nil
  then show ?case by (simp add: digits_value_def)
next
  case (Cons d ds)
  have big: "(2::nat) ^ 8 \<le> 2 ^ LENGTH('a)" using wide by (rule power_increasing) simp
  then have ten: "take_bit LENGTH('a) (10::nat) = 10" by (intro take_bit_nat_eq_self) simp
  have d: "48 \<le> unat d" "unat d \<le> 57" using Cons.prems by (simp_all add: is_digit_byte_def word_le_nat_alt)
  then have "unat (d - 48) = unat d - 48" by (simp add: unat_sub word_le_nat_alt)
  then have digit: "unat (ucast (d - 48) :: 'a word) = unat d - 48"
    using big d by (simp add: unsigned_ucast_eq take_bit_nat_eq_self)
  let ?n = "unat v * 10 + (unat d - 48)"
  have mono: "?n \<le> digits_value ?n ds" by (rule digits_value_mono)
  show ?case
  proof (cases "?n < 2 ^ LENGTH('a)")
    case True
    then have mul: "checked_mul v 10 = Some (v * 10)" and prod: "unat (v * 10) = unat v * 10"
      by (simp_all add: checked_mul_def ten unat_word_ariths)
    have add: "checked_add (v * 10) (ucast (d - 48)) = Some (v * 10 + ucast (d - 48))"
      and sum: "unat (v * 10 + ucast (d - 48)) = ?n"
      using True by (simp_all add: checked_add_def digit unat_word_ariths ten)
    show ?thesis using Cons.IH [of "v * 10 + ucast (d - 48)"] Cons.prems by (simp add: mul add sum digits_value_Cons)
  next
    case False
    have "checked_add (v * 10) (ucast (d - 48)) = None" if "unat v * 10 < 2 ^ LENGTH('a)"
      using that False by (simp add: checked_add_def digit unat_word_ariths ten)
    then have "fold_digits v (d # ds) = None" by (simp add: checked_mul_def ten)
    then show ?thesis using False mono by (simp add: digits_value_Cons)
  qed
qed

lemma read_decimal_bytes:
  fixes v :: "'a::len word"
  assumes "8 \<le> LENGTH('a)" and "zero \<or> v \<noteq> 0"
  shows "read_decimal zero (decimal_bytes (unat v)) = Some v"
proof -
  have "unat v < 2 ^ LENGTH('a)" by simp
  moreover have "zero \<or> unat v > 0" using assms(2) by (simp add: unat_gt_0)
  ultimately show ?thesis
    using fold_digits_value [OF assms(1) decimal_bytes_digits, of 0 "unat v"] decimal_bytes_head [of "unat v"]
      decimal_bytes_digits [of "unat v"] decimal_bytes_long [of "unat v"]
    by (auto simp: read_decimal_def digits_value_decimal)
qed

text \<open>The kernel's escapes.\<close>

definition escape :: "u8 \<Rightarrow> u8 list" where
  "escape b = (if b = 32 then [92, 48, 52, 48] else if b = 9 then [92, 48, 49, 49] else if b = 10 then [92, 48, 49, 50]
     else if b = 92 then [92, 49, 51, 52] else [b])"

lemma unescape_escape: "unescape allow (concat (map escape bs)) = Some bs"
  by (induction bs) (auto simp: escape_def escape_byte_def)

lemma escape_clean: "\<forall>c\<in>set (concat (map escape bs)). c \<noteq> 32 \<and> c \<noteq> 9 \<and> c \<noteq> 10"
  by (auto simp: escape_def split: if_splits)

lemma escape_no_nul: "0 \<notin> set bs \<Longrightarrow> 0 \<notin> set (concat (map escape bs))"
  by (auto simp: escape_def split: if_splits)

lemma escape_empty: "concat (map escape bs) = [] \<longleftrightarrow> bs = []"
  by (cases bs) (auto simp: escape_def)

definition show_row :: "mountinfo_entry \<Rightarrow> u8 list list" where
  "show_row e =
     [decimal_bytes (unat (mi_mount_id e)), decimal_bytes (unat (mi_parent_id e)),
      decimal_bytes (unat (dev_major (mi_device e))) @ 58 # decimal_bytes (unat (dev_minor (mi_device e))),
      concat (map escape (mi_root e)), concat (map escape (mi_mount_point e)), join_with 44 (mi_mount_options e)]
     @ mi_optional_fields e
     @ [[45], concat (map escape (mi_filesystem_type e)), concat (map escape (mi_mount_source e)),
        join_with 44 (mi_super_options e)]"

definition show_table :: "mountinfo_entry list \<Rightarrow> u8 list" where
  "show_table es = concat (map (\<lambda>e. join_with 32 (show_row e) @ [10]) es)"

text \<open>Bytes that stand for themselves in a field.\<close>

definition plain :: "u8 list \<Rightarrow> bool" where
  "plain bs \<longleftrightarrow> bs \<noteq> [] \<and> list_all (\<lambda>b. b \<notin> {0, 9, 10, 32}) bs"

definition option_list_ok :: "u8 list list \<Rightarrow> bool" where
  "option_list_ok os \<longleftrightarrow> os \<noteq> [] \<and> list_all (\<lambda>bs. plain bs \<and> 44 \<notin> set bs) os"

definition entry_ok :: "mountinfo_entry \<Rightarrow> bool" where
  "entry_ok e \<longleftrightarrow>
     mi_mount_id e \<noteq> 0 \<and> mi_parent_id e \<noteq> 0 \<and> mi_root e \<noteq> [] \<and> mi_mount_point e \<noteq> [] \<and> hd (mi_mount_point e) = 47
     \<and> mi_filesystem_type e \<noteq> [] \<and> mi_mount_source e \<noteq> []
     \<and> 0 \<notin> set (mi_root e @ mi_mount_point e @ mi_filesystem_type e @ mi_mount_source e)
     \<and> option_list_ok (mi_mount_options e) \<and> option_list_ok (mi_super_options e)
     \<and> list_all (\<lambda>bs. plain bs \<and> bs \<noteq> [45]) (mi_optional_fields e)"

lemma read_options_join: "option_list_ok os \<Longrightarrow> read_options (join_with 44 os) = Some os"
proof -
  assume ok: "option_list_ok os"
  then have "split_on 44 (join_with 44 os) = os" by (intro split_on_join) (auto simp: option_list_ok_def list_all_iff)
  moreover have "[] \<notin> set os" using ok by (auto simp: option_list_ok_def list_all_iff plain_def)
  ultimately show ?thesis by (simp add: read_options_def)
qed

lemma decimal_bytes_no: "c \<in> set (decimal_bytes n) \<Longrightarrow> 48 \<le> unat c \<and> unat c \<le> 57"
  using decimal_bytes_digits [of n] by (auto simp: list_all_iff is_digit_byte_def word_le_nat_alt)

lemma read_device_show:
  "read_device (decimal_bytes (unat (dev_major d)) @ 58 # decimal_bytes (unat (dev_minor d))) = Some d"
proof -
  have no: "58 \<notin> set (decimal_bytes n)" for n using decimal_bytes_no [of 58 n] by auto
  have "split_on 58 (join_with 58 [decimal_bytes (unat (dev_major d)), decimal_bytes (unat (dev_minor d))])
      = [decimal_bytes (unat (dev_major d)), decimal_bytes (unat (dev_minor d))]"
    by (rule split_on_join) (simp_all add: no)
  then show ?thesis by (simp add: read_device_def read_decimal_bytes)
qed

lemma read_row_show:
  assumes "entry_ok e"
  shows "read_row (show_row e) = Some e"
proof -
  have row: "show_row e = decimal_bytes (unat (mi_mount_id e)) # decimal_bytes (unat (mi_parent_id e))
      # (decimal_bytes (unat (dev_major (mi_device e))) @ 58 # decimal_bytes (unat (dev_minor (mi_device e))))
      # concat (map escape (mi_root e)) # concat (map escape (mi_mount_point e)) # join_with 44 (mi_mount_options e)
      # mi_optional_fields e @ [[45], concat (map escape (mi_filesystem_type e)), concat (map escape (mi_mount_source e)),
        join_with 44 (mi_super_options e)]" by (simp add: show_row_def)
  note nth = row_nth [OF row]
  have "[45] \<notin> set (mi_optional_fields e)" using assms by (auto simp: entry_ok_def list_all_iff)
  then show ?thesis
    using assms nth
    by (simp add: read_row_def Let_def entry_ok_def read_decimal_bytes read_device_show read_escaped_def unescape_escape
        read_options_join)
qed

lemma set_join_with: "x \<in> set (join_with c ps) \<Longrightarrow> x = c \<or> (\<exists>p\<in>set ps. x \<in> set p)"
  by (induction c ps rule: join_with.induct) auto

definition clean :: "u8 list \<Rightarrow> bool" where
  "clean bs \<longleftrightarrow> list_all (\<lambda>b. b \<notin> {0, 9, 10, 32}) bs"

lemma clean_append: "clean (xs @ ys) \<longleftrightarrow> clean xs \<and> clean ys" "clean (x # ys) \<longleftrightarrow> x \<notin> {0, 9, 10, 32} \<and> clean ys" "clean []"
  by (simp_all add: clean_def)

lemma clean_decimal: "clean (decimal_bytes n)"
proof -
  have "c \<in> set (decimal_bytes n) \<Longrightarrow> c \<notin> {0, 9, 10, 32}" for c
    using decimal_bytes_no [of c n] by auto
  then show ?thesis by (simp add: clean_def list_all_iff)
qed

lemma clean_escape: "0 \<notin> set bs \<Longrightarrow> clean (concat (map escape bs))"
  using escape_clean [of bs] escape_no_nul [of bs] unfolding clean_def list_all_iff by blast

lemma clean_plain: "plain bs \<Longrightarrow> clean bs"
  by (simp add: plain_def clean_def)

lemma clean_options: "option_list_ok os \<Longrightarrow> clean (join_with 44 os)"
proof -
  assume "option_list_ok os"
  then have all: "bs \<in> set os \<Longrightarrow> clean bs" for bs by (auto simp: option_list_ok_def list_all_iff intro: clean_plain)
  have "c \<notin> {0, 9, 10, 32}" if "c \<in> set (join_with 44 os)" for c
    using set_join_with [OF that] all by (auto simp: clean_def list_all_iff)
  then show ?thesis by (simp add: clean_def list_all_iff)
qed

lemma show_row_clean: "entry_ok e \<Longrightarrow> list_all clean (show_row e)"
  by (simp add: show_row_def entry_ok_def clean_append clean_decimal clean_escape clean_options)
    (auto simp: list_all_iff intro: clean_plain)

definition show_line :: "mountinfo_entry \<Rightarrow> u8 list" where
  "show_line e = join_with 32 (show_row e)"

lemma show_line_clean: "entry_ok e \<Longrightarrow> c \<in> set (show_line e) \<Longrightarrow> c \<noteq> 0 \<and> c \<noteq> 9 \<and> c \<noteq> 10"
  unfolding show_line_def using show_row_clean [of e] set_join_with [of c 32 "show_row e"]
  by (auto simp: list_all_iff clean_def)

lemma split_show_line: "entry_ok e \<Longrightarrow> split_on 32 (show_line e) = show_row e"
  unfolding show_line_def
proof (rule split_on_join)
  show "show_row e \<noteq> []" by (simp add: show_row_def)
  assume "entry_ok e"
  then show "list_all (\<lambda>s. 32 \<notin> set s) (show_row e)" using show_row_clean [of e] by (auto simp: list_all_iff clean_def)
qed

lemma show_table_join: "es \<noteq> [] \<Longrightarrow> show_table es = join_with 10 (map show_line es) @ [10]"
proof (induction es)
  case (Cons e es)
  then show ?case by (cases "es = []") (simp_all add: show_table_def show_line_def join_with_Cons)
qed simp

text \<open>The fields and list items of a table, and what the limits ask of it.\<close>

definition entry_units :: "mountinfo_entry \<Rightarrow> nat" where
  "entry_units e = length (show_row e) + list_units e"

definition table_fits :: "mountinfo_limits \<Rightarrow> mountinfo_entry list \<Rightarrow> bool" where
  "table_fits limits es \<longleftrightarrow>
     es \<noteq> [] \<and> list_all entry_ok es \<and> distinct (map mi_mount_id es)
     \<and> length es \<le> max_lines limits \<and> length (show_table es) \<le> max_bytes limits
     \<and> list_all (\<lambda>e. list_all (\<lambda>f. length f \<le> max_field_bytes limits) (show_row e) \<and> entry_units e \<le> max_fields_per_line limits) es
     \<and> sum_list (map entry_units es) \<le> max_total_fields limits"

lemma join_options: "option_list_ok os \<Longrightarrow> join_with 44 os \<noteq> []"
  by (cases os; cases "tl os") (auto simp: option_list_ok_def plain_def)

lemma read_lines_show:
  assumes "list_all entry_ok es"
    and "list_all (\<lambda>e. list_all (\<lambda>f. length f \<le> max_field_bytes limits) (show_row e) \<and> entry_units e \<le> max_fields_per_line limits) es"
    and "list_all (\<lambda>e. length (show_line e) \<le> max_bytes limits) es"
    and "k + length es \<le> max_lines limits" and "used + sum_list (map entry_units es) \<le> max_total_fields limits"
    and "distinct (map mi_mount_id es)" and "ids \<inter> set (map mi_mount_id es) = {}"
  shows "read_lines limits k used ids (map show_line es) = Some es"
  using assms
proof (induction es arbitrary: k used ids)
  case (Cons e es)
  have e: "entry_ok e" using Cons.prems(1) by simp
  have nonempty: "list_all (\<lambda>f. f \<noteq> []) (show_row e)"
    using e decimal_bytes_head join_options
    by (auto simp: show_row_def entry_ok_def escape_empty list_all_iff plain_def simp del: concat_eq_Nil_conv)
  have "read_text_line limits (k + 1) used (show_line e) = Some (e, used + entry_units e)"
    unfolding read_text_line_Some split_show_line [OF e]
    using Cons.prems nonempty show_line_clean [OF e] read_row_show [OF e]
    by (auto simp: row_ok_def list_all_iff entry_units_def)
  moreover have "read_lines limits (k + 1) (used + entry_units e) (insert (mi_mount_id e) ids) (map show_line es) = Some es"
    by (rule Cons.IH) (use Cons.prems in \<open>auto simp: add.assoc\<close>)
  moreover have "mi_mount_id e \<notin> ids" using Cons.prems(7) by auto
  ultimately show ?case by simp
qed simp

lemma show_line_short: "e \<in> set es \<Longrightarrow> length (show_line e) \<le> length (show_table es)"
  by (induction es) (auto simp: show_table_def show_line_def)

lemma read_table_show:
  assumes "mi_validate_limits limits" and fits: "table_fits limits es"
  shows "read_table limits (show_table es) = Some es"
proof -
  have ne: "es \<noteq> []" and ok: "list_all entry_ok es" using fits by (simp_all add: table_fits_def)
  note join = show_table_join [OF ne]
  have no10: "list_all (\<lambda>l. 10 \<notin> set l) (map show_line es)"
    using ok show_line_clean by (auto simp: list_all_iff)
  have "split_on 10 (butlast (show_table es)) = map show_line es"
    unfolding join by (simp add: split_on_join [OF _ no10] ne)
  moreover have "0 \<notin> set (show_table es)"
  proof
    assume "0 \<in> set (show_table es)"
    then obtain e where "e \<in> set es" "0 \<in> set (show_line e)" by (auto simp: show_table_def show_line_def split: if_splits)
    then show False using ok show_line_clean [of e 0] by (simp add: list_all_iff)
  qed
  moreover have "read_lines limits 0 0 {} (map show_line es) = Some es"
    using fits show_line_short [of _ es] by (intro read_lines_show) (auto simp: table_fits_def list_all_iff intro: le_trans)
  ultimately show ?thesis
    using assms join by (simp add: read_table_def table_fits_def)
qed

section \<open>What is accepted is well formed\<close>

lemma unescape_set: "unescape allow field = Some bs \<Longrightarrow> 0 \<notin> set field \<Longrightarrow> 0 \<notin> set bs"
proof (induction allow field arbitrary: bs rule: unescape.induct)
  case (2 allow byte rest)
  show ?case
  proof (cases "byte = 92")
    case False
    then obtain ds where "unescape allow rest = Some ds" "bs = byte # ds" using "2.prems"(1) by auto
    then show ?thesis using "2.IH"(1) False "2.prems"(2) by simp
  next
    case True
    then obtain d ds where d: "escape_byte allow (take 3 rest) = Some d" and ds: "unescape allow (drop 3 rest) = Some ds"
      and bs: "bs = d # ds" and len: "\<not> length rest < 3"
      using "2.prems"(1) by (auto split: if_splits option.splits)
    have "d \<noteq> 0" using d by (auto simp: escape_byte_def split: if_splits)
    moreover have "0 \<notin> set ds" using "2.IH"(2) [OF _ len d ds] True "2.prems"(2) by (auto dest: in_set_dropD)
    ultimately show ?thesis by (simp add: bs)
  qed
qed simp

lemma split_on_subset: "p \<in> set (split_on c s) \<Longrightarrow> set p \<subseteq> set s"
  by (induction s arbitrary: p) (fastforce split: if_splits list.splits)+

lemma read_decimal_positive:
  assumes "read_decimal False field = Some (v :: u64)"
  shows "v \<noteq> 0"
proof -
  obtain d ds where field: "field = d # ds" and d: "d \<noteq> 48" "48 \<le> unat d"
    and ok: "list_all is_digit_byte field" and fold: "fold_digits 0 field = Some v"
    using assms by (cases field) (auto simp: read_decimal_def is_digit_byte_def word_le_nat_alt split: if_splits)
  have "unat d \<noteq> unat (48::u8)" using d(1) unsigned_word_eqI by blast
  then have "0 < unat d - 48" using d(2) by simp
  also have "\<dots> \<le> digits_value 0 field" using digits_value_mono [of "unat d - 48" ds] by (simp add: field digits_value_Cons)
  finally have pos: "0 < digits_value 0 field" .
  have "digits_value 0 field < 2 ^ LENGTH(64)" and v: "v = word_of_nat (digits_value 0 field)"
    using fold_digits_value [of field "0 :: u64"] ok fold by (simp_all split: if_splits)
  then have "unat v = digits_value 0 field" by (simp add: unat_word_of_nat)
  then show ?thesis using pos by auto
qed

lemma read_options_ok:
  assumes "read_options field = Some os" and "clean field"
  shows "option_list_ok os"
proof -
  have os: "os = split_on 44 field" and ne: "[] \<notin> set os" using assms(1) by (auto simp: read_options_Some)
  have "plain bs \<and> 44 \<notin> set bs" if "bs \<in> set os" for bs
    using that ne assms(2) split_on_subset [of bs 44 field] split_on_names [of bs 44 field] os
    by (fastforce simp: plain_def clean_def list_all_iff)
  then show ?thesis by (auto simp: option_list_ok_def list_all_iff os)
qed

lemma read_row_ok:
  assumes read: "read_row row = Some e" and fields: "list_all plain row"
  shows "entry_ok e"
proof -
  have "10 \<le> length row" using read by (auto simp: read_row_def Let_def split: if_splits)
  then obtain a b c d p f optional s ft fs fo where row: "row = a # b # c # d # p # f # optional @ [s, ft, fs, fo]"
    by (rule row_shape)
  note nth = row_nth [OF row]
  have pl: "plain d" "plain p" "plain f" "plain ft" "plain fs" "plain fo" "list_all plain optional"
    using fields by (simp_all add: row)
  have nul: "plain bs \<Longrightarrow> 0 \<notin> set bs" for bs by (auto simp: plain_def list_all_iff)
  have esc: "x \<noteq> [] \<and> (absolute \<longrightarrow> hd x = 47) \<and> 0 \<notin> set x" if "read_escaped absolute allow bs = Some x" "plain bs" for absolute allow bs x
    using that unescape_set [of allow bs] nul [of bs] by (auto simp: read_escaped_def split: Option.bind_splits if_splits)
  have opt: "option_list_ok os" if "read_options bs = Some os" "plain bs" for bs os
    using read_options_ok [OF that(1)] that(2) clean_plain by blast
  obtain "read_decimal False a = Some (mi_mount_id e)" "read_decimal False b = Some (mi_parent_id e)"
    "read_escaped False False d = Some (mi_root e)" "read_escaped True False p = Some (mi_mount_point e)"
    "read_options f = Some (mi_mount_options e)" "read_escaped False True ft = Some (mi_filesystem_type e)"
    "read_escaped False True fs = Some (mi_mount_source e)" "read_options fo = Some (mi_super_options e)"
    "mi_optional_fields e = optional" "[45] \<notin> set optional"
    using read nth by (auto simp: read_row_def Let_def split: Option.bind_splits if_splits)
  then show ?thesis
    using pl esc opt read_decimal_positive
    unfolding entry_ok_def by (auto simp: list_all_iff)
qed

lemma read_lines_ok:
  assumes "read_lines limits k used ids lines = Some es"
    and "list_all (\<lambda>l. 0 \<notin> set l \<and> 10 \<notin> set l) lines"
  shows "list_all entry_ok es \<and> distinct (map mi_mount_id es) \<and> ids \<inter> set (map mi_mount_id es) = {}
    \<and> (es \<noteq> [] \<longrightarrow> k + length es \<le> max_lines limits)"
  using assms
proof (induction lines arbitrary: k used ids es)
  case (Cons line lines)
  obtain e used' rest where line: "read_text_line limits (k + 1) used line = Some (e, used')"
    and fresh: "mi_mount_id e \<notin> ids" and es: "es = e # rest"
    and rest: "read_lines limits (k + 1) used' (insert (mi_mount_id e) ids) lines = Some rest"
    using Cons.prems(1) by (auto split: Option.bind_splits if_splits)
  have IH: "list_all entry_ok rest \<and> distinct (map mi_mount_id rest) \<and> insert (mi_mount_id e) ids \<inter> set (map mi_mount_id rest) = {}
    \<and> (rest \<noteq> [] \<longrightarrow> k + 1 + length rest \<le> max_lines limits)"
    by (rule Cons.IH [OF rest]) (use Cons.prems(2) in simp)
  have row: "read_row (split_on 32 line) = Some e" and ok: "row_ok limits (split_on 32 line)" and tab: "9 \<notin> set line"
    and k: "k + 1 \<le> max_lines limits"
    using line by (simp_all add: read_text_line_Some)
  have "plain bs" if "bs \<in> set (split_on 32 line)" for bs
    using that ok tab Cons.prems(2) split_on_subset [OF that] split_on_names [OF that]
    by (fastforce simp: plain_def row_ok_def list_all_iff)
  then have "entry_ok e" using read_row_ok [OF row] by (simp add: list_all_iff)
  then show ?case using IH fresh k by (cases rest) (auto simp: es)
qed simp

lemma read_table_ok:
  assumes "read_table limits bytes = Some es"
  shows "es \<noteq> [] \<and> list_all entry_ok es \<and> distinct (map mi_mount_id es) \<and> length es \<le> max_lines limits"
proof -
  let ?lines = "split_on 10 (butlast bytes)"
  have lines: "read_lines limits 0 0 {} ?lines = Some es" and nul: "0 \<notin> set bytes"
    using assms by (auto simp: read_table_def split: if_splits)
  have "list_all (\<lambda>l. 0 \<notin> set l \<and> 10 \<notin> set l) ?lines"
    unfolding list_all_iff
  proof
    fix l assume l: "l \<in> set ?lines"
    have "set l \<subseteq> set bytes" using split_on_subset [OF l] by (auto dest: in_set_butlastD)
    then show "0 \<notin> set l \<and> 10 \<notin> set l" using nul split_on_names [OF l] by auto
  qed
  from read_lines_ok [OF lines this] read_lines_length [OF lines] show ?thesis by auto
qed

section \<open>Properties of the mount table parser\<close>

text \<open>
  C36: the bounded parser of mount tables refines the reference reader, for any limits, clock and memory.
  What it returns is what the reader reads, with work within the limit and at most six units per byte. It
  never indexes past a field nor subtracts below zero, it fails on a table the reader reads only for lack
  of time, memory or work, and for lack of work only if the limit is below six units per byte.
\<close>

theorem mountinfo_parser_refines:
  assumes "usize_limits limits"
  shows "parser_verdict w limits deadline bytes (parse_mountinfo_with_limits_and_work_deadline w bytes limits deadline k)"
  using assms by (rule parser_verdict_holds)

lemma usize_production: "usize_limits MOUNTINFO_LIMITS"
  by (simp add: usize_limits_def MOUNTINFO_LIMITS_def usize_max_def MAX_MOUNTINFO_BYTES_def MAX_MOUNTINFO_FIELDS_PER_LINE_def
      MAX_MOUNTINFO_TOTAL_FIELDS_def MAX_MOUNTINFO_WORK_def)

lemma validate_production: "mi_validate_limits MOUNTINFO_LIMITS"
  by (simp add: mi_validate_limits_def MOUNTINFO_LIMITS_def MAX_MOUNTINFO_BYTES_def MAX_MOUNTINFO_FIELDS_PER_LINE_def
      MAX_MOUNTINFO_TOTAL_FIELDS_def MAX_MOUNTINFO_WORK_def MAX_MOUNTINFO_LINES_def MAX_MOUNTINFO_FIELD_BYTES_def)

lemma production_work: "length bytes \<le> max_bytes MOUNTINFO_LIMITS \<Longrightarrow> 6 * length bytes \<le> max_work MOUNTINFO_LIMITS"
  by (simp add: MOUNTINFO_LIMITS_def MAX_MOUNTINFO_WORK_def)

lemma parse_bytes_exact:
  assumes memory: "\<forall>k n. grants w k n"
  shows "(\<exists>k'. parse_mountinfo_bytes w bytes k = Ok (es, k')) \<longleftrightarrow> read_table MOUNTINFO_LIMITS bytes = Some es"
proof -
  let ?L = MOUNTINFO_LIMITS and ?r = "parse_mountinfo_with_limits_and_work_deadline w bytes MOUNTINFO_LIMITS None k"
  note verdict = parser_verdict_holds [OF usize_production, of w None bytes k]
  have parse: "parse_mountinfo_bytes w bytes k = (case ?r of Ok ((es, work), k') \<Rightarrow> Ok (es, k') | Err e \<Rightarrow> Err e)"
    by (auto simp: parse_mountinfo_bytes_def parse_mountinfo_with_limits_def run_bind_apply run_return_apply split: result.splits)
  show ?thesis
  proof (cases ?r)
    case (Ok x)
    then show ?thesis using verdict by (cases x) (auto simp: parse parser_verdict_def split: prod.splits)
  next
    case (Err e)
    have "read_table ?L bytes = None"
    proof (rule ccontr)
      assume some: "read_table ?L bytes \<noteq> None"
      then have "length bytes \<le> max_bytes ?L" by (auto simp: read_table_def split: if_splits)
      then have "6 * length bytes \<le> max_work ?L" by (rule production_work)
      then show False using verdict some memory by (auto simp: Err parser_verdict_def starved_def)
    qed
    then show ?thesis by (simp add: parse Err)
  qed
qed

text \<open>
  C37: with memory to spare, a printed mount table within the limits of production is read back as the
  entries it was printed from; in particular the work limit never refuses it.
\<close>

theorem mountinfo_round_trip:
  assumes "\<forall>k n. grants w k n" and "table_fits MOUNTINFO_LIMITS es"
  shows "\<exists>k'. parse_mountinfo_bytes w (show_table es) k = Ok (es, k')"
  using parse_bytes_exact [OF assms(1)] read_table_show [OF validate_production assms(2)] by blast

text \<open>
  C38: every table the parser accepts, under whatever limits, has at least one entry and at most as many as
  the line limit, no two entries with one mount identifier, and every entry has positive identifiers, an
  absolute mount point, a root, a type and a source that are not empty, and option lists with no empty
  item.
\<close>

theorem mountinfo_accepts_well_formed:
  assumes "usize_limits limits"
    and "parse_mountinfo_with_limits_and_work_deadline w bytes limits deadline k = Ok ((es, work), k')"
  shows "es \<noteq> [] \<and> list_all entry_ok es \<and> distinct (map mi_mount_id es) \<and> length es \<le> max_lines limits"
proof -
  have "read_table limits bytes = Some es"
    using parser_verdict_holds [OF assms(1), of w deadline bytes k] assms(2) by (simp add: parser_verdict_def)
  then show ?thesis by (rule read_table_ok)
qed

section \<open>An example\<close>

definition roomy_world :: world where
  "roomy_world = \<lparr> now_at = (\<lambda>k. 0), grants = (\<lambda>k n. True) \<rparr>"

definition sample_mount :: mountinfo_entry where
  "sample_mount = \<lparr> mi_mount_id = 25, mi_parent_id = 1, mi_device = \<lparr> dev_major = 8, dev_minor = 0 \<rparr>, mi_root = [47],
     mi_mount_point = [47, 97, 32, 98], mi_mount_options = [[114, 119]], mi_optional_fields = [],
     mi_filesystem_type = [101], mi_mount_source = [115], mi_super_options = [[114, 119], [120]] \<rparr>"

lemma sample_row:
  "show_row sample_mount = [[50, 53], [49], [56, 58, 48], [47], [47, 97, 92, 48, 52, 48, 98], [114, 119], [45], [101], [115],
     [114, 119, 44, 120]]"
  by (simp add: show_row_def sample_mount_def escape_def decimal_bytes.simps)

lemma sample_fits: "table_fits MOUNTINFO_LIMITS [sample_mount]"
proof -
  have "entry_ok sample_mount"
    by (simp add: entry_ok_def sample_mount_def option_list_ok_def plain_def)
  moreover have "length (show_table [sample_mount]) = 33" by (simp add: show_table_def sample_row)
  moreover have "entry_units sample_mount = 13" by (simp add: entry_units_def sample_row list_units_def) (simp add: sample_mount_def)
  ultimately show ?thesis
    by (simp add: table_fits_def sample_row MOUNTINFO_LIMITS_def MAX_MOUNTINFO_LINES_def MAX_MOUNTINFO_BYTES_def
        MAX_MOUNTINFO_FIELD_BYTES_def MAX_MOUNTINFO_FIELDS_PER_LINE_def MAX_MOUNTINFO_TOTAL_FIELDS_def)
qed

lemma roomy: "\<forall>k n. grants roomy_world k n"
  by (simp add: roomy_world_def)

theorem mountinfo_parser_refines_witness:
  "parser_verdict roomy_world MOUNTINFO_LIMITS (Some 5) (show_table [sample_mount])
     (parse_mountinfo_with_limits_and_work_deadline roomy_world (show_table [sample_mount]) MOUNTINFO_LIMITS (Some 5) 0)"
  by (rule mountinfo_parser_refines [OF usize_production])

theorem mountinfo_round_trip_witness:
  "\<exists>k'. parse_mountinfo_bytes roomy_world (show_table [sample_mount]) 0 = Ok ([sample_mount], k')"
  by (rule mountinfo_round_trip [OF roomy sample_fits])

lemma sample_parsed:
  "\<exists>work k'. parse_mountinfo_with_limits_and_work_deadline roomy_world (show_table [sample_mount]) MOUNTINFO_LIMITS None 0
     = Ok (([sample_mount], work), k')"
proof -
  obtain k' where "parse_mountinfo_bytes roomy_world (show_table [sample_mount]) 0 = Ok ([sample_mount], k')"
    using parse_bytes_exact [OF roomy] read_table_show [OF validate_production sample_fits] by blast
  then show ?thesis
    by (auto simp: parse_mountinfo_bytes_def parse_mountinfo_with_limits_def run_bind_apply run_return_apply split: result.splits)
qed

theorem mountinfo_accepts_well_formed_witness:
  "list_all entry_ok [sample_mount] \<and> length [sample_mount] \<le> max_lines MOUNTINFO_LIMITS"
  using sample_parsed mountinfo_accepts_well_formed [OF usize_production] by blast

end
