(* ===== verification/Scan_Budget.thy ===== *)
theory Scan_Budget
  imports Run_Monad
begin

text \<open>
  The work budget of the scans over parsed mount tables (\<open>ScanBudget\<close> and \<open>PolicyBudget\<close> of
  \<open>forge/src/linux_fs/\<close>): the units that remain, a deadline, and a clock that is read at every checkpoint.
  The clock is a parameter, its \<open>k\<close>-th reading \<open>clock k\<close>. The errors are those of the client.
\<close>

record scan_budget =
  sb_remaining :: nat
  sb_initial :: nat
  sb_deadline :: nat
  sb_asked :: nat

definition scan_budget_new :: "nat \<Rightarrow> nat \<Rightarrow> nat \<Rightarrow> scan_budget" where
  "scan_budget_new limit deadline k =
     \<lparr> sb_remaining = limit, sb_initial = limit, sb_deadline = deadline, sb_asked = k \<rparr>"

type_synonym ('a, 'e) scan = "('a, scan_budget, 'e) run"

definition require_deadline :: "(nat \<Rightarrow> nat) \<Rightarrow> 'e \<Rightarrow> nat \<Rightarrow> (unit, nat, 'e) run" where
  "require_deadline clock late deadline = (\<lambda>k. if clock k > deadline then Err late else Ok ((), k + 1))"

definition scan_checkpoint :: "(nat \<Rightarrow> nat) \<Rightarrow> 'e \<Rightarrow> (unit, 'e) scan" where
  "scan_checkpoint clock late = (\<lambda>b. case require_deadline clock late (sb_deadline b) (sb_asked b) of
      Ok (u, k) \<Rightarrow> Ok ((), b \<lparr> sb_asked := k \<rparr>) | Err e \<Rightarrow> Err e)"

definition scan_spend :: "(nat \<Rightarrow> string \<Rightarrow> 'e) \<Rightarrow> nat \<Rightarrow> string \<Rightarrow> (unit, 'e) scan" where
  "scan_spend over amount action = (\<lambda>b.
     if amount \<le> sb_remaining b then Ok ((), b \<lparr> sb_remaining := sb_remaining b - amount \<rparr>)
     else Err (over (sb_initial b) action))"

definition scan_charge :: "(nat \<Rightarrow> nat) \<Rightarrow> 'e \<Rightarrow> (nat \<Rightarrow> string \<Rightarrow> 'e) \<Rightarrow> nat \<Rightarrow> string \<Rightarrow> (unit, 'e) scan" where
  "scan_charge clock late over amount action =
     run_then (scan_checkpoint clock late) (run_then (scan_spend over amount action) (scan_checkpoint clock late))"

definition scan_consumed :: "(nat, 'e) scan" where
  "scan_consumed = (\<lambda>b. Ok (sb_initial b - sb_remaining b, b))"

text \<open>
  What a scan computes, up to lack of time and work: \<open>r\<close> is its value, \<open>None\<close> where the input is refused, and
  \<open>n\<close> bounds its work. The client says which of its errors are the two of the budget.
\<close>

locale budgeted_scan =
  fixes clock :: "nat \<Rightarrow> nat" and late :: 'e and over :: "nat \<Rightarrow> string \<Rightarrow> 'e"
  assumes late_not_over: "late \<noteq> over i a"
begin

definition scans :: "('a, 'e) scan \<Rightarrow> nat \<Rightarrow> 'a option \<Rightarrow> bool" where
  "scans m n r \<longleftrightarrow>
     (\<forall>b. case m b of
        Ok (x, b') \<Rightarrow> r = Some x \<and> sb_initial b' = sb_initial b \<and> sb_deadline b' = sb_deadline b
          \<and> sb_remaining b' \<le> sb_remaining b \<and> sb_remaining b \<le> sb_remaining b' + n
      | Err e \<Rightarrow> (r = None \<or> (\<exists>i a. e = over i a) \<or> e = late)
          \<and> (e = late \<longrightarrow> (\<exists>k. clock k > sb_deadline b)) \<and> ((\<exists>i a. e = over i a) \<longrightarrow> sb_remaining b < n))"

lemma scans_bind:
  assumes m: "scans m a r" and f: "\<And>x. r = Some x \<Longrightarrow> scans (f x) c (g x)"
  shows "scans (run_bind m f) (a + c) (Option.bind r g)"
  unfolding scans_def
proof
  fix b
  note mb = m [unfolded scans_def, THEN spec, of b]
  show "case run_bind m f b of
        Ok (x, b') \<Rightarrow> Option.bind r g = Some x \<and> sb_initial b' = sb_initial b \<and> sb_deadline b' = sb_deadline b
          \<and> sb_remaining b' \<le> sb_remaining b \<and> sb_remaining b \<le> sb_remaining b' + (a + c)
      | Err e \<Rightarrow> (Option.bind r g = None \<or> (\<exists>i a. e = over i a) \<or> e = late)
          \<and> (e = late \<longrightarrow> (\<exists>k. clock k > sb_deadline b)) \<and> ((\<exists>i a. e = over i a) \<longrightarrow> sb_remaining b < a + c)"
  proof (cases "m b")
    case (Ok xb)
    obtain x b' where xb: "xb = (x, b')" by (cases xb)
    have facts: "r = Some x" "sb_initial b' = sb_initial b" "sb_deadline b' = sb_deadline b"
      "sb_remaining b' \<le> sb_remaining b" "sb_remaining b \<le> sb_remaining b' + a"
      using mb by (simp_all add: Ok xb)
    note fb = f [OF facts(1), unfolded scans_def, THEN spec, of b']
    show ?thesis
    proof (cases "f x b'")
      case fOk: (Ok y)
      then show ?thesis using fb facts by (cases y) (auto simp: run_bind_apply Ok xb)
    next
      case fErr: (Err e)
      have "(\<exists>i a. e = over i a) \<Longrightarrow> sb_remaining b < a + c" using fb facts(5) by (auto simp: fErr)
      then show ?thesis using fb facts by (simp add: run_bind_apply Ok xb fErr)
    qed
  next
    case (Err e)
    then show ?thesis using mb by (auto simp: run_bind_apply)
  qed
qed

lemma scans_then:
  assumes "scans m a (Some u)" and "scans k c r"
  shows "scans (run_then m k) (a + c) r"
  using scans_bind [OF assms(1), of "\<lambda>_. k" c "\<lambda>_. r"] assms(2) by (simp add: run_then_def)

lemma scans_weaken:
  assumes "scans m a r" and "a \<le> n" and "r = r'"
  shows "scans m n r'"
  unfolding scans_def
proof
  fix b
  show "case m b of
        Ok (x, b') \<Rightarrow> r' = Some x \<and> sb_initial b' = sb_initial b \<and> sb_deadline b' = sb_deadline b
          \<and> sb_remaining b' \<le> sb_remaining b \<and> sb_remaining b \<le> sb_remaining b' + n
      | Err e \<Rightarrow> (r' = None \<or> (\<exists>i a. e = over i a) \<or> e = late)
          \<and> (e = late \<longrightarrow> (\<exists>k. clock k > sb_deadline b)) \<and> ((\<exists>i a. e = over i a) \<longrightarrow> sb_remaining b < n)"
    using assms(1) [unfolded scans_def, THEN spec, of b] assms(2,3) by (cases "m b") auto
qed

lemma scans_return: "scans (run_return x) 0 (Some x)"
  by (simp add: scans_def run_return_def)

lemma scans_fail: "e \<noteq> late \<Longrightarrow> (\<And>i a. e \<noteq> over i a) \<Longrightarrow> scans (run_fail e) n None"
  by (simp add: scans_def run_fail_def)

lemma scans_ok_or: "e \<noteq> late \<Longrightarrow> (\<And>i a. e \<noteq> over i a) \<Longrightarrow> scans (run_ok_or v e) 0 v"
  by (cases v) (simp_all add: run_ok_or_def scans_return scans_fail)

lemma scans_if_fail:
  "e \<noteq> late \<Longrightarrow> (\<And>i a. e \<noteq> over i a) \<Longrightarrow> (\<not> c \<Longrightarrow> scans m n r) \<Longrightarrow>
   scans (if c then run_fail e else m) n (if c then None else r)"
  by (simp add: scans_fail)

lemma scans_checkpoint: "scans (scan_checkpoint clock late) 0 (Some ())"
  using late_not_over by (auto simp: scans_def scan_checkpoint_def require_deadline_def)

lemma scans_spend: "scans (scan_spend over n action) n (Some ())"
  using late_not_over by (auto simp: scans_def scan_spend_def not_le dest: sym)

lemma scans_charge: "scans (scan_charge clock late over n action) n (Some ())"
  using scans_then [OF scans_checkpoint scans_then [OF scans_spend [of n action] scans_checkpoint]]
  by (simp add: scan_charge_def)

text \<open>The outcome of a scan from a fresh budget that is large enough.\<close>

lemma scans_outcome:
  assumes m: "scans m n r" and n: "n \<le> limit"
  shows "case run_bind m (\<lambda>x. run_bind scan_consumed (\<lambda>work. run_return (g x, work))) (scan_budget_new limit deadline k) of
      Ok ((v, work), b) \<Rightarrow> (\<exists>x. r = Some x \<and> v = g x) \<and> work \<le> n
    | Err e \<Rightarrow> (e = late \<and> (\<exists>k. clock k > deadline)) \<or> (e \<noteq> late \<and> (\<forall>i a. e \<noteq> over i a) \<and> r = None)"
proof -
  define b where "b = scan_budget_new limit deadline k"
  have b: "sb_remaining b = limit" "sb_initial b = limit" "sb_deadline b = deadline"
    by (simp_all add: b_def scan_budget_new_def)
  note mb = m [unfolded scans_def, THEN spec, of b]
  show ?thesis
    unfolding b_def [symmetric]
  proof (cases "m b")
    case (Ok xb)
    obtain x b' where xb: "xb = (x, b')" by (cases xb)
    have "r = Some x" "sb_initial b' = limit" "limit \<le> sb_remaining b' + n" using mb b by (simp_all add: Ok xb)
    then show "case run_bind m (\<lambda>x. run_bind scan_consumed (\<lambda>work. run_return (g x, work))) b of
        Ok ((v, work), b) \<Rightarrow> (\<exists>x. r = Some x \<and> v = g x) \<and> work \<le> n
      | Err e \<Rightarrow> (e = late \<and> (\<exists>k. clock k > deadline)) \<or> (e \<noteq> late \<and> (\<forall>i a. e \<noteq> over i a) \<and> r = None)"
      by (simp add: run_bind_apply Ok xb scan_consumed_def run_return_def)
  next
    case (Err e)
    have "\<not> sb_remaining b < n" using b n by simp
    then show "case run_bind m (\<lambda>x. run_bind scan_consumed (\<lambda>work. run_return (g x, work))) b of
        Ok ((v, work), b) \<Rightarrow> (\<exists>x. r = Some x \<and> v = g x) \<and> work \<le> n
      | Err e \<Rightarrow> (e = late \<and> (\<exists>k. clock k > deadline)) \<or> (e \<noteq> late \<and> (\<forall>i a. e \<noteq> over i a) \<and> r = None)"
      using mb b by (auto simp: run_bind_apply Err)
  qed
qed

end

end
