(* ===== verification/Mount_Policy.thy ===== *)
theory Mount_Policy
  imports Mountinfo Scan_Budget Utf8 Wire_Int
begin

text \<open>
  The selection of one mount from a parsed mount table (\<open>forge/src/linux_fs/mountinfo_attachment.rs\<close>) and the
  policy a selected boot mount has to meet (\<open>forge/src/linux_fs/mountinfo_boot_policy.rs\<close>).
\<close>

section \<open>Selecting an attachment\<close>

definition MAX_SELECTOR_BYTES :: nat where
  "MAX_SELECTOR_BYTES = 4095"

definition MAX_SELECTOR_COMPONENTS :: nat where
  "MAX_SELECTOR_COMPONENTS = 128"

definition MAX_SELECTOR_COMPONENT_BYTES :: nat where
  "MAX_SELECTOR_COMPONENT_BYTES = 255"

definition MAX_ATTACHMENT_ENTRIES :: nat where
  "MAX_ATTACHMENT_ENTRIES = 16 * 1024"

definition MAX_ATTACHMENT_WORK :: nat where
  "MAX_ATTACHMENT_WORK = 128 * 1024 * 1024"

definition WORST_CASE_ATTACHMENT_WORK :: nat where
  "WORST_CASE_ATTACHMENT_WORK = MAX_ATTACHMENT_ENTRIES * (MAX_SELECTOR_BYTES + 8) + max_bytes MOUNTINFO_LIMITS
     + 3 * MAX_SELECTOR_BYTES + MAX_SELECTOR_COMPONENTS + max_field_bytes MOUNTINFO_LIMITS + 4"

record attachment_limits =
  al_max_entries :: nat
  al_max_work :: nat

definition MOUNTINFO_ATTACHMENT_LIMITS :: attachment_limits where
  "MOUNTINFO_ATTACHMENT_LIMITS = \<lparr> al_max_entries = MAX_ATTACHMENT_ENTRIES, al_max_work = MAX_ATTACHMENT_WORK \<rparr>"

record selected_attachment =
  sa_mount_id :: u64
  sa_device_major :: u32
  sa_device_minor :: u32
  sa_root :: "u8 list"
  sa_mount_point :: "u8 list"
  sa_selected_entry :: mountinfo_entry

text \<open>Equality of selections ignores the entry they were made from.\<close>

definition attachment_eq :: "selected_attachment \<Rightarrow> selected_attachment \<Rightarrow> bool" where
  "attachment_eq a b \<longleftrightarrow>
     sa_mount_id a = sa_mount_id b \<and> sa_device_major a = sa_device_major b \<and> sa_device_minor a = sa_device_minor b
     \<and> sa_root a = sa_root b \<and> sa_mount_point a = sa_mount_point b"

datatype attachment_error =
  AtTimedOut | AtWorkLimit nat string | AtInvalidLimits | AtZeroMountId | AtEntryLimit nat | AtWorkOverflow
| AtIdCountOverflow | AtMatchCountOverflow | AtMatches nat | AtInconsistent | AtMountId u64 u64 | AtIdOccurrences u64 nat
| AtValidationOverflow | AtRootNotSlash | AtDevice u32 u32 u32 u32 | AtSelectorTooLong | AtNotUtf8 | AtNotAbsolute
| AtIsRoot | AtNul | AtComponentOverflow | AtComponentLimit | AtEmptyComponent | AtDotComponent | AtComponentTooLong

definition attachment_validate_limits :: "attachment_limits \<Rightarrow> bool" where
  "attachment_validate_limits limits \<longleftrightarrow> \<not> (al_max_entries limits = 0 \<or> al_max_work limits = 0)"

definition at_charge :: "(nat \<Rightarrow> nat) \<Rightarrow> nat \<Rightarrow> string \<Rightarrow> (unit, attachment_error) scan" where
  "at_charge clock = scan_charge clock AtTimedOut AtWorkLimit"

definition at_checkpoint :: "(nat \<Rightarrow> nat) \<Rightarrow> (unit, attachment_error) scan" where
  "at_checkpoint clock = scan_checkpoint clock AtTimedOut"

fun validate_selector_components :: "(nat \<Rightarrow> nat) \<Rightarrow> u8 list list \<Rightarrow> nat \<Rightarrow> (unit, attachment_error) scan" where
  "validate_selector_components clock [] component_count = run_return ()"
| "validate_selector_components clock (component # components) component_count =
     run_bind (run_ok_or (usize_checked_add (length component) 1) AtComponentOverflow) (\<lambda>component_work.
     run_then (at_charge clock component_work ''validating mount-point selector component'')
    (run_bind (run_ok_or (usize_checked_add component_count 1) AtComponentOverflow) (\<lambda>component_count.
     if component_count > MAX_SELECTOR_COMPONENTS then run_fail AtComponentLimit
     else if component = [] then run_fail AtEmptyComponent
     else if component = [46] \<or> component = [46, 46] then run_fail AtDotComponent
     else if length component > MAX_SELECTOR_COMPONENT_BYTES then run_fail AtComponentTooLong
     else validate_selector_components clock components component_count)))"

definition validate_selector :: "(nat \<Rightarrow> nat) \<Rightarrow> u8 list \<Rightarrow> (unit, attachment_error) scan" where
  "validate_selector clock selector =
     (if length selector > MAX_SELECTOR_BYTES then run_fail AtSelectorTooLong
      else
        run_then (at_charge clock (length selector) ''validating mount-point selector UTF-8'')
        (if \<not> utf8_valid selector then run_fail AtNotUtf8
         else
           run_then (at_charge clock (length selector) ''validating mount-point selector bytes'')
           (if selector = [] \<or> hd selector \<noteq> 47 then run_fail AtNotAbsolute
            else if selector = [47] then run_fail AtIsRoot
            else if 0 \<in> set selector then run_fail AtNul
            else
              run_then (validate_selector_components clock (split_on 47 (tl selector)) 0) (at_checkpoint clock))))"

text \<open>The loop over the entries, with the two counts and the first match.\<close>

fun scan_entries ::
  "(nat \<Rightarrow> nat) \<Rightarrow> u8 list \<Rightarrow> u64 \<Rightarrow> mountinfo_entry list \<Rightarrow> nat \<Rightarrow> nat \<Rightarrow> mountinfo_entry option
     \<Rightarrow> (nat \<times> nat \<times> mountinfo_entry option, attachment_error) scan" where
  "scan_entries clock selector expected [] selector_matches occurrences selected =
     run_return (selector_matches, occurrences, selected)"
| "scan_entries clock selector expected (entry # entries) selector_matches occurrences selected =
     run_bind (run_ok_or (Option.bind (usize_checked_add (length selector) (length (mi_mount_point entry)))
       (\<lambda>work. usize_checked_add work 8)) AtWorkOverflow) (\<lambda>comparison_work.
     run_then (at_charge clock comparison_work ''scanning one mountinfo attachment'')
    (run_bind (if mi_mount_id entry = expected then run_ok_or (usize_checked_add occurrences 1) AtIdCountOverflow
               else run_return occurrences) (\<lambda>occurrences.
     if mi_mount_point entry = selector then
       run_bind (run_ok_or (usize_checked_add selector_matches 1) AtMatchCountOverflow) (\<lambda>selector_matches.
       scan_entries clock selector expected entries selector_matches occurrences
         (case selected of None \<Rightarrow> Some entry | Some e \<Rightarrow> Some e))
     else scan_entries clock selector expected entries selector_matches occurrences selected)))"

definition select_body ::
  "(nat \<Rightarrow> nat) \<Rightarrow> mountinfo_entry list \<Rightarrow> u8 list \<Rightarrow> u64 \<Rightarrow> u32 \<Rightarrow> u32 \<Rightarrow> attachment_limits
     \<Rightarrow> (mountinfo_entry, attachment_error) scan" where
  "select_body clock entries selector expected expected_major expected_minor limits =
     run_then (validate_selector clock selector)
     (if length entries > al_max_entries limits then run_fail (AtEntryLimit (al_max_entries limits))
      else
        run_bind (scan_entries clock selector expected entries 0 0 None) (\<lambda>(selector_matches, occurrences, selected).
        run_then (at_checkpoint clock)
        (if selector_matches \<noteq> 1 then run_fail (AtMatches selector_matches)
         else
           run_bind (run_ok_or selected AtInconsistent) (\<lambda>selected.
           if mi_mount_id selected \<noteq> expected then run_fail (AtMountId (mi_mount_id selected) expected)
           else if occurrences \<noteq> 1 then run_fail (AtIdOccurrences expected occurrences)
           else
             run_bind (run_ok_or (usize_checked_add (length (mi_root selected)) 4) AtValidationOverflow) (\<lambda>work.
             run_then (at_charge clock work ''validating selected mount authority'')
             (if mi_root selected \<noteq> [47] then run_fail AtRootNotSlash
              else if dev_major (mi_device selected) \<noteq> expected_major \<or> dev_minor (mi_device selected) \<noteq> expected_minor
              then run_fail (AtDevice (dev_major (mi_device selected)) (dev_minor (mi_device selected)) expected_major expected_minor)
              else run_then (at_checkpoint clock) (run_return selected)))))))"

definition attachment_of :: "mountinfo_entry \<Rightarrow> selected_attachment" where
  "attachment_of e = \<lparr> sa_mount_id = mi_mount_id e, sa_device_major = dev_major (mi_device e),
     sa_device_minor = dev_minor (mi_device e), sa_root = mi_root e, sa_mount_point = mi_mount_point e,
     sa_selected_entry = e \<rparr>"

definition select_mountinfo_attachment_with_limits_and_clock ::
  "(nat \<Rightarrow> nat) \<Rightarrow> mountinfo_entry list \<Rightarrow> u8 list \<Rightarrow> u64 \<Rightarrow> u32 \<Rightarrow> u32 \<Rightarrow> attachment_limits \<Rightarrow> nat
     \<Rightarrow> (selected_attachment \<times> nat, nat, attachment_error) run" where
  "select_mountinfo_attachment_with_limits_and_clock clock entries selector expected expected_major expected_minor limits deadline =
     run_then (require_deadline clock AtTimedOut deadline)
     (if \<not> attachment_validate_limits limits then run_fail AtInvalidLimits
      else if expected = 0 then run_fail AtZeroMountId
      else
        (\<lambda>k. case run_bind (select_body clock entries selector expected expected_major expected_minor limits) (\<lambda>selected.
                 run_bind scan_consumed (\<lambda>work. run_return (attachment_of selected, work)))
               (scan_budget_new (al_max_work limits) deadline k) of
             Ok (x, b) \<Rightarrow> Ok (x, sb_asked b)
           | Err e \<Rightarrow> Err e))"

definition select_mountinfo_attachment_until ::
  "(nat \<Rightarrow> nat) \<Rightarrow> mountinfo_entry list \<Rightarrow> u8 list \<Rightarrow> u64 \<Rightarrow> u32 \<Rightarrow> u32 \<Rightarrow> nat
     \<Rightarrow> (selected_attachment, nat, attachment_error) run" where
  "select_mountinfo_attachment_until clock entries selector expected expected_major expected_minor deadline =
     run_bind (select_mountinfo_attachment_with_limits_and_clock clock entries selector expected expected_major expected_minor
       MOUNTINFO_ATTACHMENT_LIMITS deadline) (\<lambda>(attachment, work). run_return attachment)"

section \<open>The boot mount policy\<close>

definition MAX_POLICY_OPTIONS :: nat where
  "MAX_POLICY_OPTIONS = max_fields_per_line MOUNTINFO_LIMITS"

definition OPTION_COMPARISON_WORK :: nat where
  "OPTION_COMPARISON_WORK = 64"

definition MAX_POLICY_WORK :: nat where
  "MAX_POLICY_WORK =
     3 * max_field_bytes MOUNTINFO_LIMITS + OPTION_COMPARISON_WORK * max_fields_per_line MOUNTINFO_LIMITS + 16"

record policy_limits =
  pl_max_options :: nat
  pl_max_work :: nat

definition BOOT_MOUNTINFO_POLICY_LIMITS :: policy_limits where
  "BOOT_MOUNTINFO_POLICY_LIMITS = \<lparr> pl_max_options = MAX_POLICY_OPTIONS, pl_max_work = MAX_POLICY_WORK \<rparr>"

datatype boot_filesystem_kind = Vfat

datatype mount_option_domain = MountDomain | SuperblockDomain

datatype required_boot_mount_flag = Nosuid | Nodev | Noexec | Nosymfollow

record validated_boot_policy =
  vp_filesystem :: boot_filesystem_kind
  vp_mount_read_write :: bool
  vp_superblock_read_write :: bool
  vp_nosuid :: bool
  vp_nodev :: bool
  vp_noexec :: bool
  vp_nosymfollow :: bool

datatype boot_policy_error =
  PoUnsupportedFilesystem
| PoReadWrite mount_option_domain nat nat
| PoFlag required_boot_mount_flag nat nat
| PoOptionLimit mount_option_domain nat
| PoWorkLimit nat string
| PoInvalidLimits
| PoDeadline

definition po_charge_with_overhead :: "(nat \<Rightarrow> nat) \<Rightarrow> nat \<Rightarrow> nat \<Rightarrow> string \<Rightarrow> (unit, boot_policy_error) scan" where
  "po_charge_with_overhead clock bytes overhead action =
     (\<lambda>b. case usize_checked_add bytes overhead of
            None \<Rightarrow> Err (PoWorkLimit (sb_initial b) action)
          | Some amount \<Rightarrow> scan_charge clock PoDeadline PoWorkLimit amount action b)"

record option_counts =
  oc_rw :: nat
  oc_ro :: nat
  oc_nosuid :: nat
  oc_suid :: nat
  oc_nodev :: nat
  oc_dev :: nat
  oc_noexec :: nat
  oc_exec :: nat
  oc_nosymfollow :: nat
  oc_symfollow :: nat

definition option_counts_default :: option_counts where
  "option_counts_default = \<lparr> oc_rw = 0, oc_ro = 0, oc_nosuid = 0, oc_suid = 0, oc_nodev = 0, oc_dev = 0, oc_noexec = 0,
     oc_exec = 0, oc_nosymfollow = 0, oc_symfollow = 0 \<rparr>"

definition count_option :: "u8 list \<Rightarrow> option_counts \<Rightarrow> option_counts" where
  "count_option option counts =
     (if option = ascii ''rw'' then counts \<lparr> oc_rw := oc_rw counts + 1 \<rparr>
      else if option = ascii ''ro'' then counts \<lparr> oc_ro := oc_ro counts + 1 \<rparr>
      else if option = ascii ''nosuid'' then counts \<lparr> oc_nosuid := oc_nosuid counts + 1 \<rparr>
      else if option = ascii ''suid'' then counts \<lparr> oc_suid := oc_suid counts + 1 \<rparr>
      else if option = ascii ''nodev'' then counts \<lparr> oc_nodev := oc_nodev counts + 1 \<rparr>
      else if option = ascii ''dev'' then counts \<lparr> oc_dev := oc_dev counts + 1 \<rparr>
      else if option = ascii ''noexec'' then counts \<lparr> oc_noexec := oc_noexec counts + 1 \<rparr>
      else if option = ascii ''exec'' then counts \<lparr> oc_exec := oc_exec counts + 1 \<rparr>
      else if option = ascii ''nosymfollow'' then counts \<lparr> oc_nosymfollow := oc_nosymfollow counts + 1 \<rparr>
      else if option = ascii ''symfollow'' then counts \<lparr> oc_symfollow := oc_symfollow counts + 1 \<rparr>
      else counts)"

fun scan_options_from ::
  "(nat \<Rightarrow> nat) \<Rightarrow> mount_option_domain \<Rightarrow> u8 list list \<Rightarrow> option_counts \<Rightarrow> (option_counts, boot_policy_error) scan" where
  "scan_options_from clock domain [] counts = run_return counts"
| "scan_options_from clock domain (option # options) counts =
     run_then (po_charge_with_overhead clock (length option) OPTION_COMPARISON_WORK
       (case domain of MountDomain \<Rightarrow> ''checking per-mount options'' | SuperblockDomain \<Rightarrow> ''checking superblock options''))
     (scan_options_from clock domain options (count_option option counts))"

definition scan_options ::
  "(nat \<Rightarrow> nat) \<Rightarrow> u8 list list \<Rightarrow> mount_option_domain \<Rightarrow> nat \<Rightarrow> (option_counts, boot_policy_error) scan" where
  "scan_options clock options domain max_options =
     (if length options > max_options then run_fail (PoOptionLimit domain max_options)
      else scan_options_from clock domain options option_counts_default)"

definition require_read_write :: "mount_option_domain \<Rightarrow> nat \<Rightarrow> nat \<Rightarrow> (unit, boot_policy_error) scan" where
  "require_read_write domain rw_count ro_count =
     (if rw_count = 1 \<and> ro_count = 0 then run_return () else run_fail (PoReadWrite domain rw_count ro_count))"

definition require_flag :: "required_boot_mount_flag \<Rightarrow> nat \<Rightarrow> nat \<Rightarrow> (unit, boot_policy_error) scan" where
  "require_flag flag required_count inverse_count =
     (if required_count = 1 \<and> inverse_count = 0 then run_return () else run_fail (PoFlag flag required_count inverse_count))"

definition boot_policy_body :: "(nat \<Rightarrow> nat) \<Rightarrow> selected_attachment \<Rightarrow> policy_limits \<Rightarrow> (unit, boot_policy_error) scan" where
  "boot_policy_body clock selected limits =
     (let entry = sa_selected_entry selected
      in run_then (po_charge_with_overhead clock (length (mi_filesystem_type entry)) 4 ''checking the filesystem type'')
         (if mi_filesystem_type entry \<noteq> ascii ''vfat'' then run_fail PoUnsupportedFilesystem
          else
            run_bind (scan_options clock (mi_mount_options entry) MountDomain (pl_max_options limits)) (\<lambda>mount.
            run_bind (scan_options clock (mi_super_options entry) SuperblockDomain (pl_max_options limits)) (\<lambda>superblock.
            run_then (require_read_write MountDomain (oc_rw mount) (oc_ro mount))
           (run_then (require_read_write SuperblockDomain (oc_rw superblock) (oc_ro superblock))
           (run_then (require_flag Nosuid (oc_nosuid mount) (oc_suid mount))
           (run_then (require_flag Nodev (oc_nodev mount) (oc_dev mount))
           (run_then (require_flag Noexec (oc_noexec mount) (oc_exec mount))
           (run_then (require_flag Nosymfollow (oc_nosymfollow mount) (oc_symfollow mount))
           (scan_checkpoint clock PoDeadline))))))))))"

definition validate_selected_boot_mount_policy_with_limits_and_clock ::
  "(nat \<Rightarrow> nat) \<Rightarrow> selected_attachment \<Rightarrow> policy_limits \<Rightarrow> nat \<Rightarrow> (validated_boot_policy \<times> nat, nat, boot_policy_error) run" where
  "validate_selected_boot_mount_policy_with_limits_and_clock clock selected limits deadline =
     run_then (require_deadline clock PoDeadline deadline)
     (if pl_max_options limits = 0 \<or> pl_max_work limits = 0 then run_fail PoInvalidLimits
      else
        (\<lambda>k. case run_then (boot_policy_body clock selected limits) (run_bind scan_consumed (\<lambda>work.
                 run_return (\<lparr> vp_filesystem = Vfat, vp_mount_read_write = True, vp_superblock_read_write = True,
                   vp_nosuid = True, vp_nodev = True, vp_noexec = True, vp_nosymfollow = True \<rparr>, work)))
               (scan_budget_new (pl_max_work limits) deadline k) of
             Ok (x, b) \<Rightarrow> Ok (x, sb_asked b)
           | Err e \<Rightarrow> Err e))"

definition validate_selected_boot_mount_policy_until ::
  "(nat \<Rightarrow> nat) \<Rightarrow> selected_attachment \<Rightarrow> nat \<Rightarrow> (validated_boot_policy, nat, boot_policy_error) run" where
  "validate_selected_boot_mount_policy_until clock selected deadline =
     run_bind (validate_selected_boot_mount_policy_with_limits_and_clock clock selected BOOT_MOUNTINFO_POLICY_LIMITS deadline)
       (\<lambda>(policy, work). run_return policy)"

end
