(* ===== verification/Mount_Policy_Properties.thy ===== *)
theory Mount_Policy_Properties
  imports Mount_Policy Mountinfo_Properties
begin

text \<open>
  The selection of a mount and the boot policy are exactly their specifications, and on a table that was
  parsed within the production limits neither runs out of work.
\<close>

interpretation at_scan: budgeted_scan clock AtTimedOut AtWorkLimit for clock
  by unfold_locales simp

interpretation po_scan: budgeted_scan clock PoDeadline PoWorkLimit for clock
  by unfold_locales simp

section \<open>Selectors\<close>

definition component_accepted :: "u8 list \<Rightarrow> bool" where
  "component_accepted c \<longleftrightarrow> c \<noteq> [] \<and> c \<noteq> [46] \<and> c \<noteq> [46, 46] \<and> length c \<le> MAX_SELECTOR_COMPONENT_BYTES"

definition selector_ok :: "u8 list \<Rightarrow> bool" where
  "selector_ok s \<longleftrightarrow>
     length s \<le> MAX_SELECTOR_BYTES \<and> utf8_valid s \<and> s \<noteq> [] \<and> hd s = 47 \<and> s \<noteq> [47] \<and> 0 \<notin> set s
     \<and> list_all component_accepted (split_on 47 (tl s)) \<and> length (split_on 47 (tl s)) \<le> MAX_SELECTOR_COMPONENTS"

lemmas at_scans = at_scan.scans_charge [folded at_charge_def] at_scan.scans_checkpoint [folded at_checkpoint_def]

lemma usize_small: "n \<le> 2 ^ 32 \<Longrightarrow> usize_checked_add n 8 = Some (n + 8) \<and> usize_checked_add n 4 = Some (n + 4)
    \<and> usize_checked_add n 1 = Some (n + 1)"
  by (simp add: usize_checked_add_def usize_max_def)

lemma scans_components:
  assumes "list_all (\<lambda>c. length c \<le> 4095) cs" and "n \<le> MAX_SELECTOR_COMPONENTS"
  shows "at_scan.scans clock (validate_selector_components clock cs n) (sum_list (map (\<lambda>c. length c + 1) cs))
    (if list_all component_accepted cs \<and> n + length cs \<le> MAX_SELECTOR_COMPONENTS then Some () else None)"
  using assms
proof (induction cs arbitrary: n)
  case Nil
  then show ?case using at_scan.scans_return by simp
next
  case (Cons c cs)
  have small: "usize_checked_add (length c) 1 = Some (length c + 1)" "usize_checked_add n 1 = Some (n + 1)"
    using Cons.prems usize_small [of "length c"] usize_small [of n] by (simp_all add: MAX_SELECTOR_COMPONENTS_def)
  let ?rest = "if n + 1 > MAX_SELECTOR_COMPONENTS then run_fail AtComponentLimit
     else if c = [] then run_fail AtEmptyComponent
     else if c = [46] \<or> c = [46, 46] then run_fail AtDotComponent
     else if length c > MAX_SELECTOR_COMPONENT_BYTES then run_fail AtComponentTooLong
     else validate_selector_components clock cs (n + 1)"
  have "at_scan.scans clock ?rest (sum_list (map (\<lambda>c. length c + 1) cs))
      (if list_all component_accepted (c # cs) \<and> n + length (c # cs) \<le> MAX_SELECTOR_COMPONENTS then Some () else None)"
  proof (cases "n + 1 > MAX_SELECTOR_COMPONENTS \<or> \<not> component_accepted c")
    case True
    then show ?thesis by (auto simp: component_accepted_def intro: at_scan.scans_fail)
  next
    case False
    then have IH: "at_scan.scans clock (validate_selector_components clock cs (n + 1)) (sum_list (map (\<lambda>c. length c + 1) cs))
        (if list_all component_accepted cs \<and> n + 1 + length cs \<le> MAX_SELECTOR_COMPONENTS then Some () else None)"
      using Cons.prems by (intro Cons.IH) simp_all
    have "?rest = validate_selector_components clock cs (n + 1)" using False by (auto simp: component_accepted_def)
    then show ?thesis using IH False by simp
  qed
  note chain = at_scan.scans_then [OF at_scans(1) this]
  show ?case
    unfolding validate_selector_components.simps small run_ok_or_Some
    by (rule at_scan.scans_weaken [OF chain]) simp_all
qed

lemma sum_components: "sum_list (map (\<lambda>c. length c + 1) (split_on x s)) = length s + 1"
  by (induction s) (auto split: list.splits)

lemma scans_selector:
  "at_scan.scans clock (validate_selector clock s) (3 * length s) (if selector_ok s then Some () else None)"
proof (cases "length s > MAX_SELECTOR_BYTES")
  case True
  then show ?thesis by (auto simp: validate_selector_def selector_ok_def intro: at_scan.scans_fail)
next
  case False
  have comps: "at_scan.scans clock (run_then (validate_selector_components clock (split_on 47 (tl s)) 0) (at_checkpoint clock))
      (length s) (if list_all component_accepted (split_on 47 (tl s)) \<and> length (split_on 47 (tl s)) \<le> MAX_SELECTOR_COMPONENTS
        then Some () else None)" if ne: "s \<noteq> []"
  proof -
    have "list_all (\<lambda>c. length c \<le> 4095) (split_on 47 (tl s))"
      using split_on_length [of _ 47 "tl s"] False by (fastforce simp: list_all_iff MAX_SELECTOR_BYTES_def)
    note c = scans_components [OF this, of 0 clock]
    have "at_scan.scans clock (run_then (validate_selector_components clock (split_on 47 (tl s)) 0) (at_checkpoint clock))
        (sum_list (map (\<lambda>c. length c + 1) (split_on 47 (tl s))) + 0)
        (Option.bind (if list_all component_accepted (split_on 47 (tl s)) \<and> 0 + length (split_on 47 (tl s)) \<le> MAX_SELECTOR_COMPONENTS
          then Some () else None) (\<lambda>_. Some ()))"
      unfolding run_then_def by (rule at_scan.scans_bind [OF c at_scans(2)]) simp
    then show ?thesis by (rule at_scan.scans_weaken) (use ne sum_components [of 47 "tl s"] in simp_all)
  qed
  let ?inner = "if s = [] \<or> hd s \<noteq> 47 then run_fail AtNotAbsolute
      else if s = [47] then run_fail AtIsRoot
      else if 0 \<in> set s then run_fail AtNul
      else run_then (validate_selector_components clock (split_on 47 (tl s)) 0) (at_checkpoint clock)"
  have inner: "at_scan.scans clock ?inner (length s) (if selector_ok s then Some () else None)" if "utf8_valid s"
  proof (cases "s = [] \<or> hd s \<noteq> 47 \<or> s = [47] \<or> 0 \<in> set s")
    case True
    then show ?thesis by (auto simp: selector_ok_def intro: at_scan.scans_fail)
  next
    case ok: False
    have "selector_ok s \<longleftrightarrow> list_all component_accepted (split_on 47 (tl s)) \<and> length (split_on 47 (tl s)) \<le> MAX_SELECTOR_COMPONENTS"
      using ok that False by (auto simp: selector_ok_def)
    moreover have "?inner = run_then (validate_selector_components clock (split_on 47 (tl s)) 0) (at_checkpoint clock)"
      using ok by simp
    ultimately show ?thesis using comps ok by simp
  qed
  have body: "at_scan.scans clock (if \<not> utf8_valid s then run_fail AtNotUtf8
      else run_then (at_charge clock (length s) ''validating mount-point selector bytes'') ?inner) (length s + length s)
      (if selector_ok s then Some () else None)"
  proof (cases "utf8_valid s")
    case True
    show ?thesis using True at_scan.scans_then [OF at_scans(1) inner [OF True]] by (simp only: not_True_eq_False if_False)
  next
    case False
    then show ?thesis by (simp add: selector_ok_def at_scan.scans_fail)
  qed
  show ?thesis
    unfolding validate_selector_def if_not_P [OF False]
    by (rule at_scan.scans_weaken [OF at_scan.scans_then [OF at_scans(1) body]]) simp_all
qed

section \<open>The scan over the table\<close>

lemma scans_entries:
  assumes "length sel \<le> 4095" and "list_all (\<lambda>e. length (mi_mount_point e) \<le> 2 ^ 31) es"
    and "hits + length es \<le> 2 ^ 31" and "seen + length es \<le> 2 ^ 31"
  shows "at_scan.scans clock (scan_entries clock sel expected es hits seen first)
    (sum_list (map (\<lambda>e. length sel + length (mi_mount_point e) + 8) es))
    (Some (hits + length (filter (\<lambda>e. mi_mount_point e = sel) es), seen + length (filter (\<lambda>e. mi_mount_id e = expected) es),
       (case first of Some e \<Rightarrow> Some e | None \<Rightarrow> find (\<lambda>e. mi_mount_point e = sel) es)))"
  using assms
proof (induction es arbitrary: hits seen first)
  case Nil
  then show ?case by (simp add: at_scan.scans_return split: option.splits)
next
  case (Cons e es)
  have mp: "length (mi_mount_point e) \<le> 2147483648" using Cons.prems(2) by simp
  have work: "Option.bind (usize_checked_add (length sel) (length (mi_mount_point e))) (\<lambda>work. usize_checked_add work 8)
      = Some (length sel + length (mi_mount_point e) + 8)"
    using mp Cons.prems(1) by (simp add: usize_checked_add_def usize_max_def)
  have ids: "(if mi_mount_id e = expected then run_ok_or (usize_checked_add seen 1) AtIdCountOverflow else run_return seen)
      = run_return (seen + (if mi_mount_id e = expected then 1 else 0))"
    using Cons.prems(4) by (simp add: usize_checked_add_def usize_max_def run_ok_or_def)
  have hit: "run_bind (run_ok_or (usize_checked_add hits 1) AtMatchCountOverflow) f = f (hits + 1)"
    for f :: "nat \<Rightarrow> (nat \<times> nat \<times> mountinfo_entry option, attachment_error) scan"
    using Cons.prems(3) by (simp add: usize_checked_add_def usize_max_def run_ok_or_Some)
  let ?m = "mi_mount_point e = sel"
  let ?next = "scan_entries clock sel expected es (hits + (if ?m then 1 else 0))
      (seen + (if mi_mount_id e = expected then 1 else 0)) (if ?m then (case first of None \<Rightarrow> Some e | Some e \<Rightarrow> Some e) else first)"
  have "at_scan.scans clock ?next (sum_list (map (\<lambda>e. length sel + length (mi_mount_point e) + 8) es))
      (Some (hits + (if ?m then 1 else 0) + length (filter (\<lambda>e. mi_mount_point e = sel) es),
        seen + (if mi_mount_id e = expected then 1 else 0) + length (filter (\<lambda>e. mi_mount_id e = expected) es),
        (case (if ?m then (case first of None \<Rightarrow> Some e | Some e \<Rightarrow> Some e) else first) of
           Some e \<Rightarrow> Some e | None \<Rightarrow> find (\<lambda>e. mi_mount_point e = sel) es)))"
    by (rule Cons.IH) (use Cons.prems in auto)
  note chain = at_scan.scans_then [OF at_scans(1) this]
  have "scan_entries clock sel expected (e # es) hits seen first =
      run_then (at_charge clock (length sel + length (mi_mount_point e) + 8) ''scanning one mountinfo attachment'') ?next"
    unfolding scan_entries.simps work run_ok_or_Some ids run_bind_return hit by (cases ?m) simp_all
  then show ?case by (simp only:) (rule at_scan.scans_weaken [OF chain], auto split: option.splits)
qed

definition chosen :: "mountinfo_entry list \<Rightarrow> u8 list \<Rightarrow> u64 \<Rightarrow> u32 \<Rightarrow> u32 \<Rightarrow> mountinfo_entry option" where
  "chosen es sel expected major minor =
     (case filter (\<lambda>e. mi_mount_point e = sel) es of
        [e] \<Rightarrow> if mi_mount_id e = expected \<and> length (filter (\<lambda>e. mi_mount_id e = expected) es) = 1 \<and> mi_root e = [47]
                  \<and> mi_device e = \<lparr> dev_major = major, dev_minor = minor \<rparr>
               then Some e else None
      | _ \<Rightarrow> None)"

text \<open>A table small enough for the work limit.\<close>

definition table_small :: "mountinfo_entry list \<Rightarrow> bool" where
  "table_small es \<longleftrightarrow>
     length es \<le> MAX_ATTACHMENT_ENTRIES \<and> sum_list (map (\<lambda>e. length (mi_mount_point e)) es) \<le> max_bytes MOUNTINFO_LIMITS
     \<and> list_all (\<lambda>e. length (mi_root e) \<le> max_field_bytes MOUNTINFO_LIMITS) es"

lemma find_filter: "find P xs = (case filter P xs of [] \<Rightarrow> None | x # _ \<Rightarrow> Some x)"
  by (induction xs) auto

lemma sum_list_work: "sum_list (map (\<lambda>e. a + f e + 8) es) = length es * (a + 8) + sum_list (map f es)" for f :: "'a \<Rightarrow> nat"
  by (induction es) auto

lemma scans_select:
  assumes small: "table_small es" and limits: "MAX_ATTACHMENT_ENTRIES \<le> al_max_entries limits"
  shows "at_scan.scans clock (select_body clock es sel expected major minor limits)
    (3 * length sel + (sum_list (map (\<lambda>e. length sel + length (mi_mount_point e) + 8) es) + (max_field_bytes MOUNTINFO_LIMITS + 4)))
    (if selector_ok sel then chosen es sel expected major minor else None)"
proof -
  let ?F = "max_field_bytes MOUNTINFO_LIMITS"
  let ?hits = "length (filter (\<lambda>e. mi_mount_point e = sel) es)" and ?ids = "length (filter (\<lambda>e. mi_mount_id e = expected) es)"
  let ?first = "find (\<lambda>e. mi_mount_point e = sel) es"
  have final: "at_scan.scans clock (run_bind (run_ok_or (usize_checked_add (length (mi_root e)) 4) AtValidationOverflow) (\<lambda>work.
        run_then (at_charge clock work ''validating selected mount authority'')
         (if mi_root e \<noteq> [47] then run_fail AtRootNotSlash
          else if dev_major (mi_device e) \<noteq> major \<or> dev_minor (mi_device e) \<noteq> minor
          then run_fail (AtDevice (dev_major (mi_device e)) (dev_minor (mi_device e)) major minor)
          else run_then (at_checkpoint clock) (run_return e)))) (?F + 4)
      (if mi_root e = [47] \<and> mi_device e = \<lparr> dev_major = major, dev_minor = minor \<rparr> then Some e else None)"
    if e: "e \<in> set es" for e
  proof -
    have root: "length (mi_root e) \<le> ?F" using small e by (simp add: table_small_def list_all_iff)
    then have "usize_checked_add (length (mi_root e)) 4 = Some (length (mi_root e) + 4)"
      by (intro usize_small [THEN conjunct2, THEN conjunct1]) (simp add: MOUNTINFO_LIMITS_def MAX_MOUNTINFO_FIELD_BYTES_def)
    moreover have tail: "at_scan.scans clock (if mi_root e \<noteq> [47] then run_fail AtRootNotSlash
          else if dev_major (mi_device e) \<noteq> major \<or> dev_minor (mi_device e) \<noteq> minor
          then run_fail (AtDevice (dev_major (mi_device e)) (dev_minor (mi_device e)) major minor)
          else run_then (at_checkpoint clock) (run_return e)) 0
        (if mi_root e = [47] \<and> mi_device e = \<lparr> dev_major = major, dev_minor = minor \<rparr> then Some e else None)"
    proof -
      have dev: "mi_device e = \<lparr> dev_major = major, dev_minor = minor \<rparr> \<longleftrightarrow>
          dev_major (mi_device e) = major \<and> dev_minor (mi_device e) = minor" by (cases "mi_device e") auto
      have "at_scan.scans clock (run_then (at_checkpoint clock) (run_return e)) 0 (Some e)"
        using at_scan.scans_then [OF at_scans(2) at_scan.scans_return] by simp
      then show ?thesis by (auto simp: dev intro: at_scan.scans_fail)
    qed
    ultimately show ?thesis
      by (simp only: run_ok_or_Some) (rule at_scan.scans_weaken [OF at_scan.scans_then [OF at_scans(1) tail]], use root in simp_all)
  qed
  let ?rest = "\<lambda>(hits, ids, first). run_then (at_checkpoint clock)
      (if hits \<noteq> 1 then run_fail (AtMatches hits)
       else run_bind (run_ok_or first AtInconsistent) (\<lambda>selected.
         if mi_mount_id selected \<noteq> expected then run_fail (AtMountId (mi_mount_id selected) expected)
         else if ids \<noteq> 1 then run_fail (AtIdOccurrences expected ids)
         else run_bind (run_ok_or (usize_checked_add (length (mi_root selected)) 4) AtValidationOverflow) (\<lambda>work.
           run_then (at_charge clock work ''validating selected mount authority'')
           (if mi_root selected \<noteq> [47] then run_fail AtRootNotSlash
            else if dev_major (mi_device selected) \<noteq> major \<or> dev_minor (mi_device selected) \<noteq> minor
            then run_fail (AtDevice (dev_major (mi_device selected)) (dev_minor (mi_device selected)) major minor)
            else run_then (at_checkpoint clock) (run_return selected)))))"
  have rest: "at_scan.scans clock (?rest (?hits, ?ids, ?first)) (0 + (?F + 4)) (chosen es sel expected major minor)"
    unfolding prod.case
  proof (rule at_scan.scans_then [OF at_scans(2)], cases "\<exists>e. filter (\<lambda>e. mi_mount_point e = sel) es = [e]")
    case True
    then obtain e where e: "filter (\<lambda>e. mi_mount_point e = sel) es = [e]" by blast
    have "e \<in> set (filter (\<lambda>e. mi_mount_point e = sel) es)" unfolding e by simp
    then have mem: "e \<in> set es" by simp
    show "at_scan.scans clock (if ?hits \<noteq> 1 then run_fail (AtMatches ?hits)
       else run_bind (run_ok_or ?first AtInconsistent) (\<lambda>selected.
         if mi_mount_id selected \<noteq> expected then run_fail (AtMountId (mi_mount_id selected) expected)
         else if ?ids \<noteq> 1 then run_fail (AtIdOccurrences expected ?ids)
         else run_bind (run_ok_or (usize_checked_add (length (mi_root selected)) 4) AtValidationOverflow) (\<lambda>work.
           run_then (at_charge clock work ''validating selected mount authority'')
           (if mi_root selected \<noteq> [47] then run_fail AtRootNotSlash
            else if dev_major (mi_device selected) \<noteq> major \<or> dev_minor (mi_device selected) \<noteq> minor
            then run_fail (AtDevice (dev_major (mi_device selected)) (dev_minor (mi_device selected)) major minor)
            else run_then (at_checkpoint clock) (run_return selected))))) (?F + 4) (chosen es sel expected major minor)"
      using final [OF mem]
      by (cases "mi_mount_id e = expected \<and> ?ids = 1")
        (auto simp: find_filter e chosen_def run_ok_or_Some intro: at_scan.scans_fail)
  next
    case False
    then have "?hits \<noteq> 1" by (auto simp: length_Suc_conv)
    moreover have "chosen es sel expected major minor = None"
      using False by (auto simp: chosen_def split: list.splits)
    ultimately show "at_scan.scans clock (if ?hits \<noteq> 1 then run_fail (AtMatches ?hits) else X) (?F + 4) (chosen es sel expected major minor)" for X
      by (simp add: at_scan.scans_fail)
  qed
  have scan: "at_scan.scans clock (scan_entries clock sel expected es 0 0 None)
      (sum_list (map (\<lambda>e. length sel + length (mi_mount_point e) + 8) es)) (Some (0 + ?hits, 0 + ?ids, ?first))" if "selector_ok sel"
  proof -
    have "length (mi_mount_point e) \<le> sum_list (map (\<lambda>e. length (mi_mount_point e)) es)" if "e \<in> set es" for e
      using that by (intro member_le_sum_list) simp_all
    then have "list_all (\<lambda>e. length (mi_mount_point e) \<le> 2 ^ 31) es"
      using small by (fastforce simp: list_all_iff table_small_def MOUNTINFO_LIMITS_def MAX_MOUNTINFO_BYTES_def)
    moreover have "length es \<le> 2 ^ 31" using small by (simp add: table_small_def MAX_ATTACHMENT_ENTRIES_def)
    ultimately show ?thesis
      using scans_entries [of sel es 0 0 clock expected None] that by (simp add: selector_ok_def MAX_SELECTOR_BYTES_def)
  qed
  have entries: "\<not> length es > al_max_entries limits" using small limits by (simp add: table_small_def)
  have "at_scan.scans clock (run_bind (scan_entries clock sel expected es 0 0 None) ?rest)
      (sum_list (map (\<lambda>e. length sel + length (mi_mount_point e) + 8) es) + (0 + (?F + 4)))
      (Option.bind (Some (0 + ?hits, 0 + ?ids, ?first)) (\<lambda>_. chosen es sel expected major minor))" if "selector_ok sel"
    by (rule at_scan.scans_bind [OF scan [OF that]]) (use rest in simp)
  then have "at_scan.scans clock (select_body clock es sel expected major minor limits)
      (3 * length sel + (sum_list (map (\<lambda>e. length sel + length (mi_mount_point e) + 8) es) + (0 + (?F + 4))))
      (Option.bind (if selector_ok sel then Some () else None) (\<lambda>_. chosen es sel expected major minor))"
    unfolding select_body_def if_not_P [OF entries] run_then_def [of "validate_selector clock sel"]
    by (intro at_scan.scans_bind [OF scans_selector]) (auto split: if_splits)
  then show ?thesis by (rule at_scan.scans_weaken) simp_all
qed

section \<open>Parsed tables are small\<close>

lemma unescape_length: "unescape allow field = Some bs \<Longrightarrow> length bs \<le> length field"
proof (induction allow field arbitrary: bs rule: unescape.induct)
  case (2 allow byte rest)
  show ?case
  proof (cases "byte = 92")
    case False
    then obtain ds where "unescape allow rest = Some ds" "bs = byte # ds" using "2.prems" by auto
    then show ?thesis using "2.IH"(1) False by simp
  next
    case True
    then obtain d ds where d: "escape_byte allow (take 3 rest) = Some d" and ds: "unescape allow (drop 3 rest) = Some ds"
      and bs: "bs = d # ds" and len: "\<not> length rest < 3"
      using "2.prems" by (auto split: if_splits option.splits)
    have "length ds \<le> length (drop 3 rest)" using "2.IH"(2) [OF _ len d ds] True by simp
    then show ?thesis by (simp add: bs)
  qed
qed simp

lemma read_escaped_length: "read_escaped absolute allow field = Some bs \<Longrightarrow> length bs \<le> length field"
  by (auto simp: read_escaped_def split: Option.bind_splits if_splits intro: unescape_length)

text \<open>What a row holds is at most as long as its fields.\<close>

lemma read_row_lengths:
  assumes "read_row row = Some e"
  shows "length (mi_mount_point e) \<le> sum_list (map length row)
    \<and> (\<exists>f\<in>set row. length (mi_root e) \<le> length f) \<and> (\<exists>f\<in>set row. length (mi_filesystem_type e) \<le> length f)
    \<and> (\<exists>f\<in>set row. mi_mount_options e = split_on 44 f) \<and> (\<exists>f\<in>set row. mi_super_options e = split_on 44 f)"
proof -
  have "10 \<le> length row" using assms by (auto simp: read_row_def Let_def split: if_splits)
  then obtain a b c d p f optional s ft fs fo where row: "row = a # b # c # d # p # f # optional @ [s, ft, fs, fo]"
    by (rule row_shape)
  note nth = row_nth [OF row]
  obtain root: "read_escaped False False d = Some (mi_root e)" and mp: "read_escaped True False p = Some (mi_mount_point e)"
    and mo: "read_options f = Some (mi_mount_options e)" and ty: "read_escaped False True ft = Some (mi_filesystem_type e)"
    and so: "read_options fo = Some (mi_super_options e)"
    using assms nth by (auto simp: read_row_def Let_def split: Option.bind_splits if_splits)
  show ?thesis
    using read_escaped_length [OF root] read_escaped_length [OF mp] read_escaped_length [OF ty] mo so
    by (auto simp: row read_options_Some)
qed

definition entry_small :: "mountinfo_limits \<Rightarrow> mountinfo_entry \<Rightarrow> bool" where
  "entry_small limits e \<longleftrightarrow>
     length (mi_root e) \<le> max_field_bytes limits \<and> length (mi_filesystem_type e) \<le> max_field_bytes limits
     \<and> sum_list (map length (mi_mount_options e)) \<le> max_field_bytes limits
     \<and> sum_list (map length (mi_super_options e)) \<le> max_field_bytes limits
     \<and> length (mi_mount_options e) + length (mi_super_options e) \<le> max_fields_per_line limits"

lemma read_lines_small:
  assumes "read_lines limits k used ids lines = Some es"
  shows "sum_list (map (\<lambda>e. length (mi_mount_point e)) es) \<le> sum_list (map length lines) \<and> list_all (entry_small limits) es"
  using assms
proof (induction lines arbitrary: k used ids es)
  case (Cons line lines)
  obtain e used' rest where line: "read_text_line limits (k + 1) used line = Some (e, used')" and es: "es = e # rest"
    and rest: "read_lines limits (k + 1) used' (insert (mi_mount_id e) ids) lines = Some rest"
    using Cons.prems by (auto split: Option.bind_splits if_splits)
  have row: "read_row (split_on 32 line) = Some e" and ok: "row_ok limits (split_on 32 line)"
    and units: "length (split_on 32 line) + list_units e \<le> max_fields_per_line limits"
    using line by (simp_all add: read_text_line_Some)
  note len = read_row_lengths [OF row]
  have field: "length f \<le> max_field_bytes limits" if "f \<in> set (split_on 32 line)" for f
    using ok that by (simp add: row_ok_def list_all_iff)
  have options: "sum_list (map length (split_on 44 f)) \<le> max_field_bytes limits" if "f \<in> set (split_on 32 line)" for f
    using sum_list_split [of 44 f] field [OF that] by (rule le_trans)
  have "entry_small limits e"
    unfolding entry_small_def
  proof (intro conjI)
    show "length (mi_root e) \<le> max_field_bytes limits" "length (mi_filesystem_type e) \<le> max_field_bytes limits"
      using len field by (blast intro: le_trans)+
    show "sum_list (map length (mi_mount_options e)) \<le> max_field_bytes limits"
      "sum_list (map length (mi_super_options e)) \<le> max_field_bytes limits"
      using len options by metis+
    show "length (mi_mount_options e) + length (mi_super_options e) \<le> max_fields_per_line limits"
      using units by (simp add: list_units_def)
  qed
  moreover have "length (mi_mount_point e) \<le> length line"
    using len [THEN conjunct1] sum_list_split [of 32 line] by (rule le_trans)
  ultimately show ?case using Cons.IH [OF rest] by (simp add: es add_mono)
qed simp

lemma read_table_small:
  assumes "read_table MOUNTINFO_LIMITS bytes = Some es"
  shows "table_small es \<and> list_all (entry_small MOUNTINFO_LIMITS) es"
proof -
  let ?lines = "split_on 10 (butlast bytes)"
  have lines: "read_lines MOUNTINFO_LIMITS 0 0 {} ?lines = Some es" and len: "length bytes \<le> max_bytes MOUNTINFO_LIMITS"
    using assms by (auto simp: read_table_def split: if_splits)
  have "sum_list (map length ?lines) \<le> max_bytes MOUNTINFO_LIMITS"
    using sum_list_split [of 10 "butlast bytes"] len by simp
  moreover have "length es \<le> MAX_ATTACHMENT_ENTRIES"
    using read_table_ok [OF assms] by (simp add: MOUNTINFO_LIMITS_def MAX_MOUNTINFO_LINES_def MAX_ATTACHMENT_ENTRIES_def)
  ultimately show ?thesis
    using read_lines_small [OF lines] by (auto simp: table_small_def list_all_iff entry_small_def)
qed

section \<open>The policy\<close>

text \<open>Each counter is the number of its option.\<close>

definition counts_of :: "u8 list list \<Rightarrow> option_counts \<Rightarrow> option_counts" where
  "counts_of os c =
     \<lparr> oc_rw = oc_rw c + count_list os (ascii ''rw''), oc_ro = oc_ro c + count_list os (ascii ''ro''),
       oc_nosuid = oc_nosuid c + count_list os (ascii ''nosuid''), oc_suid = oc_suid c + count_list os (ascii ''suid''),
       oc_nodev = oc_nodev c + count_list os (ascii ''nodev''), oc_dev = oc_dev c + count_list os (ascii ''dev''),
       oc_noexec = oc_noexec c + count_list os (ascii ''noexec''), oc_exec = oc_exec c + count_list os (ascii ''exec''),
       oc_nosymfollow = oc_nosymfollow c + count_list os (ascii ''nosymfollow''),
       oc_symfollow = oc_symfollow c + count_list os (ascii ''symfollow'') \<rparr>"

lemma option_names_differ: "distinct (map ascii [''rw'', ''ro'', ''nosuid'', ''suid'', ''nodev'', ''dev'', ''noexec'', ''exec'', ''nosymfollow'', ''symfollow''])"
  by (simp add: ascii_def)

lemma counts_of_Cons: "counts_of (opt # os) c = counts_of os (count_option opt c)"
  using option_names_differ by (auto simp: counts_of_def count_option_def)

lemma scans_po_charge:
  assumes "a + c \<le> usize_max"
  shows "po_scan.scans clock (po_charge_with_overhead clock a c action) (a + c) (Some ())"
  using assms po_scan.scans_charge by (simp add: po_charge_with_overhead_def usize_checked_add_def)

lemma scans_options_from:
  "sum_list (map length os) \<le> 2 ^ 31 \<Longrightarrow>
   po_scan.scans clock (scan_options_from clock domain os c) (sum_list (map length os) + 64 * length os) (Some (counts_of os c))"
proof (induction os arbitrary: c)
  case Nil
  have "counts_of [] c = c" by (simp add: counts_of_def)
  then show ?case by (simp add: po_scan.scans_return)
next
  case (Cons opt os)
  have charge: "po_scan.scans clock (po_charge_with_overhead clock (length opt) OPTION_COMPARISON_WORK action)
      (length opt + OPTION_COMPARISON_WORK) (Some ())" for action
    using Cons.prems by (intro scans_po_charge) (simp add: OPTION_COMPARISON_WORK_def usize_max_def)
  have "po_scan.scans clock (scan_options_from clock domain os (count_option opt c)) (sum_list (map length os) + 64 * length os)
      (Some (counts_of os (count_option opt c)))" using Cons.prems by (intro Cons.IH) simp
  note chain = po_scan.scans_then [OF charge this]
  show ?case
    unfolding scan_options_from.simps
    by (rule po_scan.scans_weaken [OF chain]) (simp_all add: counts_of_Cons OPTION_COMPARISON_WORK_def)
qed

lemma scans_options:
  assumes "sum_list (map length os) \<le> 2 ^ 31" and "length os \<le> max_options"
  shows "po_scan.scans clock (scan_options clock os domain max_options) (sum_list (map length os) + 64 * length os)
    (Some (counts_of os option_counts_default))"
  using assms scans_options_from by (simp add: scan_options_def)

text \<open>An option is set once and its opposite is not.\<close>

definition set_once :: "u8 list list \<Rightarrow> string \<Rightarrow> string \<Rightarrow> bool" where
  "set_once os yes no \<longleftrightarrow> count_list os (ascii yes) = 1 \<and> ascii no \<notin> set os"

definition boot_policy_met :: "mountinfo_entry \<Rightarrow> bool" where
  "boot_policy_met e \<longleftrightarrow>
     mi_filesystem_type e = ascii ''vfat''
     \<and> set_once (mi_mount_options e) ''rw'' ''ro'' \<and> set_once (mi_super_options e) ''rw'' ''ro''
     \<and> set_once (mi_mount_options e) ''nosuid'' ''suid'' \<and> set_once (mi_mount_options e) ''nodev'' ''dev''
     \<and> set_once (mi_mount_options e) ''noexec'' ''exec'' \<and> set_once (mi_mount_options e) ''nosymfollow'' ''symfollow''"

lemma scans_require:
  "po_scan.scans clock (require_read_write domain a b) 0 (if a = 1 \<and> b = 0 then Some () else None)"
  "po_scan.scans clock (require_flag flag a b) 0 (if a = 1 \<and> b = 0 then Some () else None)"
  by (auto simp: require_read_write_def require_flag_def po_scan.scans_return intro: po_scan.scans_fail)

lemma scans_policy:
  assumes small: "entry_small MOUNTINFO_LIMITS (sa_selected_entry s)"
    and limits: "MAX_POLICY_OPTIONS \<le> pl_max_options limits"
  shows "po_scan.scans clock (boot_policy_body clock s limits) MAX_POLICY_WORK
    (if boot_policy_met (sa_selected_entry s) then Some () else None)"
proof -
  define e where "e = sa_selected_entry s"
  let ?F = "max_field_bytes MOUNTINFO_LIMITS"
  have F: "?F = 262144" by (simp add: MOUNTINFO_LIMITS_def MAX_MOUNTINFO_FIELD_BYTES_def)
  have L: "max_fields_per_line MOUNTINFO_LIMITS = 256" by (simp add: MOUNTINFO_LIMITS_def MAX_MOUNTINFO_FIELDS_PER_LINE_def)
  have sm: "length (mi_filesystem_type e) \<le> 262144" "sum_list (map length (mi_mount_options e)) \<le> 262144"
    "sum_list (map length (mi_super_options e)) \<le> 262144" "length (mi_mount_options e) + length (mi_super_options e) \<le> 256"
    using small unfolding e_def [symmetric] by (simp_all add: entry_small_def F L)
  let ?mc = "counts_of (mi_mount_options e) option_counts_default" and ?sc = "counts_of (mi_super_options e) option_counts_default"
  have mount: "po_scan.scans clock (scan_options clock (mi_mount_options e) MountDomain (pl_max_options limits))
      (sum_list (map length (mi_mount_options e)) + 64 * length (mi_mount_options e)) (Some ?mc)"
    using sm limits by (intro scans_options) (simp_all add: MAX_POLICY_OPTIONS_def L)
  have super: "po_scan.scans clock (scan_options clock (mi_super_options e) SuperblockDomain (pl_max_options limits))
      (sum_list (map length (mi_super_options e)) + 64 * length (mi_super_options e)) (Some ?sc)"
    using sm limits by (intro scans_options) (simp_all add: MAX_POLICY_OPTIONS_def L)
  have checks: "po_scan.scans clock
       (run_then (require_read_write MountDomain (oc_rw m) (oc_ro m))
       (run_then (require_read_write SuperblockDomain (oc_rw b) (oc_ro b))
       (run_then (require_flag Nosuid (oc_nosuid m) (oc_suid m))
       (run_then (require_flag Nodev (oc_nodev m) (oc_dev m))
       (run_then (require_flag Noexec (oc_noexec m) (oc_exec m))
       (run_then (require_flag Nosymfollow (oc_nosymfollow m) (oc_symfollow m))
       (scan_checkpoint clock PoDeadline))))))) 0
      (if oc_rw m = 1 \<and> oc_ro m = 0 \<and> oc_rw b = 1 \<and> oc_ro b = 0 \<and> oc_nosuid m = 1 \<and> oc_suid m = 0
          \<and> oc_nodev m = 1 \<and> oc_dev m = 0 \<and> oc_noexec m = 1 \<and> oc_exec m = 0 \<and> oc_nosymfollow m = 1 \<and> oc_symfollow m = 0
       then Some () else None)" for m b
    unfolding run_then_def
    by (rule po_scan.scans_weaken, (rule po_scan.scans_bind [OF scans_require(1)], rule po_scan.scans_bind [OF scans_require(1)],
        (rule po_scan.scans_bind [OF scans_require(2)])+, rule po_scan.scans_checkpoint)) simp_all
  have met: "boot_policy_met e \<longleftrightarrow> mi_filesystem_type e = ascii ''vfat'' \<and>
      oc_rw ?mc = 1 \<and> oc_ro ?mc = 0 \<and> oc_rw ?sc = 1 \<and> oc_ro ?sc = 0 \<and> oc_nosuid ?mc = 1 \<and> oc_suid ?mc = 0
      \<and> oc_nodev ?mc = 1 \<and> oc_dev ?mc = 0 \<and> oc_noexec ?mc = 1 \<and> oc_exec ?mc = 0 \<and> oc_nosymfollow ?mc = 1 \<and> oc_symfollow ?mc = 0"
    by (simp add: boot_policy_met_def set_once_def counts_of_def option_counts_default_def count_list_0_iff)
  have type: "po_scan.scans clock (po_charge_with_overhead clock (length (mi_filesystem_type e)) 4 action)
      (length (mi_filesystem_type e) + 4) (Some ())" for action
    using sm by (intro scans_po_charge) (simp add: usize_max_def)
  let ?rest = "run_bind (scan_options clock (mi_mount_options e) MountDomain (pl_max_options limits)) (\<lambda>m.
      run_bind (scan_options clock (mi_super_options e) SuperblockDomain (pl_max_options limits)) (\<lambda>b.
       run_then (require_read_write MountDomain (oc_rw m) (oc_ro m))
       (run_then (require_read_write SuperblockDomain (oc_rw b) (oc_ro b))
       (run_then (require_flag Nosuid (oc_nosuid m) (oc_suid m))
       (run_then (require_flag Nodev (oc_nodev m) (oc_dev m))
       (run_then (require_flag Noexec (oc_noexec m) (oc_exec m))
       (run_then (require_flag Nosymfollow (oc_nosymfollow m) (oc_symfollow m))
       (scan_checkpoint clock PoDeadline))))))))"
  have rest: "po_scan.scans clock (if mi_filesystem_type e \<noteq> ascii ''vfat'' then run_fail PoUnsupportedFilesystem else ?rest)
      (sum_list (map length (mi_mount_options e)) + 64 * length (mi_mount_options e)
        + (sum_list (map length (mi_super_options e)) + 64 * length (mi_super_options e) + 0))
      (if boot_policy_met e then Some () else None)"
  proof (cases "mi_filesystem_type e = ascii ''vfat''")
    case True
    note chain = po_scan.scans_bind [OF mount po_scan.scans_bind [OF super checks]]
    show ?thesis using True by (simp only: not_True_eq_False if_False simp_thms) (rule po_scan.scans_weaken [OF chain], auto simp: met)
  next
    case False
    then show ?thesis by (simp add: boot_policy_met_def po_scan.scans_fail)
  qed
  show ?thesis
    unfolding boot_policy_body_def Let_def e_def [symmetric]
    by (rule po_scan.scans_weaken [OF po_scan.scans_then [OF type rest]])
      (use sm in \<open>simp_all add: MAX_POLICY_WORK_def OPTION_COMPARISON_WORK_def F L\<close>)
qed

section \<open>Properties of selection and policy\<close>

lemma parse_bytes_reads: "parse_mountinfo_bytes w bytes k = Ok (es, k') \<Longrightarrow> read_table MOUNTINFO_LIMITS bytes = Some es"
  using parser_verdict_holds [OF usize_production, of w None bytes k]
  by (auto simp: parse_mountinfo_bytes_def parse_mountinfo_with_limits_def run_bind_apply run_return_apply parser_verdict_def
      split: result.splits)

definition selection_verdict ::
  "(nat \<Rightarrow> nat) \<Rightarrow> nat \<Rightarrow> mountinfo_entry list \<Rightarrow> u8 list \<Rightarrow> u64 \<Rightarrow> u32 \<Rightarrow> u32
     \<Rightarrow> (selected_attachment \<times> nat, attachment_error) result \<Rightarrow> bool" where
  "selection_verdict clock deadline es sel expected major minor outcome \<longleftrightarrow>
     (case outcome of
        Ok (a, k) \<Rightarrow> expected \<noteq> 0 \<and> selector_ok sel
          \<and> (\<exists>e. chosen es sel expected major minor = Some e \<and> a = attachment_of e)
      | Err e \<Rightarrow> (e = AtTimedOut \<and> (\<exists>k. clock k > deadline))
          \<or> (e \<noteq> AtTimedOut \<and> (\<forall>i a. e \<noteq> AtWorkLimit i a)
             \<and> (expected = 0 \<or> \<not> selector_ok sel \<or> chosen es sel expected major minor = None)))"

lemma selection_work:
  assumes "table_small es" and "length sel \<le> MAX_SELECTOR_BYTES"
  shows "3 * length sel + (sum_list (map (\<lambda>e. length sel + length (mi_mount_point e) + 8) es) + (max_field_bytes MOUNTINFO_LIMITS + 4))
    \<le> WORST_CASE_ATTACHMENT_WORK"
proof -
  have "length es * (length sel + 8) \<le> MAX_ATTACHMENT_ENTRIES * (MAX_SELECTOR_BYTES + 8)"
    using assms by (intro mult_mono) (simp_all add: table_small_def)
  then show ?thesis using assms by (simp add: sum_list_work table_small_def WORST_CASE_ATTACHMENT_WORK_def)
qed

lemma worst_case_fits: "WORST_CASE_ATTACHMENT_WORK \<le> MAX_ATTACHMENT_WORK"
  by (simp add: WORST_CASE_ATTACHMENT_WORK_def MAX_ATTACHMENT_WORK_def MAX_ATTACHMENT_ENTRIES_def MAX_SELECTOR_BYTES_def
      MAX_SELECTOR_COMPONENTS_def MOUNTINFO_LIMITS_def MAX_MOUNTINFO_BYTES_def MAX_MOUNTINFO_FIELD_BYTES_def)

lemma long_selector: "length sel > MAX_SELECTOR_BYTES \<Longrightarrow> select_body clock es sel expected major minor limits b = Err AtSelectorTooLong"
  by (simp add: select_body_def validate_selector_def run_then_apply run_fail_apply)

lemma selection_verdict_holds:
  assumes small: "table_small es"
  shows "selection_verdict clock deadline es sel expected major minor
    (select_mountinfo_attachment_until clock es sel expected major minor deadline k)"
proof -
  let ?L = MOUNTINFO_ATTACHMENT_LIMITS
  have limits: "MAX_ATTACHMENT_ENTRIES \<le> al_max_entries ?L" "al_max_work ?L = MAX_ATTACHMENT_WORK" "attachment_validate_limits ?L"
    by (simp_all add: MOUNTINFO_ATTACHMENT_LIMITS_def attachment_validate_limits_def MAX_ATTACHMENT_ENTRIES_def MAX_ATTACHMENT_WORK_def)
  let ?inner = "\<lambda>k. run_bind (select_body clock es sel expected major minor ?L) (\<lambda>selected.
      run_bind scan_consumed (\<lambda>work. run_return (attachment_of selected, work))) (scan_budget_new MAX_ATTACHMENT_WORK deadline k)"
  have outcome: "case ?inner k of
      Ok ((v, work), b) \<Rightarrow> (\<exists>x. (if selector_ok sel then chosen es sel expected major minor else None) = Some x \<and> v = attachment_of x)
    | Err e \<Rightarrow> (e = AtTimedOut \<and> (\<exists>k. clock k > deadline))
        \<or> (e \<noteq> AtTimedOut \<and> (\<forall>i a. e \<noteq> AtWorkLimit i a) \<and> (if selector_ok sel then chosen es sel expected major minor else None) = None)" for k
  proof (cases "length sel > MAX_SELECTOR_BYTES")
    case True
    then show ?thesis by (simp add: run_bind_apply long_selector selector_ok_def)
  next
    case False
    then have "3 * length sel + (sum_list (map (\<lambda>e. length sel + length (mi_mount_point e) + 8) es) + (max_field_bytes MOUNTINFO_LIMITS + 4))
        \<le> MAX_ATTACHMENT_WORK" using selection_work [OF small, of sel] worst_case_fits by simp
    note scans_select [OF small limits(1), of clock sel expected major minor]
    note at_scan.scans_outcome [OF this \<open>_ \<le> MAX_ATTACHMENT_WORK\<close>, where g = attachment_of and deadline = deadline and k = k]
    then show ?thesis by (cases "?inner k") (auto simp: split: prod.splits if_splits)
  qed
  show ?thesis
  proof (cases "clock k > deadline \<or> expected = 0")
    case True
    then show ?thesis
      by (auto simp: selection_verdict_def select_mountinfo_attachment_until_def select_mountinfo_attachment_with_limits_and_clock_def
          run_bind_apply run_then_apply require_deadline_def limits run_fail_apply)
  next
    case False
    then have "select_mountinfo_attachment_until clock es sel expected major minor deadline k =
        (case ?inner (k + 1) of Ok ((v, work), b) \<Rightarrow> Ok (v, sb_asked b) | Err e \<Rightarrow> Err e)"
      by (auto simp: select_mountinfo_attachment_until_def select_mountinfo_attachment_with_limits_and_clock_def
          run_bind_apply [of "run_then _ _"] run_then_apply require_deadline_def limits run_return_apply split: result.splits)
    then show ?thesis
      using outcome [of "k + 1"] False
      by (cases "?inner (k + 1)") (auto simp: selection_verdict_def split: prod.splits if_splits)
  qed
qed

text \<open>
  C39: on a mount table that was parsed within the production limits, selecting a mount is exactly this: the
  expected identifier is positive, the selector is an absolute normal path within its limits, exactly one
  mount is at that path, it is the only one with the expected identifier, its root is \<open>/\<close>, and its device is
  the expected one. The selection is then that mount. It never runs out of work, and fails otherwise only
  when a reading of the clock is past the deadline.
\<close>

theorem attachment_selected_exactly:
  assumes "parse_mountinfo_bytes w bytes j = Ok (es, j')"
  shows "selection_verdict clock deadline es sel expected major minor
    (select_mountinfo_attachment_until clock es sel expected major minor deadline k)"
  using selection_verdict_holds read_table_small [OF parse_bytes_reads [OF assms]] by blast

definition policy_verdict ::
  "(nat \<Rightarrow> nat) \<Rightarrow> nat \<Rightarrow> mountinfo_entry \<Rightarrow> (validated_boot_policy \<times> nat, boot_policy_error) result \<Rightarrow> bool" where
  "policy_verdict clock deadline e outcome \<longleftrightarrow>
     (case outcome of
        Ok (p, k) \<Rightarrow> boot_policy_met e
      | Err er \<Rightarrow> (er = PoDeadline \<and> (\<exists>k. clock k > deadline))
          \<or> (er \<noteq> PoDeadline \<and> (\<forall>i a. er \<noteq> PoWorkLimit i a) \<and> \<not> boot_policy_met e))"

lemma policy_verdict_holds:
  assumes small: "entry_small MOUNTINFO_LIMITS (sa_selected_entry s)"
  shows "policy_verdict clock deadline (sa_selected_entry s) (validate_selected_boot_mount_policy_until clock s deadline k)"
proof -
  let ?L = BOOT_MOUNTINFO_POLICY_LIMITS
  have limits: "MAX_POLICY_OPTIONS \<le> pl_max_options ?L" "pl_max_work ?L = MAX_POLICY_WORK" "\<not> (pl_max_options ?L = 0 \<or> pl_max_work ?L = 0)"
    by (simp_all add: BOOT_MOUNTINFO_POLICY_LIMITS_def MAX_POLICY_OPTIONS_def MAX_POLICY_WORK_def MOUNTINFO_LIMITS_def
        MAX_MOUNTINFO_FIELDS_PER_LINE_def)
  define policy where "policy = \<lparr> vp_filesystem = Vfat, vp_mount_read_write = True, vp_superblock_read_write = True,
      vp_nosuid = True, vp_nodev = True, vp_noexec = True, vp_nosymfollow = True \<rparr>"
  let ?inner = "\<lambda>k. run_bind (boot_policy_body clock s ?L) (\<lambda>_. run_bind scan_consumed (\<lambda>work. run_return (policy, work)))
      (scan_budget_new MAX_POLICY_WORK deadline k)"
  note outcome = po_scan.scans_outcome [OF scans_policy [OF small limits(1)] order_refl, where g = "\<lambda>_. policy" and deadline = deadline]
  show ?thesis
  proof (cases "clock k > deadline")
    case True
    then show ?thesis
      by (auto simp: policy_verdict_def validate_selected_boot_mount_policy_until_def
          validate_selected_boot_mount_policy_with_limits_and_clock_def run_bind_apply run_then_apply require_deadline_def)
  next
    case False
    then have now: "require_deadline clock PoDeadline deadline k = Ok ((), k + 1)" by (simp add: require_deadline_def)
    have "validate_selected_boot_mount_policy_until clock s deadline k =
        (case ?inner (k + 1) of Ok ((v, work), b) \<Rightarrow> Ok (v, sb_asked b) | Err e \<Rightarrow> Err e)"
      unfolding validate_selected_boot_mount_policy_until_def validate_selected_boot_mount_policy_with_limits_and_clock_def
        run_bind_apply [of "run_then _ _"] run_then_apply [of "require_deadline _ _ _"] now if_not_P [OF limits(3)]
      unfolding run_then_def [of "boot_policy_body _ _ _"] policy_def limits(2)
      by (cases "?inner (k + 1)") (simp_all add: policy_def run_return_apply split: prod.splits)
    then show ?thesis
      using outcome [of clock "k + 1"]
      by (cases "?inner (k + 1)") (auto simp: policy_verdict_def split: prod.splits if_splits)
  qed
qed

text \<open>
  C40: a mount selected from a table that was parsed within the production limits is admitted for boot
  publication exactly when its file system is \<open>vfat\<close>, both option domains say \<open>rw\<close> once and never \<open>ro\<close>, and the
  mount sets \<open>nosuid\<close>, \<open>nodev\<close>, \<open>noexec\<close> and \<open>nosymfollow\<close> once each and none of their opposites. The check never runs
  out of work or options, and fails otherwise only past its deadline.
\<close>

theorem boot_mount_admitted_exactly:
  assumes "parse_mountinfo_bytes w bytes j = Ok (es, j')"
    and "select_mountinfo_attachment_until clock es sel expected major minor deadline k = Ok (a, k')"
  shows "policy_verdict clock' deadline' (sa_selected_entry a) (validate_selected_boot_mount_policy_until clock' a deadline' i)"
proof -
  note small = read_table_small [OF parse_bytes_reads [OF assms(1)]]
  obtain e where e: "chosen es sel expected major minor = Some e" and a: "a = attachment_of e"
    using selection_verdict_holds [of es clock deadline sel expected major minor k] small assms(2)
    by (auto simp: selection_verdict_def)
  have "e \<in> set (filter (\<lambda>e. mi_mount_point e = sel) es)"
    using e by (auto simp: chosen_def simp del: set_filter split: list.splits if_splits)
  then have "entry_small MOUNTINFO_LIMITS (sa_selected_entry a)" using small by (simp add: a attachment_of_def list_all_iff)
  then show ?thesis by (rule policy_verdict_holds)
qed

section \<open>An example\<close>

definition esp_mount :: mountinfo_entry where
  "esp_mount = \<lparr> mi_mount_id = 25, mi_parent_id = 1, mi_device = \<lparr> dev_major = 8, dev_minor = 1 \<rparr>, mi_root = [47],
     mi_mount_point = [47, 101],
     mi_mount_options = map ascii [''rw'', ''nosuid'', ''nodev'', ''noexec'', ''nosymfollow''], mi_optional_fields = [],
     mi_filesystem_type = ascii ''vfat'', mi_mount_source = [115], mi_super_options = [ascii ''rw''] \<rparr>"

lemma esp_row:
  "show_row esp_mount = [[50, 53], [49], [56, 58, 49], [47], [47, 101],
     ascii ''rw,nosuid,nodev,noexec,nosymfollow'', [45], ascii ''vfat'', [115], ascii ''rw'']"
  by (simp add: show_row_def esp_mount_def escape_def decimal_bytes.simps ascii_def)

lemma esp_fits: "table_fits MOUNTINFO_LIMITS [esp_mount]"
proof -
  have "entry_ok esp_mount"
    by (simp add: entry_ok_def esp_mount_def option_list_ok_def plain_def ascii_def)
  moreover have "length (show_table [esp_mount]) < 1000" by (simp add: show_table_def esp_row ascii_def)
  moreover have "entry_units esp_mount < 100"
    by (simp add: entry_units_def esp_row list_units_def) (simp add: esp_mount_def ascii_def)
  ultimately show ?thesis
    by (simp add: table_fits_def esp_row ascii_def MOUNTINFO_LIMITS_def MAX_MOUNTINFO_LINES_def MAX_MOUNTINFO_BYTES_def
        MAX_MOUNTINFO_FIELD_BYTES_def MAX_MOUNTINFO_FIELDS_PER_LINE_def MAX_MOUNTINFO_TOTAL_FIELDS_def)
qed

lemma esp_parsed: "\<exists>k'. parse_mountinfo_bytes roomy_world (show_table [esp_mount]) 0 = Ok ([esp_mount], k')"
  using parse_bytes_exact [OF roomy] read_table_show [OF validate_production esp_fits] by blast

lemma esp_chosen: "selector_ok [47, 101]" "chosen [esp_mount] [47, 101] 25 8 1 = Some esp_mount" "boot_policy_met esp_mount"
proof -
  have "utf8_valid [47, 101]" by code_simp
  then show "selector_ok [47, 101]"
    by (simp add: component_accepted_def selector_ok_def MAX_SELECTOR_BYTES_def MAX_SELECTOR_COMPONENTS_def MAX_SELECTOR_COMPONENT_BYTES_def)
  show "chosen [esp_mount] [47, 101] 25 8 1 = Some esp_mount" by (simp add: chosen_def esp_mount_def)
  show "boot_policy_met esp_mount" by (simp add: boot_policy_met_def esp_mount_def set_once_def ascii_def)
qed

theorem attachment_selected_exactly_witness:
  "\<exists>k. select_mountinfo_attachment_until (\<lambda>_. 0) [esp_mount] [47, 101] 25 8 1 9 0 = Ok (attachment_of esp_mount, k)"
proof -
  obtain j where "parse_mountinfo_bytes roomy_world (show_table [esp_mount]) 0 = Ok ([esp_mount], j)" using esp_parsed by blast
  from attachment_selected_exactly [OF this, of "\<lambda>_. 0" 9 "[47, 101]" 25 8 1 0]
  show ?thesis by (auto simp: selection_verdict_def esp_chosen split: result.splits prod.splits)
qed

lemma esp_selected: "\<exists>k. select_mountinfo_attachment_until (\<lambda>_. 0) [esp_mount] [47, 101] 25 8 1 9 0 = Ok (attachment_of esp_mount, k)"
proof -
  have "table_small [esp_mount]" using esp_parsed read_table_small [OF parse_bytes_reads] by blast
  from selection_verdict_holds [OF this, of "\<lambda>_. 0" 9 "[47, 101]" 25 8 1 0]
  show ?thesis by (auto simp: selection_verdict_def esp_chosen split: result.splits prod.splits)
qed

theorem boot_mount_admitted_exactly_witness:
  "\<exists>p. validate_selected_boot_mount_policy_until (\<lambda>_. 0) (attachment_of esp_mount) 9 0 = Ok p"
proof -
  obtain j where "parse_mountinfo_bytes roomy_world (show_table [esp_mount]) 0 = Ok ([esp_mount], j)" using esp_parsed by blast
  moreover obtain k where "select_mountinfo_attachment_until (\<lambda>_. 0) [esp_mount] [47, 101] 25 8 1 9 0 = Ok (attachment_of esp_mount, k)"
    using esp_selected by blast
  ultimately have "policy_verdict (\<lambda>_. 0) 9 (sa_selected_entry (attachment_of esp_mount))
      (validate_selected_boot_mount_policy_until (\<lambda>_. 0) (attachment_of esp_mount) 9 0)"
    by (rule boot_mount_admitted_exactly)
  then show ?thesis by (auto simp: policy_verdict_def attachment_of_def esp_chosen split: result.splits)
qed

end
