(* ===== verification/Gpt_Operation.thy ===== *)
theory Gpt_Operation
  imports Run_Monad Wire_Int
begin

text \<open>
  The resource ledger and the image reader of GPT authentication
  (\<open>forge/src/linux_fs/gpt_partition_role/reader.rs\<close>). Every read, allocation and unit of work is counted
  against hard limits, and the clock is read at every checkpoint. An image is a parameter: its length and
  one positional read. \<open>usize\<close> is 64 bits wide, so that its conversions to and from \<open>u64\<close> never fail. Sizes
  are naturals; their additions are checked where the code checks them.
\<close>

section \<open>Limits\<close>

definition READ_CHUNK_BYTES :: nat where
  "READ_CHUNK_BYTES = 64 * 1024"

definition MAX_READ_BYTES :: nat where
  "MAX_READ_BYTES = 4 * 1024 * 1024"

definition MAX_READ_CALLS :: nat where
  "MAX_READ_CALLS = 1024"

definition MAX_WORK :: nat where
  "MAX_WORK = 16 * 1024 * 1024"

definition MAX_ALLOCATION_BYTES :: nat where
  "MAX_ALLOCATION_BYTES = 4 * 1024 * 1024"

record gpt_limits =
  gl_max_read_bytes :: nat
  gl_max_read_calls :: nat
  gl_max_work :: nat
  gl_max_allocation_bytes :: nat

definition gpt_limits_production :: gpt_limits where
  "gpt_limits_production = \<lparr> gl_max_read_bytes = MAX_READ_BYTES, gl_max_read_calls = MAX_READ_CALLS,
     gl_max_work = MAX_WORK, gl_max_allocation_bytes = MAX_ALLOCATION_BYTES \<rparr>"

text \<open>An error is its kind and its message; \<open>GptPanic\<close> is an index out of range.\<close>

datatype gpt_error = GptError io_kind string | GptPanic

abbreviation gpt_late :: gpt_error where
  "gpt_late \<equiv> GptError IoTimedOut ''GPT image authentication exceeded its deadline''"

abbreviation invalid_data :: "string \<Rightarrow> gpt_error" where
  "invalid_data message \<equiv> GptError IoInvalidData message"

abbreviation invalid_input :: "string \<Rightarrow> gpt_error" where
  "invalid_input message \<equiv> GptError IoInvalidInput message"

section \<open>Images\<close>

text \<open>A read fills a front part of its buffer and says how long that part is.\<close>

record 'i image_ops =
  im_length :: "'i \<Rightarrow> u64"
  im_read :: "'i \<Rightarrow> u64 \<Rightarrow> u8 list \<Rightarrow> (nat \<times> u8 list \<times> 'i, gpt_error) result"

definition slice_image :: "u8 list image_ops" where
  "slice_image = \<lparr>
     im_length = (\<lambda>bytes. if length bytes \<le> usize_max then word_of_nat (length bytes) else - 1),
     im_read = (\<lambda>bytes offset output.
       if unat offset > length bytes then Ok (0, output, bytes)
       else let remaining = drop (unat offset) bytes; count = min (length remaining) (length output)
            in Ok (count, take count remaining @ drop count output, bytes)) \<rparr>"

section \<open>The ledger\<close>

record 'i gpt_operation =
  go_deadline :: nat
  go_asked :: nat
  go_read_bytes :: nat
  go_read_calls :: nat
  go_work :: nat
  go_allocations :: nat
  go_limits :: gpt_limits
  go_source :: 'i

type_synonym ('a, 'i) gpt = "('a, 'i gpt_operation, gpt_error) run"

definition gpt_checkpoint :: "world \<Rightarrow> (unit, 'i) gpt" where
  "gpt_checkpoint w = (\<lambda>s.
     if now_at w (go_asked s) > go_deadline s then Err gpt_late else Ok ((), s \<lparr> go_asked := go_asked s + 1 \<rparr>))"

definition gpt_operation_new :: "world \<Rightarrow> gpt_limits \<Rightarrow> nat \<Rightarrow> 'i \<Rightarrow> nat \<Rightarrow> ('i gpt_operation, gpt_error) result" where
  "gpt_operation_new w limits deadline source k =
     (if gl_max_read_bytes limits = 0 \<or> gl_max_read_calls limits = 0 \<or> gl_max_work limits = 0
         \<or> gl_max_allocation_bytes limits = 0
      then Err (invalid_input ''GPT parser limits must all be nonzero'')
      else if gl_max_read_bytes limits > gl_max_read_bytes gpt_limits_production
         \<or> gl_max_read_calls limits > gl_max_read_calls gpt_limits_production
         \<or> gl_max_work limits > gl_max_work gpt_limits_production
         \<or> gl_max_allocation_bytes limits > gl_max_allocation_bytes gpt_limits_production
      then Err (invalid_input ''GPT parser limits exceed the hard production ceilings'')
      else
        let operation = \<lparr> go_deadline = deadline, go_asked = k, go_read_bytes = 0, go_read_calls = 0, go_work = 0,
          go_allocations = 0, go_limits = limits, go_source = source \<rparr>
        in res_bind (gpt_checkpoint w operation) (\<lambda>(u, operation). Ok operation))"

definition account_work :: "nat \<Rightarrow> string \<Rightarrow> (unit, 'i) gpt" where
  "account_work amount action = (\<lambda>s.
     case usize_checked_add (go_work s) amount of
       None \<Rightarrow> Err (invalid_data ''GPT parser work accounting overflowed'')
     | Some work \<Rightarrow>
         if work > gl_max_work (go_limits s)
         then Err (invalid_data (''GPT parser exceeded its work limit while '' @ action))
         else Ok ((), s \<lparr> go_work := work \<rparr>))"

definition charge_work :: "world \<Rightarrow> nat \<Rightarrow> string \<Rightarrow> (unit, 'i) gpt" where
  "charge_work w amount action =
     run_then (gpt_checkpoint w) (run_then (account_work amount action) (gpt_checkpoint w))"

definition account_allocation :: "nat \<Rightarrow> string \<Rightarrow> (unit, 'i) gpt" where
  "account_allocation bytes action = (\<lambda>s.
     case usize_checked_add (go_allocations s) bytes of
       None \<Rightarrow> Err (invalid_data ''GPT allocation accounting overflowed'')
     | Some allocations \<Rightarrow>
         if allocations > gl_max_allocation_bytes (go_limits s)
         then Err (invalid_data (''GPT parser exceeded its allocation limit while '' @ action))
         else Ok ((), s \<lparr> go_allocations := allocations \<rparr>))"

definition gpt_try_reserve :: "world \<Rightarrow> nat \<Rightarrow> string \<Rightarrow> (unit, 'i) gpt" where
  "gpt_try_reserve w bytes action = (\<lambda>s.
     if grants w (go_asked s) bytes then Ok ((), s \<lparr> go_asked := go_asked s + 1 \<rparr>)
     else Err (GptError IoOtherKind (''could not allocate '' @ action)))"

definition allocate_zeroed :: "world \<Rightarrow> nat \<Rightarrow> string \<Rightarrow> (u8 list, 'i) gpt" where
  "allocate_zeroed w bytes action =
     run_then (gpt_checkpoint w)
     (run_then (account_allocation bytes action)
     (run_then (gpt_try_reserve w bytes action)
     (run_then (gpt_checkpoint w)
     (run_return (replicate bytes 0)))))"

text \<open>Reserving room for \<open>count\<close> items of a size in memory; the vector is empty.\<close>

definition reserve_items :: "world \<Rightarrow> nat \<Rightarrow> nat \<Rightarrow> string \<Rightarrow> (unit, 'i) gpt" where
  "reserve_items w size_of count action =
     run_then (gpt_checkpoint w)
     (if count * size_of > usize_max then run_fail (invalid_data ''GPT item allocation size overflowed'')
      else
        run_then (account_allocation (count * size_of) action)
        (run_then (gpt_try_reserve w (count * size_of) action)
        (gpt_checkpoint w)))"

section \<open>Exact reads\<close>

definition account_read_bytes :: "nat \<Rightarrow> string \<Rightarrow> (unit, 'i) gpt" where
  "account_read_bytes bytes action = (\<lambda>s.
     case usize_checked_add (go_read_bytes s) bytes of
       None \<Rightarrow> Err (invalid_data ''GPT read accounting overflowed'')
     | Some read_bytes \<Rightarrow>
         if read_bytes > gl_max_read_bytes (go_limits s)
         then Err (invalid_data (''GPT parser exceeded its read-byte limit while '' @ action))
         else Ok ((), s \<lparr> go_read_bytes := read_bytes \<rparr>))"

definition account_read_call :: "string \<Rightarrow> (unit, 'i) gpt" where
  "account_read_call action = (\<lambda>s.
     case usize_checked_add (go_read_calls s) 1 of
       None \<Rightarrow> Err (invalid_data ''GPT read-call accounting overflowed'')
     | Some read_calls \<Rightarrow>
         if read_calls > gl_max_read_calls (go_limits s)
         then Err (invalid_data (''GPT parser exceeded its read-call limit while '' @ action))
         else Ok ((), s \<lparr> go_read_calls := read_calls \<rparr>))"

definition source_length :: "'i image_ops \<Rightarrow> (u64, 'i) gpt" where
  "source_length io = (\<lambda>s. Ok (im_length io (go_source s), s))"

definition source_read :: "'i image_ops \<Rightarrow> u64 \<Rightarrow> u8 list \<Rightarrow> (nat \<times> u8 list, 'i) gpt" where
  "source_read io offset buffer = (\<lambda>s.
     case im_read io (go_source s) offset buffer of
       Ok (n, filled, source) \<Rightarrow> Ok ((n, filled), s \<lparr> go_source := source \<rparr>)
     | Err e \<Rightarrow> Err e)"

text \<open>Writing a filled window back into the buffer it was borrowed from, which keeps its length.\<close>

definition put_window :: "'a list \<Rightarrow> nat \<Rightarrow> 'a list \<Rightarrow> 'a list" where
  "put_window xs i ys = take i xs @ take (length xs - i) ys @ drop (i + length ys) xs"

lemma length_put_window: "i \<le> length xs \<Longrightarrow> length (put_window xs i ys) = length xs"
  by (simp add: put_window_def)

function read_rest :: "world \<Rightarrow> 'i image_ops \<Rightarrow> u64 \<Rightarrow> string \<Rightarrow> nat \<Rightarrow> u8 list \<Rightarrow> (u8 list, 'i) gpt" where
  "read_rest w io offset action completed output =
     (if completed < length output then
        run_then (gpt_checkpoint w)
        (run_then (account_read_call action)
        (run_bind (run_ok_or (checked_add offset (word_of_nat completed)) (invalid_data ''GPT read offset overflowed''))
        (\<lambda>current. run_bind (run_ok_or (usize_checked_add completed (min READ_CHUNK_BYTES (length output - completed)))
          (invalid_data ''GPT read chunk overflowed''))
        (\<lambda>chunk_end. run_bind (source_read io current (take (chunk_end - completed) (drop completed output)))
        (\<lambda>(n, filled).
           if n = 0 then run_fail (GptError IoUnexpectedEof (''GPT image ended while '' @ action))
           else if n > chunk_end - completed
           then run_fail (invalid_data ''GPT image source returned an impossible read length'')
           else
             run_then (gpt_checkpoint w)
             (read_rest w io offset action (completed + n) (put_window output completed filled)))))))
      else run_return output)"
  by auto
termination
  by (relation "measure (\<lambda>(w, io, offset, action, completed, output). length output - completed)")
    (auto simp: length_put_window)

definition read_exact :: "world \<Rightarrow> 'i image_ops \<Rightarrow> u64 \<Rightarrow> u8 list \<Rightarrow> string \<Rightarrow> (u8 list, 'i) gpt" where
  "read_exact w io offset output action =
     run_then (gpt_checkpoint w)
     (run_then (account_read_bytes (length output) action)
     (read_rest w io offset action 0 output))"

declare read_rest.simps [simp del]

end
