(* ===== verification/Gpt_Table.thy ===== *)
theory Gpt_Table
  imports Gpt_Operation Ordered_Map
begin

text \<open>
  Authentication of one partition of a GUID partition table from an image
  (\<open>forge/src/linux_fs/gpt_partition_role.rs\<close> and its modules): GUIDs and their text, CRC-32, the protective
  MBR, the two headers, the two entry arrays, the selected entry, the comparison of two passes and the
  fingerprint of the table. SHA-256 is a parameter.
\<close>

unbundle bit_operations_syntax

section \<open>Constants\<close>

definition MIN_LOGICAL_BLOCK_SIZE :: u32 where "MIN_LOGICAL_BLOCK_SIZE = 512"

definition MAX_LOGICAL_BLOCK_SIZE :: u32 where "MAX_LOGICAL_BLOCK_SIZE = 65536"

definition PMBR_BYTES :: nat where "PMBR_BYTES = 512"

definition PMBR_ENTRY_OFFSET :: nat where "PMBR_ENTRY_OFFSET = 446"

definition PMBR_ENTRY_BYTES :: nat where "PMBR_ENTRY_BYTES = 16"

definition PMBR_SIGNATURE_OFFSET :: nat where "PMBR_SIGNATURE_OFFSET = 510"

definition GPT_SIGNATURE :: "u8 list" where "GPT_SIGNATURE = ascii ''EFI PART''"

definition GPT_REVISION_1_0 :: u32 where "GPT_REVISION_1_0 = 0x00010000"

definition GPT_HEADER_BYTES :: nat where "GPT_HEADER_BYTES = 92"

definition GPT_ENTRY_BYTES :: u32 where "GPT_ENTRY_BYTES = 128"

definition MIN_GPT_ENTRIES :: u32 where "MIN_GPT_ENTRIES = 128"

definition MAX_GPT_ENTRIES :: u32 where "MAX_GPT_ENTRIES = 4096"

definition MAX_ENTRY_ARRAY_BYTES :: nat where "MAX_ENTRY_ARRAY_BYTES = 512 * 1024"

definition ESP_TYPE_GUID :: "u8 list" where
  "ESP_TYPE_GUID = [0x28, 0x73, 0x2a, 0xc1, 0x1f, 0xf8, 0xd2, 0x11, 0xba, 0x4b, 0x00, 0xa0, 0xc9, 0x3e, 0xc9, 0x3b]"

definition XBOOTLDR_TYPE_GUID :: "u8 list" where
  "XBOOTLDR_TYPE_GUID = [0xff, 0xc2, 0x13, 0xbc, 0xe6, 0x59, 0x62, 0x42, 0xa3, 0x52, 0xb2, 0x75, 0xfd, 0x6f, 0x71, 0x72]"

section \<open>GUIDs\<close>

text \<open>A GUID is its sixteen bytes in the order of the disk.\<close>

type_synonym guid = "u8 list"

definition guid_zero :: guid where
  "guid_zero = replicate 16 0"

definition guid_from_disk_slice :: "u8 list \<Rightarrow> (guid, gpt_error) result" where
  "guid_from_disk_slice bytes =
     (if length bytes = 16 then Ok bytes else Err (invalid_data ''GPT GUID has an invalid width''))"

definition guid_is_zero :: "guid \<Rightarrow> bool" where
  "guid_is_zero g \<longleftrightarrow> list_all (\<lambda>byte. byte = 0) g"

abbreviation uuid_not_canonical :: gpt_error where
  "uuid_not_canonical \<equiv> invalid_input ''expected partition UUID is not canonical lowercase UUID text''"

definition hex_value :: "u8 \<Rightarrow> (u8, gpt_error) result" where
  "hex_value byte =
     (if 48 \<le> byte \<and> byte \<le> 57 then Ok (byte - 48)
      else if 97 \<le> byte \<and> byte \<le> 102 then Ok (byte - 97 + 10)
      else Err uuid_not_canonical)"

definition hexadecimal :: "u8 \<Rightarrow> u8" where
  "hexadecimal value = (if value < 10 then 48 + value else 97 + value - 10)"

definition guid_deadline :: "world \<Rightarrow> nat \<Rightarrow> (unit, nat, gpt_error) run" where
  "guid_deadline w deadline = (\<lambda>k.
     if now_at w k > deadline then Err (GptError IoTimedOut ''GPT GUID parsing exceeded its deadline'')
     else Ok ((), k + 1))"

definition run_result :: "('a, 'e) result \<Rightarrow> ('a, 's, 'e) run" where
  "run_result r = (case r of Ok x \<Rightarrow> run_return x | Err e \<Rightarrow> run_fail e)"

function parse_pairs :: "world \<Rightarrow> nat \<Rightarrow> u8 list \<Rightarrow> nat \<Rightarrow> nat \<Rightarrow> (u8 list, nat, gpt_error) run" where
  "parse_pairs w deadline bytes index stop =
     (if index < stop then
        run_then (guid_deadline w deadline)
        (run_bind (run_result (hex_value (bytes ! index)))
        (\<lambda>high. run_bind (run_result (hex_value (bytes ! (index + 1))))
        (\<lambda>low. run_bind (parse_pairs w deadline bytes (index + 2) stop)
        (\<lambda>rest. run_return ((push_bit 4 high OR low) # rest)))))
      else run_return [])"
  by auto
termination
  by (relation "measure (\<lambda>(w, deadline, bytes, index, stop). stop - index)") auto

declare parse_pairs.simps [simp del]

fun parse_groups :: "world \<Rightarrow> nat \<Rightarrow> u8 list \<Rightarrow> (nat \<times> nat) list \<Rightarrow> (u8 list, nat, gpt_error) run" where
  "parse_groups w deadline bytes [] = run_return []"
| "parse_groups w deadline bytes ((start, stop) # groups) =
     run_bind (parse_pairs w deadline bytes start stop)
     (\<lambda>front. run_bind (parse_groups w deadline bytes groups)
     (\<lambda>rest. run_return (front @ rest)))"

text \<open>The order of the bytes on disk and the order of the text differ in the first three groups.\<close>

definition swap_groups :: "'a list \<Rightarrow> 'a list" where
  "swap_groups b = [b ! 3, b ! 2, b ! 1, b ! 0, b ! 5, b ! 4, b ! 7, b ! 6, b ! 8, b ! 9, b ! 10, b ! 11, b ! 12,
     b ! 13, b ! 14, b ! 15]"

definition guid_parse_canonical :: "world \<Rightarrow> nat \<Rightarrow> u8 list \<Rightarrow> (guid, nat, gpt_error) run" where
  "guid_parse_canonical w deadline bytes =
     run_then (guid_deadline w deadline)
     (if length bytes \<noteq> 36 \<or> bytes ! 8 \<noteq> 45 \<or> bytes ! 13 \<noteq> 45 \<or> bytes ! 18 \<noteq> 45 \<or> bytes ! 23 \<noteq> 45
      then run_fail uuid_not_canonical
      else
        run_bind (parse_groups w deadline bytes [(0, 8), (9, 13), (14, 18), (19, 23), (24, 36)])
        (\<lambda>canonical. run_then (guid_deadline w deadline) (run_return (swap_groups canonical))))"

fun canonical_from :: "nat \<Rightarrow> u8 list \<Rightarrow> u8 list" where
  "canonical_from target [] = []"
| "canonical_from target (byte # bytes) =
     (let digits = [hexadecimal (drop_bit 4 byte), hexadecimal (byte AND 0x0f)]
      in if target = 8 \<or> target = 13 \<or> target = 18 \<or> target = 23
         then 45 # digits @ canonical_from (target + 3) bytes
         else digits @ canonical_from (target + 2) bytes)"

definition canonical_bytes :: "guid \<Rightarrow> u8 list" where
  "canonical_bytes g = canonical_from 0 (swap_groups g)"

section \<open>Integers and the checksum\<close>

definition from_le_bytes :: "u8 list \<Rightarrow> 'a::len word" where
  "from_le_bytes bytes = from_be_bytes (rev bytes)"

definition to_le_bytes :: "'a::len word \<Rightarrow> u8 list" where
  "to_le_bytes x = rev (to_be_bytes x)"

definition le_u32 :: "u8 list \<Rightarrow> (u32, gpt_error) result" where
  "le_u32 bytes =
     (if length bytes = 4 then Ok (from_le_bytes bytes) else Err (invalid_data ''GPT 32-bit field has an invalid width''))"

definition le_u64 :: "u8 list \<Rightarrow> (u64, gpt_error) result" where
  "le_u64 bytes =
     (if length bytes = 8 then Ok (from_le_bytes bytes) else Err (invalid_data ''GPT 64-bit field has an invalid width''))"

definition crc_bit :: "u32 \<Rightarrow> u32" where
  "crc_bit crc = drop_bit 1 crc XOR (0xedb88320 AND (0 - (crc AND 1)))"

definition crc_byte :: "u32 \<Rightarrow> u8 \<Rightarrow> u32" where
  "crc_byte crc byte = (crc_bit ^^ 8) (crc XOR ucast byte)"

fun crc32_from :: "world \<Rightarrow> nat \<Rightarrow> u8 list \<Rightarrow> u32 \<Rightarrow> (u32, 'i) gpt" where
  "crc32_from w index [] crc = run_return crc"
| "crc32_from w index (byte # bytes) crc =
     run_then (if index mod 4096 = 0 then gpt_checkpoint w else run_return ())
     (crc32_from w (index + 1) bytes (crc_byte crc byte))"

definition crc32 :: "world \<Rightarrow> u8 list \<Rightarrow> (u32, 'i) gpt" where
  "crc32 w bytes =
     run_then (charge_work w (length bytes) ''calculating GPT CRC32'')
     (run_bind (crc32_from w 0 bytes (- 1))
     (\<lambda>crc. run_then (gpt_checkpoint w) (run_return (NOT crc))))"

section \<open>Records\<close>

datatype gpt_partition_role = Esp | Xbootldr

fun role_type_guid :: "gpt_partition_role \<Rightarrow> guid" where
  "role_type_guid Esp = ESP_TYPE_GUID"
| "role_type_guid Xbootldr = XBOOTLDR_TYPE_GUID"

record selected_entry =
  se_partition_number :: u32
  se_role :: gpt_partition_role
  se_partition_uuid :: guid
  se_start_lba :: u64
  se_size_lba :: u64

record gpt_header =
  gh_current_lba :: u64
  gh_alternate_lba :: u64
  gh_first_usable_lba :: u64
  gh_last_usable_lba :: u64
  gh_disk_guid :: guid
  gh_entry_lba :: u64
  gh_entry_count :: u32
  gh_entry_bytes :: u32
  gh_entry_crc32 :: u32

record used_range =
  ur_start :: u64
  ur_end :: u64
  ur_index :: u32

record gpt_snapshot =
  gs_image_bytes :: u64
  gs_logical_block_size :: u32
  gs_pmbr_block :: "u8 list"
  gs_primary_header_block :: "u8 list"
  gs_backup_header_block :: "u8 list"
  gs_entry_array :: "u8 list"
  gs_selected :: selected_entry

section \<open>Blocks and regions\<close>

definition is_power_of_two :: "'a::len word \<Rightarrow> bool" where
  "is_power_of_two x \<longleftrightarrow> list_ex (\<lambda>k. unat x = 2 ^ k) [0..<LENGTH('a)]"

definition validate_logical_block_size :: "u32 \<Rightarrow> (nat, gpt_error) result" where
  "validate_logical_block_size value =
     (if value < MIN_LOGICAL_BLOCK_SIZE \<or> value > MAX_LOGICAL_BLOCK_SIZE \<or> \<not> is_power_of_two value
      then Err (invalid_input ''logical block size must be a power of two from 512 through 65536 bytes'')
      else Ok (unat value))"

definition sub_list :: "nat \<Rightarrow> nat \<Rightarrow> 'a list \<Rightarrow> 'a list" where
  "sub_list start stop xs = take (stop - start) (drop start xs)"

text \<open>The checks of the protective MBR after it is read; its block has at least 512 bytes, or an index panics.\<close>

definition check_pmbr :: "u64 \<Rightarrow> u8 list \<Rightarrow> (unit, gpt_error) result" where
  "check_pmbr total_lbas bytes =
     (if length bytes < PMBR_BYTES then Err GptPanic
      else if sub_list PMBR_SIGNATURE_OFFSET (PMBR_SIGNATURE_OFFSET + 2) bytes \<noteq> [0x55, 0xaa]
      then Err (invalid_data ''protective MBR signature is invalid'')
      else if list_ex (\<lambda>byte. byte \<noteq> 0) (sub_list 440 446 bytes)
      then Err (invalid_data ''protective MBR disk signature or reserved bytes are nonzero'')
      else if list_ex (\<lambda>byte. byte \<noteq> 0) (drop PMBR_BYTES bytes)
      then Err (invalid_data ''protective MBR logical-block padding is nonzero'')
      else
        let first = sub_list PMBR_ENTRY_OFFSET (PMBR_ENTRY_OFFSET + PMBR_ENTRY_BYTES) bytes;
            expected_size = (word_of_nat (min (unat total_lbas - 1) (2 ^ 32 - 1)) :: u32)
        in res_bind (le_u32 (sub_list 8 12 first)) (\<lambda>first_lba.
           if first ! 0 \<noteq> 0 \<or> sub_list 1 4 first \<noteq> [0x00, 0x02, 0x00] \<or> first ! 4 \<noteq> 0xee
              \<or> sub_list 5 8 first \<noteq> [0xff, 0xff, 0xff] \<or> first_lba \<noteq> 1
           then Err (invalid_data ''protective MBR entry is not the strict GPT protective entry'')
           else res_bind (le_u32 (sub_list 12 16 first)) (\<lambda>size.
           if size \<noteq> expected_size then Err (invalid_data ''protective MBR size does not cover the GPT image'')
           else if list_ex (\<lambda>index. let start = PMBR_ENTRY_OFFSET + index * PMBR_ENTRY_BYTES
                in list_ex (\<lambda>byte. byte \<noteq> 0) (sub_list start (start + PMBR_ENTRY_BYTES) bytes)) [1..<4]
           then Err (invalid_data ''protective MBR is hybrid rather than GPT-only'')
           else Ok ())))"

definition validate_pmbr :: "world \<Rightarrow> 'i image_ops \<Rightarrow> u64 \<Rightarrow> nat \<Rightarrow> (u8 list, 'i) gpt" where
  "validate_pmbr w io total_lbas block_bytes =
     run_bind (allocate_zeroed w block_bytes ''protective MBR logical-block buffer'')
     (\<lambda>buffer. run_bind (read_exact w io 0 buffer ''reading protective MBR'')
     (\<lambda>bytes. run_then (charge_work w (length bytes) ''validating protective MBR'')
     (run_then (run_result (check_pmbr total_lbas bytes))
     (run_then (gpt_checkpoint w)
     (run_return bytes)))))"

definition read_block :: "world \<Rightarrow> 'i image_ops \<Rightarrow> u64 \<Rightarrow> nat \<Rightarrow> string \<Rightarrow> (u8 list, 'i) gpt" where
  "read_block w io lba block_bytes action =
     run_bind (run_ok_or (checked_mul lba (word_of_nat block_bytes)) (invalid_data ''GPT block offset overflowed''))
     (\<lambda>offset. run_bind (allocate_zeroed w block_bytes ''GPT header block buffer'')
     (\<lambda>buffer. read_exact w io offset buffer action))"

definition read_region :: "world \<Rightarrow> 'i image_ops \<Rightarrow> u64 \<Rightarrow> nat \<Rightarrow> u64 \<Rightarrow> string \<Rightarrow> (u8 list, 'i) gpt" where
  "read_region w io lba bytes block_bytes action =
     run_bind (run_ok_or (checked_mul lba block_bytes) (invalid_data ''GPT entry-array offset overflowed''))
     (\<lambda>offset. run_bind (run_ok_or (checked_add offset (word_of_nat bytes)) (invalid_data ''GPT entry-array extent overflowed''))
     (\<lambda>stop. run_bind (source_length io)
     (\<lambda>image_bytes.
        if stop > image_bytes then run_fail (invalid_data ''GPT entry array extends beyond the image'')
        else
          run_bind (allocate_zeroed w bytes ''GPT entry-array buffer'')
          (\<lambda>buffer. read_exact w io offset buffer action))))"

section \<open>Headers\<close>

definition entry_array_bytes :: "u32 \<Rightarrow> u32 \<Rightarrow> (nat, gpt_error) result" where
  "entry_array_bytes count entry_bytes =
     res_bind (ok_or (checked_mul count entry_bytes) (invalid_data ''GPT entry-array byte count overflowed''))
     (\<lambda>bytes. if unat bytes > MAX_ENTRY_ARRAY_BYTES then Err (invalid_data ''GPT entry array exceeds the 512 KiB limit'')
              else Ok (unat bytes))"

definition div_ceil_u64 :: "u64 \<Rightarrow> u64 \<Rightarrow> (u64, gpt_error) result" where
  "div_ceil_u64 value divisor =
     (if divisor = 0 then Err (invalid_data ''GPT division uses a zero logical block size'')
      else ok_or (map_option (\<lambda>adjusted. adjusted div divisor) (checked_add value (divisor - 1)))
        (invalid_data ''GPT rounded block count overflowed''))"

text \<open>The checks before the checksum of a header; the value is the checksum it claims.\<close>

definition check_header_frame :: "u8 list \<Rightarrow> string \<Rightarrow> (u32, gpt_error) result" where
  "check_header_frame bytes label =
     (if sub_list 0 8 bytes \<noteq> GPT_SIGNATURE then Err (invalid_data (label @ '' signature is invalid''))
      else res_bind (le_u32 (sub_list 8 12 bytes)) (\<lambda>revision.
        if revision \<noteq> GPT_REVISION_1_0 then Err (invalid_data (label @ '' revision is not exactly 1.0''))
      else res_bind (le_u32 (sub_list 12 16 bytes)) (\<lambda>header_size.
        if header_size \<noteq> word_of_nat GPT_HEADER_BYTES then Err (invalid_data (label @ '' size is not exactly 92 bytes''))
      else res_bind (le_u32 (sub_list 20 24 bytes)) (\<lambda>reserved.
        if reserved \<noteq> 0 then Err (invalid_data (label @ '' reserved field is nonzero''))
      else if list_ex (\<lambda>byte. byte \<noteq> 0) (drop GPT_HEADER_BYTES bytes)
        then Err (invalid_data (label @ '' trailing reserved bytes are nonzero''))
      else le_u32 (sub_list 16 20 bytes)))))"

text \<open>The bytes a header's checksum covers: the header with its checksum field zeroed.\<close>

definition header_crc_bytes :: "u8 list \<Rightarrow> u8 list" where
  "header_crc_bytes bytes = take 16 bytes @ replicate 4 0 @ sub_list 20 GPT_HEADER_BYTES bytes"

definition header_fields :: "u8 list \<Rightarrow> string \<Rightarrow> (gpt_header, gpt_error) result" where
  "header_fields bytes label =
     res_bind (guid_from_disk_slice (sub_list 56 72 bytes)) (\<lambda>disk_guid.
       if guid_is_zero disk_guid then Err (invalid_data (label @ '' disk GUID is zero''))
     else res_bind (le_u32 (sub_list 80 84 bytes)) (\<lambda>entry_count.
       if \<not> (MIN_GPT_ENTRIES \<le> entry_count \<and> entry_count \<le> MAX_GPT_ENTRIES)
       then Err (invalid_data (label @ '' entry count is outside the strict 128 through 4096 range''))
     else res_bind (le_u32 (sub_list 84 88 bytes)) (\<lambda>entry_bytes.
       if entry_bytes \<noteq> GPT_ENTRY_BYTES then Err (invalid_data (label @ '' entry size is not exactly 128 bytes''))
     else res_bind (entry_array_bytes entry_count entry_bytes) (\<lambda>_.
       res_bind (le_u64 (sub_list 24 32 bytes)) (\<lambda>current_lba.
       res_bind (le_u64 (sub_list 32 40 bytes)) (\<lambda>alternate_lba.
       res_bind (le_u64 (sub_list 40 48 bytes)) (\<lambda>first_usable_lba.
       res_bind (le_u64 (sub_list 48 56 bytes)) (\<lambda>last_usable_lba.
       res_bind (le_u64 (sub_list 72 80 bytes)) (\<lambda>entry_lba.
       res_bind (le_u32 (sub_list 88 92 bytes)) (\<lambda>entry_crc32.
       Ok \<lparr> gh_current_lba = current_lba, gh_alternate_lba = alternate_lba, gh_first_usable_lba = first_usable_lba,
         gh_last_usable_lba = last_usable_lba, gh_disk_guid = disk_guid, gh_entry_lba = entry_lba,
         gh_entry_count = entry_count, gh_entry_bytes = entry_bytes, gh_entry_crc32 = entry_crc32 \<rparr>))))))))))"

definition parse_header :: "world \<Rightarrow> u8 list \<Rightarrow> string \<Rightarrow> (gpt_header, 'i) gpt" where
  "parse_header w bytes label =
     (if length bytes < GPT_HEADER_BYTES
      then run_fail (invalid_data ''GPT header block is shorter than the strict header'')
      else
        run_then (charge_work w (length bytes) ''validating GPT header block'')
        (run_bind (run_result (check_header_frame bytes label))
        (\<lambda>expected_crc. run_bind (crc32 w (header_crc_bytes bytes))
        (\<lambda>crc. if crc \<noteq> expected_crc then run_fail (invalid_data (label @ '' CRC32 does not match''))
                else run_result (header_fields bytes label)))))"

definition validate_header_pair :: "gpt_header \<Rightarrow> gpt_header \<Rightarrow> u64 \<Rightarrow> u64 \<Rightarrow> (unit, gpt_error) result" where
  "validate_header_pair primary backup last_lba block_bytes =
     (if gh_current_lba primary \<noteq> 1 \<or> gh_alternate_lba primary \<noteq> last_lba
      then Err (invalid_data ''primary GPT header locations are not canonical'')
      else if gh_current_lba backup \<noteq> last_lba \<or> gh_alternate_lba backup \<noteq> 1
      then Err (invalid_data ''backup GPT header locations are not canonical'')
      else if gh_first_usable_lba primary \<noteq> gh_first_usable_lba backup
        \<or> gh_last_usable_lba primary \<noteq> gh_last_usable_lba backup
        \<or> gh_disk_guid primary \<noteq> gh_disk_guid backup
        \<or> gh_entry_count primary \<noteq> gh_entry_count backup
        \<or> gh_entry_bytes primary \<noteq> gh_entry_bytes backup
        \<or> gh_entry_crc32 primary \<noteq> gh_entry_crc32 backup
      then Err (invalid_data ''primary and backup GPT headers disagree'')
      else if gh_first_usable_lba primary > gh_last_usable_lba primary
      then Err (invalid_data ''GPT usable-LBA range is reversed'')
      else if block_bytes = 0 then Err (invalid_data ''logical block size is zero'')
      else Ok ())"

definition validate_metadata_layout :: "gpt_header \<Rightarrow> gpt_header \<Rightarrow> u64 \<Rightarrow> u64 \<Rightarrow> (unit, gpt_error) result" where
  "validate_metadata_layout primary backup array_lbas last_lba =
     (if gh_entry_lba primary \<noteq> 2 then Err (invalid_data ''primary GPT entry array does not begin at LBA 2'')
      else res_bind (ok_or (checked_add (gh_entry_lba primary) array_lbas)
          (invalid_data ''primary GPT entry-array extent overflowed''))
      (\<lambda>primary_array_end.
      if last_lba < array_lbas then Err (invalid_data ''backup GPT entry-array location underflowed'')
      else if gh_entry_lba backup \<noteq> last_lba - array_lbas
      then Err (invalid_data ''backup GPT entry array is not immediately before its header'')
      else if gh_first_usable_lba primary < primary_array_end
      then Err (invalid_data ''GPT first usable LBA overlaps primary metadata'')
      else if gh_last_usable_lba primary \<ge> gh_entry_lba backup
      then Err (invalid_data ''GPT last usable LBA overlaps backup metadata'')
      else Ok ()))"

section \<open>Entries\<close>

definition RESERVED_ATTRIBUTE_BITS :: u64 where
  "RESERVED_ATTRIBUTE_BITS = (push_bit 48 1 - 1) AND NOT 7"

text \<open>
  The checks of one entry: nothing for an unused entry, otherwise its GUID, its range, and the selection when
  it is the expected partition.
\<close>

definition check_entry ::
  "gpt_header \<Rightarrow> u32 \<Rightarrow> guid \<Rightarrow> gpt_partition_role \<Rightarrow> nat \<Rightarrow> u8 list
     \<Rightarrow> ((guid \<times> used_range \<times> selected_entry option) option, gpt_error) result" where
  "check_entry header expected_number expected_uuid expected_role index entry =
     res_bind (guid_from_disk_slice (sub_list 0 16 entry)) (\<lambda>type_guid.
     if type_guid = guid_zero then
       (if list_ex (\<lambda>byte. byte \<noteq> 0) (drop 16 entry)
        then Err (invalid_data ''unused GPT entry contains nonzero fields'') else Ok None)
     else res_bind (guid_from_disk_slice (sub_list 16 32 entry)) (\<lambda>partition_uuid.
     if guid_is_zero partition_uuid then Err (invalid_data ''used GPT entry has a zero unique GUID'')
     else res_bind (le_u64 (sub_list 32 40 entry)) (\<lambda>first_lba.
     res_bind (le_u64 (sub_list 40 48 entry)) (\<lambda>last_lba.
     res_bind (le_u64 (sub_list 48 56 entry)) (\<lambda>attributes.
     if attributes AND RESERVED_ATTRIBUTE_BITS \<noteq> 0
     then Err (invalid_data ''used GPT entry has nonzero reserved attribute bits'')
     else if first_lba > last_lba then Err (invalid_data ''used GPT entry has a reversed LBA range'')
     else if first_lba < gh_first_usable_lba header \<or> last_lba > gh_last_usable_lba header
     then Err (invalid_data ''used GPT entry lies outside the usable-LBA range'')
     else if index + 1 \<ge> 2 ^ 32 then Err (invalid_data ''GPT partition number is not representable'')
     else
       let number = (word_of_nat (index + 1) :: u32);
           used = \<lparr> ur_start = first_lba, ur_end = last_lba, ur_index = number \<rparr>
       in if number \<noteq> expected_number then Ok (Some (partition_uuid, used, None))
          else if partition_uuid \<noteq> expected_uuid
          then Err (invalid_data ''selected GPT entry unique GUID does not match PARTUUID'')
          else if type_guid \<noteq> role_type_guid expected_role
          then Err (invalid_data ''selected GPT entry has the wrong boot partition role'')
          else res_bind (ok_or (checked_add (last_lba - first_lba) 1) (invalid_data ''selected GPT entry size overflowed''))
            (\<lambda>size_lba. Ok (Some (partition_uuid, used, Some \<lparr> se_partition_number = number, se_role = expected_role,
               se_partition_uuid = partition_uuid, se_start_lba = first_lba, se_size_lba = size_lba \<rparr>))))))))"

fun scan_gpt_entries ::
  "world \<Rightarrow> gpt_header \<Rightarrow> u32 \<Rightarrow> guid \<Rightarrow> gpt_partition_role \<Rightarrow> u8 list \<Rightarrow> nat \<Rightarrow> nat
     \<Rightarrow> guid list \<Rightarrow> used_range list \<Rightarrow> selected_entry option
     \<Rightarrow> (guid list \<times> used_range list \<times> selected_entry option, 'i) gpt" where
  "scan_gpt_entries w header number uuid role bytes 0 index guids ranges selected = run_return (guids, ranges, selected)"
| "scan_gpt_entries w header number uuid role bytes (Suc left) index guids ranges selected =
     run_then (if index mod 128 = 0 then gpt_checkpoint w else run_return ())
     (run_then (charge_work w (unat GPT_ENTRY_BYTES) ''validating GPT entry'')
     (let start = index * unat GPT_ENTRY_BYTES
      in if start > usize_max then run_fail (invalid_data ''GPT entry offset overflowed'')
         else if start + unat GPT_ENTRY_BYTES > length bytes then run_fail GptPanic
         else
           run_bind (run_result (check_entry header number uuid role index
             (sub_list start (start + unat GPT_ENTRY_BYTES) bytes)))
           (\<lambda>outcome. case outcome of
              None \<Rightarrow> scan_gpt_entries w header number uuid role bytes left (index + 1) guids ranges selected
            | Some (guid, used, choice) \<Rightarrow>
                scan_gpt_entries w header number uuid role bytes left (index + 1) (guids @ [guid]) (ranges @ [used])
                  (case choice of None \<Rightarrow> selected | Some entry \<Rightarrow> Some entry))))"

text \<open>Whether two neighbours are related, in the order of \<open>windows(2)\<close>.\<close>

fun neighbours :: "('a \<Rightarrow> 'a \<Rightarrow> bool) \<Rightarrow> 'a list \<Rightarrow> bool" where
  "neighbours P (x # y # xs) \<longleftrightarrow> P x y \<or> neighbours P (y # xs)"
| "neighbours P xs \<longleftrightarrow> False"

text \<open>The sizes of a GUID and of a used range in memory.\<close>

definition SIZE_OF_GUID :: nat where "SIZE_OF_GUID = 16"

definition SIZE_OF_USED_RANGE :: nat where "SIZE_OF_USED_RANGE = 24"

definition validate_entries ::
  "world \<Rightarrow> u8 list \<Rightarrow> gpt_header \<Rightarrow> u32 \<Rightarrow> guid \<Rightarrow> gpt_partition_role \<Rightarrow> (selected_entry, 'i) gpt" where
  "validate_entries w bytes header expected_number expected_uuid expected_role =
     (let count = unat (gh_entry_count header) in
      run_then (reserve_items w SIZE_OF_GUID count ''used GPT GUID index'')
      (run_then (reserve_items w SIZE_OF_USED_RANGE count ''used GPT range index'')
      (run_bind (scan_gpt_entries w header expected_number expected_uuid expected_role bytes count 0 [] [] None)
      (\<lambda>(guids, ranges, selected).
         if count * 64 > usize_max then run_fail (invalid_data ''GPT sort work accounting overflowed'')
         else
           run_then (charge_work w (count * 64) ''bounding GPT uniqueness and overlap sorts'')
           (if neighbours (=) (sort guids) then run_fail (invalid_data ''used GPT entries repeat a unique GUID'')
            else if neighbours (\<lambda>a b. ur_start b \<le> ur_end a)
              (sort_key (\<lambda>used. (ur_start used, ur_end used, ur_index used)) ranges)
            then run_fail (invalid_data ''used GPT entries overlap'')
            else
              run_then (gpt_checkpoint w)
              (run_ok_or selected (invalid_data ''selected GPT partition entry is unused'')))))))"

section \<open>One pass\<close>

text \<open>The part of a pass after the headers are read and agree.\<close>

definition authenticate_entries ::
  "world \<Rightarrow> 'i image_ops \<Rightarrow> nat \<Rightarrow> u64 \<Rightarrow> gpt_header \<Rightarrow> gpt_header \<Rightarrow> u32 \<Rightarrow> guid \<Rightarrow> gpt_partition_role
     \<Rightarrow> (u8 list \<times> selected_entry, 'i) gpt" where
  "authenticate_entries w io block_bytes last_lba primary backup expected_number expected_uuid expected_role =
     (let block_bytes_u64 = (word_of_nat block_bytes :: u64) in
      if expected_number > gh_entry_count primary
      then run_fail (invalid_input ''expected GPT partition number exceeds the entry array'')
      else run_bind (run_result (entry_array_bytes (gh_entry_count primary) (gh_entry_bytes primary)))
      (\<lambda>array_bytes.
         if (word_of_nat array_bytes :: u64) mod block_bytes_u64 \<noteq> 0
         then run_fail (invalid_data ''GPT entry-array byte length is not aligned to the logical block size'')
         else
           run_bind (run_result (div_ceil_u64 (word_of_nat array_bytes) block_bytes_u64))
           (\<lambda>array_lbas. run_then (run_result (validate_metadata_layout primary backup array_lbas last_lba))
           (run_bind (read_region w io (gh_entry_lba primary) array_bytes block_bytes_u64 ''reading primary GPT entry array'')
           (\<lambda>primary_array. run_bind (read_region w io (gh_entry_lba backup) array_bytes block_bytes_u64
               ''reading backup GPT entry array'')
           (\<lambda>backup_array. run_bind (crc32 w primary_array)
           (\<lambda>primary_crc.
              if primary_crc \<noteq> gh_entry_crc32 primary
              then run_fail (invalid_data ''primary GPT entry-array CRC32 does not match'')
              else run_bind (crc32 w backup_array)
           (\<lambda>backup_crc.
              if backup_crc \<noteq> gh_entry_crc32 backup
              then run_fail (invalid_data ''backup GPT entry-array CRC32 does not match'')
              else run_then (charge_work w array_bytes ''comparing redundant GPT entry arrays'')
             (if primary_array \<noteq> backup_array
              then run_fail (invalid_data ''primary and backup GPT entry arrays disagree'')
              else run_bind (validate_entries w primary_array primary expected_number expected_uuid expected_role)
           (\<lambda>selected. run_return (primary_array, selected)))))))))))"

definition authenticate_with_operation ::
  "world \<Rightarrow> 'i image_ops \<Rightarrow> u32 \<Rightarrow> u32 \<Rightarrow> guid \<Rightarrow> gpt_partition_role \<Rightarrow> (gpt_snapshot, 'i) gpt" where
  "authenticate_with_operation w io logical_block_size expected_number expected_uuid expected_role =
     run_then (gpt_checkpoint w)
     (run_bind (run_result (validate_logical_block_size logical_block_size))
     (\<lambda>block_bytes.
        if expected_number = 0 then run_fail (invalid_input ''expected GPT partition number must be positive'')
        else if guid_is_zero expected_uuid then run_fail (invalid_input ''expected GPT partition UUID must be nonzero'')
        else run_bind (source_length io)
     (\<lambda>image_bytes. let block_bytes_u64 = (word_of_nat block_bytes :: u64); total_lbas = image_bytes div block_bytes_u64 in
        if image_bytes mod block_bytes_u64 \<noteq> 0
        then run_fail (invalid_data ''GPT image length is not a whole number of logical blocks'')
        else if total_lbas < 6
        then run_fail (invalid_data ''GPT image is too small for redundant metadata and usable space'')
        else let last_lba = total_lbas - 1 in
     run_bind (validate_pmbr w io total_lbas block_bytes)
     (\<lambda>pmbr_bytes. run_bind (read_block w io 1 block_bytes ''reading primary GPT header'')
     (\<lambda>primary_bytes. run_bind (read_block w io last_lba block_bytes ''reading backup GPT header'')
     (\<lambda>backup_bytes. run_bind (parse_header w primary_bytes ''primary GPT header'')
     (\<lambda>primary. run_bind (parse_header w backup_bytes ''backup GPT header'')
     (\<lambda>backup. run_then (run_result (validate_header_pair primary backup last_lba block_bytes_u64))
     (run_bind (authenticate_entries w io block_bytes last_lba primary backup expected_number expected_uuid expected_role)
     (\<lambda>(primary_array, selected). run_then (gpt_checkpoint w)
     (run_return \<lparr> gs_image_bytes = image_bytes, gs_logical_block_size = logical_block_size, gs_pmbr_block = pmbr_bytes,
        gs_primary_header_block = primary_bytes, gs_backup_header_block = backup_bytes, gs_entry_array = primary_array,
        gs_selected = selected \<rparr>)))))))))))"

section \<open>Comparing two passes and the fingerprint\<close>

function list_chunks :: "nat \<Rightarrow> 'a list \<Rightarrow> 'a list list" where
  "list_chunks n xs = (if n = 0 \<or> xs = [] then [] else take n xs # list_chunks n (drop n xs))"
  by auto
termination
  by (relation "measure (\<lambda>(n, xs). length xs)") auto

declare list_chunks.simps [simp del]

abbreviation gpt_changed :: gpt_error where
  "gpt_changed \<equiv> invalid_data ''GPT table changed between authenticated passes''"

fun compare_chunks :: "world \<Rightarrow> (u8 list \<times> u8 list) list \<Rightarrow> (unit, 'i) gpt" where
  "compare_chunks w [] = run_return ()"
| "compare_chunks w ((left, right) # rest) =
     run_then (charge_work w (length left) ''comparing complete GPT table snapshots'')
     (if left \<noteq> right then run_fail gpt_changed else compare_chunks w rest)"

fun compare_parts :: "world \<Rightarrow> (u8 list \<times> u8 list) list \<Rightarrow> (unit, 'i) gpt" where
  "compare_parts w [] = run_return ()"
| "compare_parts w ((first, second) # rest) =
     (if length first \<noteq> length second then run_fail gpt_changed
      else run_then (compare_chunks w (zip (list_chunks (64 * 1024) first) (list_chunks (64 * 1024) second)))
        (compare_parts w rest))"

definition require_exact_match :: "world \<Rightarrow> gpt_snapshot \<Rightarrow> gpt_snapshot \<Rightarrow> (unit, 'i) gpt" where
  "require_exact_match w self other =
     run_then (charge_work w 1 ''comparing GPT snapshot scalar fields'')
     (if gs_image_bytes self \<noteq> gs_image_bytes other \<or> gs_logical_block_size self \<noteq> gs_logical_block_size other
         \<or> gs_selected self \<noteq> gs_selected other
      then run_fail gpt_changed
      else
        run_then (compare_parts w [(gs_pmbr_block self, gs_pmbr_block other),
          (gs_primary_header_block self, gs_primary_header_block other),
          (gs_backup_header_block self, gs_backup_header_block other), (gs_entry_array self, gs_entry_array other)])
        (gpt_checkpoint w))"

definition TABLE_FINGERPRINT_DOMAIN :: "u8 list" where
  "TABLE_FINGERPRINT_DOMAIN = ascii ''os-tools/forge/authenticated-gpt-table/v1'' @ [0]"

definition HASH_CHUNK_BYTES :: nat where
  "HASH_CHUNK_BYTES = 64 * 1024"

text \<open>A hasher is the bytes it was given so far.\<close>

fun hash_chunks :: "world \<Rightarrow> u8 list list \<Rightarrow> u8 list \<Rightarrow> (u8 list, 'i) gpt" where
  "hash_chunks w [] hasher = run_return hasher"
| "hash_chunks w (chunk # chunks) hasher =
     run_then (charge_work w (length chunk) ''hashing the complete GPT table snapshot'')
     (hash_chunks w chunks (hasher @ chunk))"

definition update_field :: "world \<Rightarrow> u8 list \<Rightarrow> u8 list \<Rightarrow> u8 list \<Rightarrow> (u8 list, 'i) gpt" where
  "update_field w name bytes hasher =
     run_bind (run_ok_or (usize_checked_add (length name) 16) (invalid_data ''GPT fingerprint framing work overflowed''))
     (\<lambda>work. run_then (charge_work w work ''framing the GPT table fingerprint'')
     (hash_chunks w (list_chunks HASH_CHUNK_BYTES bytes)
        (hasher @ to_le_bytes (word_of_nat (length name) :: u64) @ name @ to_le_bytes (word_of_nat (length bytes) :: u64))))"

definition table_sha256 :: "world \<Rightarrow> (u8 list \<Rightarrow> u8 list) \<Rightarrow> gpt_snapshot \<Rightarrow> (u8 list, 'i) gpt" where
  "table_sha256 w sha256 snapshot =
     run_bind (update_field w (ascii ''domain'') TABLE_FINGERPRINT_DOMAIN [])
     (\<lambda>hasher. run_bind (update_field w (ascii ''image-bytes'') (to_le_bytes (gs_image_bytes snapshot)) hasher)
     (\<lambda>hasher. run_bind (update_field w (ascii ''logical-block-size'') (to_le_bytes (gs_logical_block_size snapshot)) hasher)
     (\<lambda>hasher. run_bind (update_field w (ascii ''pmbr-block'') (gs_pmbr_block snapshot) hasher)
     (\<lambda>hasher. run_bind (update_field w (ascii ''primary-header-block'') (gs_primary_header_block snapshot) hasher)
     (\<lambda>hasher. run_bind (update_field w (ascii ''backup-header-block'') (gs_backup_header_block snapshot) hasher)
     (\<lambda>hasher. run_bind (update_field w (ascii ''entry-array'') (gs_entry_array snapshot) hasher)
     (\<lambda>hasher. run_then (gpt_checkpoint w) (run_return (sha256 hasher)))))))))"

section \<open>Two passes\<close>

record stable_selected_entry =
  ss_selected :: selected_entry
  ss_logical_block_size :: u32
  ss_image_bytes :: u64
  ss_table_sha256 :: "u8 list"

text \<open>
  The caller's work between the passes is a parameter: from the deadline and the questions asked so far to the
  questions asked after it, or an error.
\<close>

type_synonym interpass = "nat \<Rightarrow> nat \<Rightarrow> (nat, gpt_error) result"

definition run_interpass :: "interpass \<Rightarrow> (unit, 'i) gpt" where
  "run_interpass interpass = (\<lambda>s. case interpass (go_deadline s) (go_asked s) of
      Ok k \<Rightarrow> Ok ((), s \<lparr> go_asked := k \<rparr>) | Err e \<Rightarrow> Err e)"

definition switch_source :: "'i \<Rightarrow> (unit, 'i) gpt" where
  "switch_source source = (\<lambda>s. Ok ((), s \<lparr> go_source := source \<rparr>))"

definition authenticate_passes ::
  "world \<Rightarrow> (u8 list \<Rightarrow> u8 list) \<Rightarrow> 'i image_ops \<Rightarrow> 'i \<Rightarrow> u32 \<Rightarrow> u32 \<Rightarrow> guid \<Rightarrow> gpt_partition_role \<Rightarrow> interpass
     \<Rightarrow> (stable_selected_entry, 'i) gpt" where
  "authenticate_passes w sha256 io second_source logical_block_size expected_number expected_uuid expected_role interpass =
     run_bind (authenticate_with_operation w io logical_block_size expected_number expected_uuid expected_role)
     (\<lambda>first. run_then (gpt_checkpoint w)
     (run_then (run_interpass interpass)
     (run_then (gpt_checkpoint w)
     (run_then (switch_source second_source)
     (run_bind (authenticate_with_operation w io logical_block_size expected_number expected_uuid expected_role)
     (\<lambda>second. run_then (require_exact_match w first second)
     (run_bind (table_sha256 w sha256 first)
     (\<lambda>digest. run_then (gpt_checkpoint w)
     (run_return \<lparr> ss_selected = gs_selected first, ss_logical_block_size = gs_logical_block_size first,
        ss_image_bytes = gs_image_bytes first, ss_table_sha256 = digest \<rparr>)))))))))"

definition authenticate_with_interpass_until ::
  "world \<Rightarrow> (u8 list \<Rightarrow> u8 list) \<Rightarrow> 'i image_ops \<Rightarrow> 'i \<Rightarrow> 'i \<Rightarrow> u32 \<Rightarrow> u32 \<Rightarrow> guid \<Rightarrow> gpt_partition_role \<Rightarrow> gpt_limits
     \<Rightarrow> nat \<Rightarrow> interpass \<Rightarrow> nat \<Rightarrow> (stable_selected_entry, gpt_error) result" where
  "authenticate_with_interpass_until w sha256 io first_source second_source logical_block_size expected_number
       expected_uuid expected_role limits deadline interpass k =
     res_bind (gpt_operation_new w limits deadline first_source k)
     (\<lambda>operation. res_bind (authenticate_passes w sha256 io second_source logical_block_size expected_number
         expected_uuid expected_role interpass operation)
     (\<lambda>(authenticated, _). Ok authenticated))"

section \<open>The authenticated role\<close>

record validated_gpt_role =
  vr_role :: gpt_partition_role
  vr_partition_number :: u32
  vr_partition_uuid :: "u8 list"
  vr_start_lba :: u64
  vr_size_lba :: u64
  vr_logical_block_size :: u32
  vr_image_bytes :: u64
  vr_table_sha256 :: "u8 list"

definition validated_from_stable :: "stable_selected_entry \<Rightarrow> validated_gpt_role" where
  "validated_from_stable authenticated =
     (let selected = ss_selected authenticated in
      \<lparr> vr_role = se_role selected, vr_partition_number = se_partition_number selected,
        vr_partition_uuid = canonical_bytes (se_partition_uuid selected), vr_start_lba = se_start_lba selected,
        vr_size_lba = se_size_lba selected, vr_logical_block_size = ss_logical_block_size authenticated,
        vr_image_bytes = ss_image_bytes authenticated, vr_table_sha256 = ss_table_sha256 authenticated \<rparr>)"

definition authenticate_gpt_partition_role_sources_with_interpass_until ::
  "world \<Rightarrow> (u8 list \<Rightarrow> u8 list) \<Rightarrow> 'i image_ops \<Rightarrow> 'i \<Rightarrow> 'i \<Rightarrow> u32 \<Rightarrow> u32 \<Rightarrow> u8 list \<Rightarrow> gpt_partition_role \<Rightarrow> nat
     \<Rightarrow> interpass \<Rightarrow> nat \<Rightarrow> (validated_gpt_role, gpt_error) result" where
  "authenticate_gpt_partition_role_sources_with_interpass_until w sha256 io first_source second_source logical_block_size
       expected_number expected_uuid expected_role deadline interpass k =
     res_bind (guid_parse_canonical w deadline expected_uuid k)
     (\<lambda>(uuid, k). res_bind (authenticate_with_interpass_until w sha256 io first_source second_source logical_block_size
         expected_number uuid expected_role gpt_limits_production deadline interpass k)
     (\<lambda>authenticated. Ok (validated_from_stable authenticated)))"

definition authenticate_gpt_partition_role_sources_until ::
  "world \<Rightarrow> (u8 list \<Rightarrow> u8 list) \<Rightarrow> 'i image_ops \<Rightarrow> 'i \<Rightarrow> 'i \<Rightarrow> u32 \<Rightarrow> u32 \<Rightarrow> u8 list \<Rightarrow> gpt_partition_role \<Rightarrow> nat
     \<Rightarrow> nat \<Rightarrow> (validated_gpt_role, gpt_error) result" where
  "authenticate_gpt_partition_role_sources_until w sha256 io first_source second_source logical_block_size
       expected_number expected_uuid expected_role deadline k =
     authenticate_gpt_partition_role_sources_with_interpass_until w sha256 io first_source second_source
       logical_block_size expected_number expected_uuid expected_role deadline (\<lambda>deadline k. Ok k) k"

definition authenticate_gpt_partition_role_image_until ::
  "world \<Rightarrow> (u8 list \<Rightarrow> u8 list) \<Rightarrow> u8 list \<Rightarrow> u32 \<Rightarrow> u32 \<Rightarrow> u8 list \<Rightarrow> gpt_partition_role \<Rightarrow> nat \<Rightarrow> nat
     \<Rightarrow> (validated_gpt_role, gpt_error) result" where
  "authenticate_gpt_partition_role_image_until w sha256 bytes logical_block_size expected_number expected_uuid
       expected_role deadline k =
     authenticate_gpt_partition_role_sources_until w sha256 slice_image bytes bytes logical_block_size expected_number
       expected_uuid expected_role deadline k"

end
