(* ===== verification/Gpt_Ledger.thy ===== *)
theory Gpt_Ledger
  imports Gpt_Table
begin

text \<open>
  What a computation of GPT authentication returns, up to lack of time and memory, and how much of the ledger
  it uses. The image is any source that delivers the bytes of one image; a byte slice is one.
\<close>

text \<open>A refusal of the input, as opposed to lack of time or memory.\<close>

definition refusal :: "gpt_error \<Rightarrow> bool" where
  "refusal e \<longleftrightarrow> (\<exists>m. e = invalid_data m \<or> e = invalid_input m)"

definition late_or_starved :: "world \<Rightarrow> nat \<Rightarrow> gpt_error \<Rightarrow> bool" where
  "late_or_starved w deadline e \<longleftrightarrow>
     (\<exists>m. e = GptError IoTimedOut m) \<and> (\<exists>k. now_at w k > deadline)
     \<or> (\<exists>m. e = GptError IoOtherKind m) \<and> (\<exists>k n. \<not> grants w k n)"

lemma refusals [simp]: "refusal (invalid_data m)" "refusal (invalid_input m)"
  by (auto simp: refusal_def)

text \<open>The ledger is a production ledger with room for so many bytes, calls, units of work and allocated bytes.\<close>

definition room :: "nat \<Rightarrow> nat \<Rightarrow> nat \<Rightarrow> nat \<Rightarrow> 'i gpt_operation \<Rightarrow> bool" where
  "room a b c d s \<longleftrightarrow> go_limits s = gpt_limits_production \<and> go_read_bytes s + a \<le> MAX_READ_BYTES
     \<and> go_read_calls s + b \<le> MAX_READ_CALLS \<and> go_work s + c \<le> MAX_WORK \<and> go_allocations s + d \<le> MAX_ALLOCATION_BYTES"

definition used_within :: "nat \<Rightarrow> nat \<Rightarrow> nat \<Rightarrow> nat \<Rightarrow> 'i gpt_operation \<Rightarrow> 'i gpt_operation \<Rightarrow> bool" where
  "used_within a b c d s s' \<longleftrightarrow> go_limits s' = go_limits s \<and> go_deadline s' = go_deadline s
     \<and> go_read_bytes s' \<le> go_read_bytes s + a \<and> go_read_calls s' \<le> go_read_calls s + b \<and> go_work s' \<le> go_work s + c
     \<and> go_allocations s' \<le> go_allocations s + d"

lemma room_then: "room (a + a') (b + b') (c + c') (d + d') s \<Longrightarrow> used_within a b c d s s' \<Longrightarrow> room a' b' c' d' s'"
  by (auto simp: room_def used_within_def)

lemma room_less: "room a' b' c' d' s \<Longrightarrow> a \<le> a' \<Longrightarrow> b \<le> b' \<Longrightarrow> c \<le> c' \<Longrightarrow> d \<le> d' \<Longrightarrow> room a b c d s"
  by (auto simp: room_def)

lemma used_within_trans:
  "used_within a b c d s s' \<Longrightarrow> used_within a' b' c' d' s' s'' \<Longrightarrow> used_within (a + a') (b + b') (c + c') (d + d') s s''"
  by (auto simp: used_within_def)

lemma used_within_less:
  "used_within a b c d s s' \<Longrightarrow> a \<le> a' \<Longrightarrow> b \<le> b' \<Longrightarrow> c \<le> c' \<Longrightarrow> d \<le> d' \<Longrightarrow> used_within a' b' c' d' s s'"
  by (auto simp: used_within_def)

fun result_option :: "('a, 'e) result \<Rightarrow> 'a option" where
  "result_option (Ok x) = Some x"
| "result_option (Err e) = None"

section \<open>Sources of an image\<close>

locale image_source =
  fixes w :: world and io :: "'i image_ops" and delivers :: "'i \<Rightarrow> u8 list \<Rightarrow> bool"
  assumes length_delivered: "delivers source bytes \<Longrightarrow> length bytes < 2 ^ 64 \<and> im_length io source = word_of_nat (length bytes)"
    and read_delivered: "delivers source bytes \<Longrightarrow> unat offset < length bytes \<Longrightarrow> buffer \<noteq> [] \<Longrightarrow>
      n = min (length buffer) (length bytes - unat offset) \<Longrightarrow>
      \<exists>source'. delivers source' bytes
        \<and> im_read io source offset buffer = Ok (n, take n (drop (unat offset) bytes) @ drop n buffer, source')"
begin

text \<open>
  \<open>m\<close> computes \<open>r\<close> on an image within the given use of the ledger; \<open>None\<close> is a refusal.
\<close>

definition computes :: "u8 list \<Rightarrow> ('a, 'i) gpt \<Rightarrow> nat \<Rightarrow> nat \<Rightarrow> nat \<Rightarrow> nat \<Rightarrow> 'a option \<Rightarrow> bool" where
  "computes bytes m a b c d r \<longleftrightarrow>
     (\<forall>s. delivers (go_source s) bytes \<longrightarrow> room a b c d s \<longrightarrow>
        (case m s of
           Ok (x, s') \<Rightarrow> r = Some x \<and> delivers (go_source s') bytes \<and> used_within a b c d s s'
         | Err e \<Rightarrow> late_or_starved w (go_deadline s) e \<or> refusal e \<and> r = None))"

lemma computes_bind:
  assumes m: "computes bytes m a b c d r" and f: "\<And>x. r = Some x \<Longrightarrow> computes bytes (f x) a' b' c' d' (g x)"
  shows "computes bytes (run_bind m f) (a + a') (b + b') (c + c') (d + d') (Option.bind r g)"
  unfolding computes_def
proof (intro allI impI)
  fix s :: "'i gpt_operation"
  assume s: "delivers (go_source s) bytes" and big: "room (a + a') (b + b') (c + c') (d + d') s"
  have ms: "case m s of Ok (x, s') \<Rightarrow> r = Some x \<and> delivers (go_source s') bytes \<and> used_within a b c d s s'
      | Err e \<Rightarrow> late_or_starved w (go_deadline s) e \<or> refusal e \<and> r = None"
    using m s room_less [OF big] by (simp add: computes_def)
  show "case run_bind m f s of
      Ok (x, s') \<Rightarrow> Option.bind r g = Some x \<and> delivers (go_source s') bytes
        \<and> used_within (a + a') (b + b') (c + c') (d + d') s s'
    | Err e \<Rightarrow> late_or_starved w (go_deadline s) e \<or> refusal e \<and> Option.bind r g = None"
  proof (cases "m s")
    case (Err e)
    then show ?thesis using ms by (auto simp: run_bind_apply)
  next
    case (Ok xs)
    obtain x s' where xs: "xs = (x, s')" by (cases xs)
    have x: "r = Some x" and s': "delivers (go_source s') bytes" and within: "used_within a b c d s s'"
      using ms by (simp_all add: Ok xs)
    have "case f x s' of Ok (y, s'') \<Rightarrow> g x = Some y \<and> delivers (go_source s'') bytes \<and> used_within a' b' c' d' s' s''
        | Err e \<Rightarrow> late_or_starved w (go_deadline s') e \<or> refusal e \<and> g x = None"
      using f [OF x] s' room_then [OF big within] by (simp add: computes_def)
    moreover have "go_deadline s' = go_deadline s" using within by (simp add: used_within_def)
    ultimately show ?thesis
      by (cases "f x s'") (auto simp: run_bind_apply Ok xs x used_within_trans [OF within] split: prod.splits)
  qed
qed

lemma computes_then:
  assumes "computes bytes m a b c d r" and "\<And>x. r = Some x \<Longrightarrow> computes bytes k a' b' c' d' q"
  shows "computes bytes (run_then m k) (a + a') (b + b') (c + c') (d + d') (Option.bind r (\<lambda>_. q))"
  unfolding run_then_def using assms by (rule computes_bind)

lemma computes_bind_Some:
  assumes "computes bytes m a b c d (Some x)" and "computes bytes (f x) a' b' c' d' r"
  shows "computes bytes (run_bind m f) (a + a') (b + b') (c + c') (d + d') r"
  using computes_bind [OF assms(1), of f a' b' c' d' "\<lambda>_. r"] assms(2) by simp

lemma computes_then_Some:
  assumes "computes bytes m a b c d (Some x)" and "computes bytes k a' b' c' d' r"
  shows "computes bytes (run_then m k) (a + a') (b + b') (c + c') (d + d') r"
  unfolding run_then_def using assms by (rule computes_bind_Some)

lemma computes_weaken:
  assumes m: "computes bytes m a b c d r" and le: "a \<le> a'" "b \<le> b'" "c \<le> c'" "d \<le> d'" and r: "r = r'"
  shows "computes bytes m a' b' c' d' r'"
  unfolding computes_def
proof (intro allI impI)
  fix s :: "'i gpt_operation"
  assume "delivers (go_source s) bytes" "room a' b' c' d' s"
  then show "case m s of Ok (x, s') \<Rightarrow> r' = Some x \<and> delivers (go_source s') bytes \<and> used_within a' b' c' d' s s'
      | Err e \<Rightarrow> late_or_starved w (go_deadline s) e \<or> refusal e \<and> r' = None"
    using m room_less [OF _ le] used_within_less [OF _ le] unfolding computes_def r
    by (cases "m s") (fastforce split: prod.splits)+
qed

lemma computes_return: "computes bytes (run_return x) 0 0 0 0 (Some x)"
  by (simp add: computes_def run_return_def used_within_def)

lemma computes_fail: "refusal e \<Longrightarrow> computes bytes (run_fail e) a b c d None"
  by (simp add: computes_def run_fail_def)

lemma computes_result:
  "(\<And>e. v = Err e \<Longrightarrow> refusal e) \<Longrightarrow> computes bytes (run_result v) 0 0 0 0 (result_option v)"
  by (cases v) (simp_all add: run_result_def computes_return computes_fail)

lemma computes_ok_or: "refusal e \<Longrightarrow> computes bytes (run_ok_or v e) 0 0 0 0 v"
  by (cases v) (simp_all add: run_ok_or_def computes_return computes_fail)

lemma computes_checkpoint: "computes bytes (gpt_checkpoint w) 0 0 0 0 (Some ())"
  by (auto simp: computes_def gpt_checkpoint_def late_or_starved_def used_within_def)

lemma computes_if_fail:
  "refusal e \<Longrightarrow> (\<not> p \<Longrightarrow> computes bytes m a b c d r) \<Longrightarrow>
   computes bytes (if p then run_fail e else m) a b c d (if p then None else r)"
  by (cases p) (simp_all add: computes_fail)

lemma computes_length: "computes bytes (source_length io) 0 0 0 0 (Some (word_of_nat (length bytes)))"
  using length_delivered by (auto simp: computes_def source_length_def used_within_def)

lemma computes_account:
  "computes bytes (account_work n action) 0 0 n 0 (Some ())"
  "computes bytes (account_allocation n action) 0 0 0 n (Some ())"
  "computes bytes (account_read_bytes n action) n 0 0 0 (Some ())"
  "computes bytes (account_read_call action) 0 1 0 0 (Some ())"
  by (auto simp: computes_def account_work_def account_allocation_def account_read_bytes_def account_read_call_def
      usize_checked_add_def usize_max_def room_def used_within_def gpt_limits_production_def MAX_WORK_def MAX_READ_BYTES_def
      MAX_READ_CALLS_def MAX_ALLOCATION_BYTES_def)

lemma computes_reserve: "computes bytes (gpt_try_reserve w n action) 0 0 0 0 (Some ())"
  by (auto simp: computes_def gpt_try_reserve_def late_or_starved_def used_within_def)

lemma computes_charge: "computes bytes (charge_work w n action) 0 0 n 0 (Some ())"
  unfolding charge_work_def
  by (rule computes_weaken [OF computes_then [OF computes_checkpoint computes_then [OF computes_account(1) computes_checkpoint]]])
    simp_all

lemma computes_allocate: "computes bytes (allocate_zeroed w n action) 0 0 0 n (Some (replicate n 0))"
  unfolding allocate_zeroed_def
  by (rule computes_weaken [OF computes_then [OF computes_checkpoint computes_then [OF computes_account(2)
        computes_then [OF computes_reserve computes_then [OF computes_checkpoint computes_return]]]]]) simp_all

lemma computes_reserve_items:
  assumes "count * size_of \<le> usize_max"
  shows "computes bytes (reserve_items w size_of count action) 0 0 0 (count * size_of) (Some ())"
proof -
  have small: "\<not> count * size_of > usize_max" using assms by simp
  show ?thesis
    unfolding reserve_items_def if_not_P [OF small]
    by (rule computes_weaken [OF computes_then [OF computes_checkpoint computes_then [OF computes_account(2)
          computes_then [OF computes_reserve computes_checkpoint]]]]) simp_all
qed

text \<open>Reads inside the image deliver its bytes, one call for every 64 KiB begun.\<close>

lemma computes_source_read:
  assumes "unat offset + length buffer \<le> length bytes" and "buffer \<noteq> []"
  shows "computes bytes (source_read io offset buffer) 0 0 0 0
    (Some (length buffer, take (length buffer) (drop (unat offset) bytes)))"
  unfolding computes_def
proof (intro allI impI)
  fix s :: "'i gpt_operation"
  assume s: "delivers (go_source s) bytes"
  have "unat offset < length bytes" using assms by (cases buffer) simp_all
  moreover have "length buffer = min (length buffer) (length bytes - unat offset)" using assms(1) by simp
  ultimately obtain source' where "delivers source' bytes"
    "im_read io (go_source s) offset buffer = Ok (length buffer, take (length buffer) (drop (unat offset) bytes), source')"
    using read_delivered [OF s _ assms(2)] by force
  then show "case source_read io offset buffer s of
      Ok (x, s') \<Rightarrow> Some (length buffer, take (length buffer) (drop (unat offset) bytes)) = Some x
        \<and> delivers (go_source s') bytes \<and> used_within 0 0 0 0 s s'
    | Err e \<Rightarrow> late_or_starved w (go_deadline s) e
        \<or> refusal e \<and> Some (length buffer, take (length buffer) (drop (unat offset) bytes)) = None"
    by (simp add: source_read_def used_within_def)
qed

lemma put_window_next:
  assumes "completed + n \<le> length buf" and "offset + length buf \<le> length bytes"
    and "take completed buf = take completed (drop offset bytes)"
  shows "take (completed + n) (put_window buf completed (take n (drop (offset + completed) bytes)))
    = take (completed + n) (drop offset bytes)"
proof -
  have "length (take n (drop (offset + completed) bytes)) = n" using assms by simp
  moreover have "length (take completed buf) = completed" using assms by simp
  ultimately have "take (completed + n) (put_window buf completed (take n (drop (offset + completed) bytes)))
      = take completed buf @ take n (drop (offset + completed) bytes)"
    using assms(1) unfolding put_window_def by (simp add: take_append)
  also have "\<dots> = take (completed + n) (drop offset bytes)"
    by (simp add: assms(3) take_add drop_drop add.commute)
  finally show ?thesis .
qed

lemma computes_read_rest:
  assumes "unat offset + length buf \<le> length bytes" and "length bytes < 2 ^ 64" and "completed \<le> length buf"
    and "take completed buf = take completed (drop (unat offset) bytes)"
  shows "computes bytes (read_rest w io offset action completed buf) 0
    ((length buf - completed + (READ_CHUNK_BYTES - 1)) div READ_CHUNK_BYTES) 0 0
    (Some (take (length buf) (drop (unat offset) bytes)))"
  using assms
proof (induction "length buf - completed" arbitrary: completed buf rule: less_induct)
  case less
  show ?case
  proof (cases "completed < length buf")
    case False
    then have "completed = length buf" using less.prems by simp
    then show ?thesis using less.prems computes_return [of bytes buf]
      by (subst read_rest.simps) (simp add: READ_CHUNK_BYTES_def)
  next
    case True
    define n where "n = min READ_CHUNK_BYTES (length buf - completed)"
    define window where "window = take n (drop completed buf)"
    define next_buf where "next_buf = put_window buf completed (take n (drop (unat offset + completed) bytes))"
    have n: "0 < n" "n \<le> length buf - completed" "completed + n \<le> length buf" "n \<le> READ_CHUNK_BYTES"
      using True by (simp_all add: n_def READ_CHUNK_BYTES_def)
    have small: "completed < 2 ^ 64" "unat offset + completed < 2 ^ 64" using less.prems True by simp_all
    have current: "checked_add offset (word_of_nat completed) = Some (offset + word_of_nat completed)"
      "unat (offset + word_of_nat completed) = unat offset + completed"
      using small by (simp_all add: checked_add_def unat_word_of_nat unat_word_ariths)
    have stop: "usize_checked_add completed n = Some (completed + n)"
      using n less.prems by (simp add: usize_checked_add_def usize_max_def)
    have window: "length window = n" "window \<noteq> []" using n by (auto simp: window_def)
    have len: "length next_buf = length buf" using n by (simp add: next_buf_def length_put_window)
    have taken: "take (completed + n) next_buf = take (completed + n) (drop (unat offset) bytes)"
      unfolding next_buf_def by (rule put_window_next) (use n less.prems in simp_all)
    have rest: "computes bytes (read_rest w io offset action (completed + n) next_buf) 0
        ((length buf - (completed + n) + (READ_CHUNK_BYTES - 1)) div READ_CHUNK_BYTES) 0 0
        (Some (take (length buf) (drop (unat offset) bytes)))"
      using less.hyps [of next_buf "completed + n"] n less.prems taken by (simp add: len)
    have calls: "1 + (length buf - (completed + n) + (READ_CHUNK_BYTES - 1)) div READ_CHUNK_BYTES
        \<le> (length buf - completed + (READ_CHUNK_BYTES - 1)) div READ_CHUNK_BYTES"
      using n True by (simp add: n_def READ_CHUNK_BYTES_def min_def split: if_splits)
    have read: "computes bytes (source_read io (offset + word_of_nat completed) window) 0 0 0 0
        (Some (n, take n (drop (unat offset + completed) bytes)))"
      using computes_source_read [of "offset + word_of_nat completed" window bytes] window less.prems n by (simp add: current)
    let ?q = "(length buf - (completed + n) + (READ_CHUNK_BYTES - 1)) div READ_CHUNK_BYTES"
    let ?k = "\<lambda>(m, filled). if m = 0 then run_fail (GptError IoUnexpectedEof (''GPT image ended while '' @ action))
           else if m > n then run_fail (invalid_data ''GPT image source returned an impossible read length'')
           else run_then (gpt_checkpoint w) (read_rest w io offset action (completed + m) (put_window buf completed filled))"
    have body: "computes bytes (?k (n, take n (drop (unat offset + completed) bytes))) 0 ?q 0 0
        (Some (take (length buf) (drop (unat offset) bytes)))"
      using computes_then [OF computes_checkpoint rest] n by (simp add: next_buf_def)
    have bound: "computes bytes (run_bind (source_read io (offset + word_of_nat completed) window) ?k) 0 ?q 0 0
        (Some (take (length buf) (drop (unat offset) bytes)))"
      using computes_bind [OF read, of ?k 0 ?q 0 0 "\<lambda>_. Some (take (length buf) (drop (unat offset) bytes))"] body by simp
    have step: "computes bytes (run_then (gpt_checkpoint w) (run_then (account_read_call action)
        (run_bind (source_read io (offset + word_of_nat completed) window) ?k))) 0 (1 + ?q) 0 0
        (Some (take (length buf) (drop (unat offset) bytes)))"
      using computes_then [OF computes_checkpoint computes_then [OF computes_account(4) bound]] by simp
    have "read_rest w io offset action completed buf = run_then (gpt_checkpoint w) (run_then (account_read_call action)
        (run_bind (source_read io (offset + word_of_nat completed) window) ?k))"
      by (subst read_rest.simps)
        (simp only: True if_True current stop n_def [symmetric] window_def [symmetric] run_ok_or_Some add_diff_cancel_left')
    then show ?thesis using computes_weaken [OF step order_refl calls order_refl order_refl refl] by simp
  qed
qed

lemma computes_read_exact:
  assumes "unat offset + n \<le> length bytes" and "length bytes < 2 ^ 64"
  shows "computes bytes (read_exact w io offset (replicate n 0) action) n ((n + (READ_CHUNK_BYTES - 1)) div READ_CHUNK_BYTES) 0 0
    (Some (take n (drop (unat offset) bytes)))"
proof -
  have "computes bytes (read_rest w io offset action 0 (replicate n 0)) 0 ((n + (READ_CHUNK_BYTES - 1)) div READ_CHUNK_BYTES) 0 0
      (Some (take n (drop (unat offset) bytes)))"
    using computes_read_rest [of offset "replicate n 0" bytes 0 action] assms by simp
  from computes_then [OF computes_checkpoint computes_then [OF computes_account(3) this]]
  show ?thesis unfolding read_exact_def length_replicate by (simp only: bind.bind_lunit add_0 add_0_right)
qed

text \<open>The checksum of the image's bytes.\<close>

lemma computes_crc32_from: "computes bytes (crc32_from w index input crc) 0 0 0 0 (Some (foldl crc_byte crc input))"
proof (induction input arbitrary: index crc)
  case (Cons byte input)
  have "computes bytes (if index mod 4096 = 0 then gpt_checkpoint w else run_return ()) 0 0 0 0 (Some ())"
    by (simp add: computes_checkpoint computes_return)
  from computes_then [OF this Cons.IH [of "index + 1" "crc_byte crc byte"]] show ?case by simp
qed (simp add: computes_return)

end

definition crc_of :: "u8 list \<Rightarrow> u32" where
  "crc_of bytes = NOT (foldl crc_byte (- 1) bytes)"

context image_source
begin

lemma computes_crc32: "computes bytes (crc32 w input) 0 0 (length input) 0 (Some (crc_of input))"
  unfolding crc32_def crc_of_def
proof -
  have "computes bytes (run_bind (crc32_from w 0 input (- 1)) (\<lambda>crc. run_then (gpt_checkpoint w) (run_return (NOT crc))))
      (0 + (0 + 0)) (0 + (0 + 0)) (0 + (0 + 0)) (0 + (0 + 0))
      (Option.bind (Some (foldl crc_byte (- 1) input)) (\<lambda>crc. Option.bind (Some ()) (\<lambda>_. Some (NOT crc))))"
    by (rule computes_bind [OF computes_crc32_from computes_then [OF computes_checkpoint computes_return]])
  from computes_then [OF computes_charge this] show "computes bytes (run_then (charge_work w (length input) ''calculating GPT CRC32'')
      (run_bind (crc32_from w 0 input (- 1)) (\<lambda>crc. run_then (gpt_checkpoint w) (run_return (NOT crc)))))
      0 0 (length input) 0 (Some (NOT (foldl crc_byte (- 1) input)))"
    by simp
qed

end

text \<open>A byte slice is a source of its bytes.\<close>

interpretation slice_source: image_source w slice_image "\<lambda>source bytes. source = bytes \<and> length bytes < 2 ^ 64" for w
proof
  fix source bytes buffer :: "u8 list" and offset :: u64 and n
  assume source: "source = bytes \<and> length bytes < 2 ^ 64"
  then show "length bytes < 2 ^ 64 \<and> im_length slice_image source = word_of_nat (length bytes)"
    by (simp add: slice_image_def usize_max_def)
  assume "unat offset < length bytes" and n: "n = min (length buffer) (length bytes - unat offset)"
  then have "\<not> unat offset > length bytes" "min (length (drop (unat offset) bytes)) (length buffer) = n" by simp_all
  then have "im_read slice_image source offset buffer = Ok (n, take n (drop (unat offset) bytes) @ drop n buffer, bytes)"
    using source by (simp add: slice_image_def Let_def)
  then show "\<exists>source'. (source' = bytes \<and> length bytes < 2 ^ 64)
      \<and> im_read slice_image source offset buffer = Ok (n, take n (drop (unat offset) bytes) @ drop n buffer, source')"
    using source by blast
qed

end
