(* ===== verification/Gpt_Layout.thy ===== *)
theory Gpt_Layout
  imports Gpt_Ledger
begin

text \<open>
  What a GUID partition table looks like on an image, as a specification independent of the parser: the bytes
  of the protective MBR, of a header and of an array of slots, and when a table is well formed. The checks of
  the parser are shown to accept exactly these bytes.
\<close>

section \<open>Slices and little-endian fields\<close>

lemma length_sub_list [simp]: "stop \<le> length xs \<Longrightarrow> length (sub_list start stop xs) = stop - start"
  by (simp add: sub_list_def)

lemma sub_list_sub_list: "a + j \<le> b \<Longrightarrow> sub_list i j (sub_list a b xs) = sub_list (a + i) (a + j) xs"
  by (cases "i \<le> j") (simp_all add: sub_list_def take_drop drop_drop min_def add.commute)

lemma sub_list_take: "j \<le> n \<Longrightarrow> sub_list i j (take n xs) = sub_list i j xs"
  by (simp add: sub_list_def drop_take min_def)

lemma sub_list_join: "a \<le> b \<Longrightarrow> b \<le> c \<Longrightarrow> sub_list a b xs @ sub_list b c xs = sub_list a c xs"
proof -
  assume "a \<le> b" "b \<le> c"
  then have "c - a = (b - a) + (c - b)" "b = (b - a) + a" by simp_all
  then have "sub_list a c xs = take (b - a) (drop a xs) @ take (c - b) (drop (b - a) (drop a xs))"
    unfolding sub_list_def by (metis take_add)
  also have "drop (b - a) (drop a xs) = drop b xs" using \<open>a \<le> b\<close> by simp
  finally show ?thesis by (simp add: sub_list_def)
qed

lemma take_sub_list: "sub_list 0 n xs = take n xs"
  by (simp add: sub_list_def)

lemma nth_sub_list: "i < stop - start \<Longrightarrow> stop \<le> length xs \<Longrightarrow> sub_list start stop xs ! i = xs ! (start + i)"
  by (simp add: sub_list_def)

lemma length_to_le_bytes [simp]: "length (to_le_bytes (x::'a::len word)) = LENGTH('a) div 8"
  by (simp add: to_le_bytes_def length_to_be_bytes)

interpretation le32: wire_field "to_le_bytes :: u32 \<Rightarrow> u8 list" from_le_bytes 4
proof
  fix x :: u32 and bs :: "u8 list"
  show "length (to_le_bytes x) = 4" by simp
  show "from_le_bytes (to_le_bytes x) = x" by (simp add: from_le_bytes_def to_le_bytes_def)
  show "to_le_bytes (from_le_bytes bs :: u32) = bs" if "length bs = 4"
    using be_u32.put_get [of "rev bs"] that by (simp add: from_le_bytes_def to_le_bytes_def)
qed

interpretation le64: wire_field "to_le_bytes :: u64 \<Rightarrow> u8 list" from_le_bytes 8
proof
  fix x :: u64 and bs :: "u8 list"
  show "length (to_le_bytes x) = 8" by simp
  show "from_le_bytes (to_le_bytes x) = x" by (simp add: from_le_bytes_def to_le_bytes_def)
  show "to_le_bytes (from_le_bytes bs :: u64) = bs" if "length bs = 8"
    using be_u64.put_get [of "rev bs"] that by (simp add: from_le_bytes_def to_le_bytes_def)
qed

lemma le_fields:
  "stop \<le> length xs \<Longrightarrow> stop - start = 4 \<Longrightarrow> le_u32 (sub_list start stop xs) = Ok (from_le_bytes (sub_list start stop xs))"
  "stop \<le> length xs \<Longrightarrow> stop - start = 8 \<Longrightarrow> le_u64 (sub_list start stop xs) = Ok (from_le_bytes (sub_list start stop xs))"
  "stop \<le> length xs \<Longrightarrow> stop - start = 16 \<Longrightarrow> guid_from_disk_slice (sub_list start stop xs) = Ok (sub_list start stop xs)"
  by (simp_all add: le_u32_def le_u64_def guid_from_disk_slice_def)

lemma from_le_iff:
  "length bs = 4 \<Longrightarrow> (from_le_bytes bs = (x::u32)) \<longleftrightarrow> bs = to_le_bytes x"
  "length bs = 8 \<Longrightarrow> (from_le_bytes bs = (y::u64)) \<longleftrightarrow> bs = to_le_bytes y"
  using le32.put_get le64.put_get by force+

section \<open>The protective MBR\<close>

abbreviation all_zero :: "u8 list \<Rightarrow> bool" where
  "all_zero \<equiv> list_all (\<lambda>byte. byte = 0)"

lemma all_zero_iff: "all_zero bs \<longleftrightarrow> bs = replicate (length bs) 0"
  by (induction bs) auto

lemma not_all_zero: "list_ex (\<lambda>byte. byte \<noteq> 0) bs \<longleftrightarrow> \<not> all_zero bs"
  by (induction bs) auto

definition pmbr_ok :: "nat \<Rightarrow> u8 list \<Rightarrow> bool" where
  "pmbr_ok lbas b \<longleftrightarrow>
     all_zero (sub_list 440 446 b)
     \<and> sub_list 446 462 b = [0, 0, 2, 0, 0xee, 0xff, 0xff, 0xff] @ to_le_bytes (1 :: u32)
         @ to_le_bytes (word_of_nat (min (lbas - 1) (2 ^ 32 - 1)) :: u32)
     \<and> all_zero (sub_list 462 510 b) \<and> sub_list 510 512 b = [0x55, 0xaa] \<and> all_zero (drop 512 b)"

lemma first_entry:
  assumes "length first = 16" "length bs = 3" "length ds = 3"
  shows "first = [a] @ bs @ [c] @ ds @ to_le_bytes (x::u32) @ to_le_bytes (y::u32) \<longleftrightarrow>
    first ! 0 = a \<and> sub_list 1 4 first = bs \<and> first ! 4 = c \<and> sub_list 5 8 first = ds
    \<and> from_le_bytes (sub_list 8 12 first) = x \<and> from_le_bytes (sub_list 12 16 first) = y"
proof -
  have one: "sub_list i (i + 1) first = [first ! i]" if "i < 16" for i
    using that assms by (simp add: sub_list_def take_Suc_conv_app_nth [of 0, simplified] Cons_nth_drop_Suc [symmetric])
  have "first = sub_list 0 16 first" using assms by (simp add: sub_list_def)
  also have "\<dots> = sub_list 0 1 first @ sub_list 1 4 first @ sub_list 4 5 first @ sub_list 5 8 first @ sub_list 8 12 first
      @ sub_list 12 16 first"
    by (simp add: sub_list_join)
  also have "\<dots> = [first ! 0] @ sub_list 1 4 first @ [first ! 4] @ sub_list 5 8 first @ sub_list 8 12 first @ sub_list 12 16 first"
    using one [of 0] one [of 4] by simp
  finally have split: "first = \<dots>" .
  have "length (sub_list 1 4 first) = length bs" "length (sub_list 5 8 first) = length ds" "length (sub_list 8 12 first) = 4"
    "length (sub_list 12 16 first) = 4" using assms by simp_all
  then have "[first ! 0] @ sub_list 1 4 first @ [first ! 4] @ sub_list 5 8 first @ sub_list 8 12 first @ sub_list 12 16 first
      = [a] @ bs @ [c] @ ds @ to_le_bytes x @ to_le_bytes y \<longleftrightarrow>
    first ! 0 = a \<and> sub_list 1 4 first = bs \<and> first ! 4 = c \<and> sub_list 5 8 first = ds
    \<and> from_le_bytes (sub_list 8 12 first) = x \<and> from_le_bytes (sub_list 12 16 first) = y"
    by (simp add: from_le_iff)
  then show ?thesis using split by metis
qed

lemma check_pmbr_exact:
  assumes "512 \<le> length b"
  shows "check_pmbr lbas b = Ok () \<longleftrightarrow> pmbr_ok (unat lbas) b"
    and "check_pmbr lbas b = Err e \<Longrightarrow> refusal e"
proof -
  define first where "first = sub_list 446 462 b"
  have len: "length first = 16" using assms by (simp add: first_def)
  have others: "all_zero (sub_list 462 510 b) \<longleftrightarrow>
      all_zero (sub_list 462 478 b) \<and> all_zero (sub_list 478 494 b) \<and> all_zero (sub_list 494 510 b)"
  proof -
    have "sub_list 462 510 b = sub_list 462 478 b @ sub_list 478 494 b @ sub_list 494 510 b" by (simp add: sub_list_join)
    then show ?thesis by simp
  qed
  have upto: "[1..<4] = [1, 2, 3::nat]" by (simp add: upt_rec)
  have le: "le_u32 (sub_list 8 12 first) = Ok (from_le_bytes (sub_list 8 12 first))"
    "le_u32 (sub_list 12 16 first) = Ok (from_le_bytes (sub_list 12 16 first))" by (simp_all add: le_fields len)
  have short: "\<not> length b < 512" using assms by simp
  note unfolded = check_pmbr_def PMBR_BYTES_def PMBR_SIGNATURE_OFFSET_def PMBR_ENTRY_OFFSET_def PMBR_ENTRY_BYTES_def
    not_all_zero Let_def if_not_P [OF short]
  have step: "check_pmbr lbas b =
     (if sub_list 510 512 b \<noteq> [0x55, 0xaa] then Err (invalid_data ''protective MBR signature is invalid'')
      else if \<not> all_zero (sub_list 440 446 b)
      then Err (invalid_data ''protective MBR disk signature or reserved bytes are nonzero'')
      else if \<not> all_zero (drop 512 b) then Err (invalid_data ''protective MBR logical-block padding is nonzero'')
      else if first ! 0 \<noteq> 0 \<or> sub_list 1 4 first \<noteq> [0x00, 0x02, 0x00] \<or> first ! 4 \<noteq> 0xee
              \<or> sub_list 5 8 first \<noteq> [0xff, 0xff, 0xff] \<or> from_le_bytes (sub_list 8 12 first) \<noteq> (1::u32)
      then Err (invalid_data ''protective MBR entry is not the strict GPT protective entry'')
      else if from_le_bytes (sub_list 12 16 first) \<noteq> (word_of_nat (min (unat lbas - 1) (2 ^ 32 - 1)) :: u32)
      then Err (invalid_data ''protective MBR size does not cover the GPT image'')
      else if \<not> all_zero (sub_list 462 510 b) then Err (invalid_data ''protective MBR is hybrid rather than GPT-only'')
      else Ok ())"
    unfolding unfolded upto by (simp add: le others first_def [symmetric])
  show "check_pmbr lbas b = Ok () \<longleftrightarrow> pmbr_ok (unat lbas) b"
    using first_entry [OF len, of "[0, 2, 0]" "[0xff, 0xff, 0xff]" 0 "0xee" 1
        "word_of_nat (min (unat lbas - 1) (2 ^ 32 - 1))"]
    unfolding step pmbr_ok_def first_def [symmetric] by auto
  show "refusal e" if "check_pmbr lbas b = Err e"
    using that unfolding step by (auto split: if_splits)
qed

section \<open>Headers\<close>

definition header_body :: "gpt_header \<Rightarrow> u32 \<Rightarrow> u8 list" where
  "header_body h crc = GPT_SIGNATURE @ to_le_bytes GPT_REVISION_1_0 @ to_le_bytes (92 :: u32) @ to_le_bytes crc
     @ to_le_bytes (0 :: u32) @ to_le_bytes (gh_current_lba h) @ to_le_bytes (gh_alternate_lba h)
     @ to_le_bytes (gh_first_usable_lba h) @ to_le_bytes (gh_last_usable_lba h) @ gh_disk_guid h
     @ to_le_bytes (gh_entry_lba h) @ to_le_bytes (gh_entry_count h) @ to_le_bytes (gh_entry_bytes h)
     @ to_le_bytes (gh_entry_crc32 h)"

definition show_header :: "gpt_header \<Rightarrow> u8 list" where
  "show_header h = header_body h (crc_of (header_body h 0))"

definition header_ok :: "gpt_header \<Rightarrow> bool" where
  "header_ok h \<longleftrightarrow> length (gh_disk_guid h) = 16 \<and> \<not> all_zero (gh_disk_guid h)
     \<and> MIN_GPT_ENTRIES \<le> gh_entry_count h \<and> gh_entry_count h \<le> MAX_GPT_ENTRIES \<and> gh_entry_bytes h = GPT_ENTRY_BYTES"

definition header_shown :: "u8 list \<Rightarrow> gpt_header \<Rightarrow> bool" where
  "header_shown b h \<longleftrightarrow> header_ok h \<and> take 92 b = show_header h \<and> all_zero (drop 92 b)"

text \<open>What \<open>parse_header\<close> computes on a block.\<close>

definition header_value :: "u8 list \<Rightarrow> string \<Rightarrow> gpt_header option" where
  "header_value b label =
     Option.bind (result_option (check_header_frame b label)) (\<lambda>expected_crc.
       if crc_of (header_crc_bytes b) \<noteq> expected_crc then None else result_option (header_fields b label))"

lemma take_header:
  assumes "92 \<le> length b"
  shows "take 92 b = sub_list 0 8 b @ sub_list 8 12 b @ sub_list 12 16 b @ sub_list 16 20 b @ sub_list 20 24 b
    @ sub_list 24 32 b @ sub_list 32 40 b @ sub_list 40 48 b @ sub_list 48 56 b @ sub_list 56 72 b @ sub_list 72 80 b
    @ sub_list 80 84 b @ sub_list 84 88 b @ sub_list 88 92 b"
  by (simp add: sub_list_join take_sub_list [symmetric])

lemma signature_length: "length GPT_SIGNATURE = 8"
  by (simp add: GPT_SIGNATURE_def ascii_def)

lemma header_body_iff:
  assumes "92 \<le> length b" and "length (gh_disk_guid h) = 16"
  shows "take 92 b = header_body h c \<longleftrightarrow>
    sub_list 0 8 b = GPT_SIGNATURE \<and> from_le_bytes (sub_list 8 12 b) = GPT_REVISION_1_0
    \<and> from_le_bytes (sub_list 12 16 b) = (92 :: u32) \<and> from_le_bytes (sub_list 16 20 b) = c
    \<and> from_le_bytes (sub_list 20 24 b) = (0 :: u32) \<and> from_le_bytes (sub_list 24 32 b) = gh_current_lba h
    \<and> from_le_bytes (sub_list 32 40 b) = gh_alternate_lba h \<and> from_le_bytes (sub_list 40 48 b) = gh_first_usable_lba h
    \<and> from_le_bytes (sub_list 48 56 b) = gh_last_usable_lba h \<and> sub_list 56 72 b = gh_disk_guid h
    \<and> from_le_bytes (sub_list 72 80 b) = gh_entry_lba h \<and> from_le_bytes (sub_list 80 84 b) = gh_entry_count h
    \<and> from_le_bytes (sub_list 84 88 b) = gh_entry_bytes h \<and> from_le_bytes (sub_list 88 92 b) = gh_entry_crc32 h"
  unfolding take_header [OF assms(1)] header_body_def using assms by (simp add: from_le_iff signature_length)

lemma header_crc_bytes_shown:
  assumes "92 \<le> length b" and "take 92 b = header_body h c" and "length (gh_disk_guid h) = 16"
  shows "header_crc_bytes b = header_body h 0"
proof -
  have "take 16 b = take 16 (header_body h c)" "sub_list 20 92 b = sub_list 20 92 (header_body h c)"
    unfolding assms(2) [symmetric] by (simp_all add: sub_list_take)
  moreover have "to_le_bytes (0 :: u32) = replicate 4 0" by code_simp
  ultimately show ?thesis
    using assms(3) by (simp add: header_crc_bytes_def header_body_def GPT_HEADER_BYTES_def sub_list_def signature_length)
qed

lemma entry_array_bytes_small:
  assumes "count \<le> MAX_GPT_ENTRIES"
  shows "entry_array_bytes count GPT_ENTRY_BYTES = Ok (unat count * 128)"
proof -
  have "unat count \<le> 4096" using assms by (simp add: MAX_GPT_ENTRIES_def word_le_nat_alt)
  then have "checked_mul count GPT_ENTRY_BYTES = Some (count * 128)" "unat (count * 128) = unat count * 128"
    by (simp_all add: checked_mul_def GPT_ENTRY_BYTES_def unat_word_ariths)
  then show ?thesis using \<open>unat count \<le> 4096\<close> by (simp add: entry_array_bytes_def MAX_ENTRY_ARRAY_BYTES_def)
qed

lemma check_header_frame_value:
  assumes "92 \<le> length b"
  shows "result_option (check_header_frame b label) =
    (if sub_list 0 8 b = GPT_SIGNATURE \<and> from_le_bytes (sub_list 8 12 b) = GPT_REVISION_1_0
        \<and> from_le_bytes (sub_list 12 16 b) = (92 :: u32) \<and> from_le_bytes (sub_list 20 24 b) = (0 :: u32) \<and> all_zero (drop 92 b)
     then Some (from_le_bytes (sub_list 16 20 b)) else None)"
    and "check_header_frame b label = Err e \<Longrightarrow> refusal e"
  using assms by (auto simp: check_header_frame_def le_fields not_all_zero GPT_HEADER_BYTES_def split: if_splits)

lemma header_fields_value:
  assumes "92 \<le> length b"
  shows "result_option (header_fields b label) =
    (if \<not> all_zero (sub_list 56 72 b) \<and> MIN_GPT_ENTRIES \<le> from_le_bytes (sub_list 80 84 b)
        \<and> from_le_bytes (sub_list 80 84 b) \<le> MAX_GPT_ENTRIES \<and> from_le_bytes (sub_list 84 88 b) = GPT_ENTRY_BYTES
     then Some \<lparr> gh_current_lba = from_le_bytes (sub_list 24 32 b), gh_alternate_lba = from_le_bytes (sub_list 32 40 b),
       gh_first_usable_lba = from_le_bytes (sub_list 40 48 b), gh_last_usable_lba = from_le_bytes (sub_list 48 56 b),
       gh_disk_guid = sub_list 56 72 b, gh_entry_lba = from_le_bytes (sub_list 72 80 b),
       gh_entry_count = from_le_bytes (sub_list 80 84 b), gh_entry_bytes = from_le_bytes (sub_list 84 88 b),
       gh_entry_crc32 = from_le_bytes (sub_list 88 92 b) \<rparr> else None)"
    and "header_fields b label = Err e \<Longrightarrow> refusal e"
  using assms by (auto simp: header_fields_def le_fields guid_is_zero_def entry_array_bytes_small split: if_splits)

text \<open>A block is accepted exactly when it is the printed form of a well-formed header, padded with zeros.\<close>

lemma header_value_exact:
  assumes b: "92 \<le> length b"
  shows "header_value b label = Some h \<longleftrightarrow> header_shown b h"
proof
  assume "header_shown b h"
  then have ok: "header_ok h" and shown: "take 92 b = header_body h (crc_of (header_body h 0))" and zero: "all_zero (drop 92 b)"
    by (simp_all add: header_shown_def show_header_def)
  have guid: "length (gh_disk_guid h) = 16" using ok by (simp add: header_ok_def)
  show "header_value b label = Some h"
    using ok zero shown [unfolded header_body_iff [OF b guid]] header_crc_bytes_shown [OF b shown guid]
    by (simp add: header_value_def check_header_frame_value [OF b] header_fields_value [OF b] header_ok_def)
next
  assume read: "header_value b label = Some h"
  define c :: u32 where "c = from_le_bytes (sub_list 16 20 b)"
  have frame: "sub_list 0 8 b = GPT_SIGNATURE \<and> from_le_bytes (sub_list 8 12 b) = GPT_REVISION_1_0
      \<and> from_le_bytes (sub_list 12 16 b) = (92 :: u32) \<and> from_le_bytes (sub_list 20 24 b) = (0 :: u32) \<and> all_zero (drop 92 b)"
    and crc: "crc_of (header_crc_bytes b) = c" and fields: "result_option (header_fields b label) = Some h"
    using read by (auto simp: header_value_def check_header_frame_value [OF b] c_def split: if_splits)
  have ok: "header_ok h" using fields b by (auto simp: header_fields_value [OF b] header_ok_def split: if_splits)
  then have guid: "length (gh_disk_guid h) = 16" by (simp add: header_ok_def)
  have shown: "take 92 b = header_body h c"
    unfolding header_body_iff [OF b guid] using frame fields
    by (auto simp: header_fields_value [OF b] c_def split: if_splits)
  then have "c = crc_of (header_body h 0)" using header_crc_bytes_shown [OF b shown guid] crc by simp
  then show "header_shown b h" using ok shown frame by (simp add: header_shown_def show_header_def)
qed

section \<open>Slots\<close>

record gpt_slot =
  sl_type :: guid
  sl_uuid :: guid
  sl_first :: u64
  sl_last :: u64
  sl_attributes :: u64
  sl_name :: "u8 list"

fun show_slot :: "gpt_slot option \<Rightarrow> u8 list" where
  "show_slot None = replicate 128 0"
| "show_slot (Some s) = sl_type s @ sl_uuid s @ to_le_bytes (sl_first s) @ to_le_bytes (sl_last s)
     @ to_le_bytes (sl_attributes s) @ sl_name s"

definition slot_ok :: "u64 \<Rightarrow> u64 \<Rightarrow> gpt_slot \<Rightarrow> bool" where
  "slot_ok first_usable last_usable s \<longleftrightarrow>
     length (sl_type s) = 16 \<and> \<not> all_zero (sl_type s) \<and> length (sl_uuid s) = 16 \<and> \<not> all_zero (sl_uuid s)
     \<and> length (sl_name s) = 72 \<and> sl_attributes s AND RESERVED_ATTRIBUTE_BITS = 0
     \<and> first_usable \<le> sl_first s \<and> sl_first s \<le> sl_last s \<and> sl_last s \<le> last_usable"

definition slot_fields :: "u8 list \<Rightarrow> gpt_slot" where
  "slot_fields e = \<lparr> sl_type = sub_list 0 16 e, sl_uuid = sub_list 16 32 e, sl_first = from_le_bytes (sub_list 32 40 e),
     sl_last = from_le_bytes (sub_list 40 48 e), sl_attributes = from_le_bytes (sub_list 48 56 e), sl_name = sub_list 56 128 e \<rparr>"

definition decode_slot :: "u8 list \<Rightarrow> gpt_slot option" where
  "decode_slot e = (if all_zero (sub_list 0 16 e) then None else Some (slot_fields e))"

lemma show_decode_slot:
  assumes "length e = 128"
  shows "show_slot (decode_slot e) = e \<longleftrightarrow> (all_zero (sub_list 0 16 e) \<longrightarrow> all_zero (drop 16 e))"
proof (cases "all_zero (sub_list 0 16 e)")
  case True
  have "e = sub_list 0 16 e @ drop 16 e" by (simp add: take_sub_list)
  then have "all_zero e \<longleftrightarrow> all_zero (drop 16 e)" using True list_all_append by metis
  then show ?thesis using True assms by (auto simp: decode_slot_def all_zero_iff)
next
  case False
  have "show_slot (Some (slot_fields e)) = sub_list 0 16 e @ sub_list 16 32 e @ sub_list 32 40 e @ sub_list 40 48 e
      @ sub_list 48 56 e @ sub_list 56 128 e"
    using assms by (simp add: slot_fields_def le64.put_get)
  also have "\<dots> = sub_list 0 128 e" by (simp add: sub_list_join)
  also have "\<dots> = e" using assms by (simp add: sub_list_def)
  finally show ?thesis using False by (simp add: decode_slot_def)
qed

lemma length_show_slot: "\<forall>s. slot = Some s \<longrightarrow> slot_ok a z s \<Longrightarrow> length (show_slot slot) = 128"
  by (cases slot) (simp_all add: slot_ok_def)

lemma decode_show_slot: "\<forall>s. slot = Some s \<longrightarrow> slot_ok a z s \<Longrightarrow> decode_slot (show_slot slot) = slot"
proof (cases slot)
  case (Some s)
  assume "\<forall>s. slot = Some s \<longrightarrow> slot_ok a z s"
  then have ok: "slot_ok a z s" by (simp add: Some)
  have lens: "length (sl_type s) = 16" "length (sl_uuid s) = 16" "length (sl_name s) = 72" using ok by (simp_all add: slot_ok_def)
  have "slot_fields (show_slot (Some s)) = s" using lens by (simp add: slot_fields_def sub_list_def)
  moreover have "sub_list 0 16 (show_slot (Some s)) = sl_type s" using lens by (simp add: sub_list_def)
  ultimately show ?thesis using ok by (simp add: Some decode_slot_def slot_ok_def)
qed (simp add: decode_slot_def sub_list_def list_all_iff)

section \<open>One entry\<close>

definition slot_range :: "nat \<Rightarrow> gpt_slot \<Rightarrow> used_range" where
  "slot_range index s = \<lparr> ur_start = sl_first s, ur_end = sl_last s, ur_index = word_of_nat (index + 1) \<rparr>"

definition selection :: "u32 \<Rightarrow> gpt_partition_role \<Rightarrow> gpt_slot \<Rightarrow> selected_entry" where
  "selection number role s = \<lparr> se_partition_number = number, se_role = role, se_partition_uuid = sl_uuid s,
     se_start_lba = sl_first s, se_size_lba = sl_last s - sl_first s + 1 \<rparr>"

definition slot_accepted :: "gpt_header \<Rightarrow> u32 \<Rightarrow> guid \<Rightarrow> gpt_partition_role \<Rightarrow> nat \<Rightarrow> gpt_slot option \<Rightarrow> bool" where
  "slot_accepted h number uuid role index slot \<longleftrightarrow>
     (\<forall>s. slot = Some s \<longrightarrow> slot_ok (gh_first_usable_lba h) (gh_last_usable_lba h) s
        \<and> (word_of_nat (index + 1) = number \<longrightarrow> sl_uuid s = uuid \<and> sl_type s = role_type_guid role))"

definition entry_outcome :: "u32 \<Rightarrow> gpt_partition_role \<Rightarrow> nat \<Rightarrow> gpt_slot \<Rightarrow> guid \<times> used_range \<times> selected_entry option" where
  "entry_outcome number role index s =
     (sl_uuid s, slot_range index s, if word_of_nat (index + 1) = number then Some (selection number role s) else None)"

lemma size_fits:
  fixes first last :: u64
  assumes "first \<noteq> 0" and "first \<le> last"
  shows "checked_add (last - first) 1 = Some (last - first + 1)" and "unat (last - first + 1) = unat last - unat first + 1"
proof -
  have "unat (last - first) = unat last - unat first" using assms(2) by (rule unat_sub)
  moreover have "unat first \<noteq> 0" "unat first \<le> unat last" using assms by (simp_all add: unat_eq_0 word_le_nat_alt)
  moreover have "unat last < 2 ^ 64" using unsigned_less [of last] by simp
  ultimately show add: "checked_add (last - first) 1 = Some (last - first + 1)" by (simp add: checked_add_def)
  then show "unat (last - first + 1) = unat last - unat first + 1"
    using checked_add_unat [OF add] \<open>unat (last - first) = _\<close> by simp
qed

lemma check_entry_value:
  assumes e: "length e = 128" and index: "index + 1 < 2 ^ 32" and usable: "gh_first_usable_lba h \<noteq> 0"
  shows "result_option (check_entry h number uuid role index e) =
     (if show_slot (decode_slot e) = e \<and> slot_accepted h number uuid role index (decode_slot e)
      then Some (map_option (entry_outcome number role index) (decode_slot e)) else None)"
    and "check_entry h number uuid role index e = Err err \<Longrightarrow> refusal err"
proof -
  let ?s = "slot_fields e"
  have zero: "sub_list 0 16 e = guid_zero \<longleftrightarrow> all_zero (sub_list 0 16 e)"
    using e by (simp add: all_zero_iff guid_zero_def)
  have fields: "sl_type ?s = sub_list 0 16 e" "sl_uuid ?s = sub_list 16 32 e" "sl_first ?s = from_le_bytes (sub_list 32 40 e)"
    "sl_last ?s = from_le_bytes (sub_list 40 48 e)" "sl_attributes ?s = from_le_bytes (sub_list 48 56 e)"
    "length (sl_type ?s) = 16" "length (sl_uuid ?s) = 16" "length (sl_name ?s) = 72"
    using e by (simp_all add: slot_fields_def)
  have step: "check_entry h number uuid role index e =
    (if all_zero (sl_type ?s) then
       (if \<not> all_zero (drop 16 e) then Err (invalid_data ''unused GPT entry contains nonzero fields'') else Ok None)
     else if all_zero (sl_uuid ?s) then Err (invalid_data ''used GPT entry has a zero unique GUID'')
     else if sl_attributes ?s AND RESERVED_ATTRIBUTE_BITS \<noteq> 0
     then Err (invalid_data ''used GPT entry has nonzero reserved attribute bits'')
     else if sl_first ?s > sl_last ?s then Err (invalid_data ''used GPT entry has a reversed LBA range'')
     else if sl_first ?s < gh_first_usable_lba h \<or> sl_last ?s > gh_last_usable_lba h
     then Err (invalid_data ''used GPT entry lies outside the usable-LBA range'')
     else if word_of_nat (index + 1) \<noteq> number then Ok (Some (sl_uuid ?s, slot_range index ?s, None))
     else if sl_uuid ?s \<noteq> uuid then Err (invalid_data ''selected GPT entry unique GUID does not match PARTUUID'')
     else if sl_type ?s \<noteq> role_type_guid role
     then Err (invalid_data ''selected GPT entry has the wrong boot partition role'')
     else res_bind (ok_or (checked_add (sl_last ?s - sl_first ?s) 1) (invalid_data ''selected GPT entry size overflowed''))
       (\<lambda>size. Ok (Some (sl_uuid ?s, slot_range index ?s, Some \<lparr> se_partition_number = word_of_nat (index + 1), se_role = role,
          se_partition_uuid = sl_uuid ?s, se_start_lba = sl_first ?s, se_size_lba = size \<rparr>))))"
    unfolding check_entry_def fields slot_range_def using e index by (simp add: le_fields guid_is_zero_def not_all_zero zero Let_def)
  show "refusal err" if "check_entry h number uuid role index e = Err err"
    using that unfolding step by (auto split: if_splits simp: checked_add_def)
  show "result_option (check_entry h number uuid role index e) =
     (if show_slot (decode_slot e) = e \<and> slot_accepted h number uuid role index (decode_slot e)
      then Some (map_option (entry_outcome number role index) (decode_slot e)) else None)"
  proof (cases "all_zero (sl_type ?s)")
    case True
    then show ?thesis unfolding step show_decode_slot [OF e] by (simp add: fields decode_slot_def slot_accepted_def)
  next
    case False
    have size: "checked_add (sl_last ?s - sl_first ?s) 1 = Some (sl_last ?s - sl_first ?s + 1)"
      if "sl_first ?s \<le> sl_last ?s" "gh_first_usable_lba h \<le> sl_first ?s"
    proof -
      have "sl_first ?s \<noteq> 0" using usable that(2) by (metis word_coorder.extremum_unique)
      then show ?thesis using that(1) by (rule size_fits(1))
    qed
    have dec: "decode_slot e = Some ?s" using False by (simp add: decode_slot_def fields)
    have shown: "show_slot (Some ?s) = e" using show_decode_slot [OF e] False by (simp add: dec fields(1) [symmetric])
    have acc: "slot_accepted h number uuid role index (Some ?s) \<longleftrightarrow>
        \<not> all_zero (sl_uuid ?s) \<and> sl_attributes ?s AND RESERVED_ATTRIBUTE_BITS = 0 \<and> sl_first ?s \<le> sl_last ?s
        \<and> gh_first_usable_lba h \<le> sl_first ?s \<and> sl_last ?s \<le> gh_last_usable_lba h
        \<and> (word_of_nat (index + 1) = number \<longrightarrow> sl_uuid ?s = uuid \<and> sl_type ?s = role_type_guid role)"
      using False fields(6-8) by (auto simp: slot_accepted_def slot_ok_def)
    show ?thesis
      unfolding step dec acc
      using False size shown by (auto simp: entry_outcome_def selection_def not_less not_le simp del: show_slot.simps)
  qed
qed

section \<open>Unique and disjoint entries\<close>

text \<open>A symmetric relation between all pairs of a list does not depend on the order of the list.\<close>

lemma sorted_wrt_insort:
  assumes "\<And>x y. D x y \<longleftrightarrow> D y x"
  shows "sorted_wrt D (insort_key f x xs) \<longleftrightarrow> (\<forall>y\<in>set xs. D x y) \<and> sorted_wrt D xs"
  using assms by (induction xs) (auto simp: set_insort_key)

lemma sorted_wrt_sort:
  assumes "\<And>x y. D x y \<longleftrightarrow> D y x"
  shows "sorted_wrt D (sort_key f xs) \<longleftrightarrow> sorted_wrt D xs"
  by (induction xs) (simp_all add: sorted_wrt_insort [OF assms])

lemma not_neighbours: "\<not> neighbours P xs \<longleftrightarrow> successively (\<lambda>x y. \<not> P x y) xs"
  by (induction P xs rule: neighbours.induct) auto

lemma distinct_sorted_wrt_ne: "distinct xs \<longleftrightarrow> sorted_wrt (\<noteq>) xs"
  by (induction xs) auto

lemma neighbours_distinct: "\<not> neighbours (=) (sort xs) \<longleftrightarrow> distinct (xs :: 'a::linorder list)"
proof -
  have "\<not> neighbours (=) ys \<longleftrightarrow> distinct ys" if "sorted ys" for ys :: "'a list"
    using that
  proof (induction ys)
    case (Cons y ys)
    then show ?case by (cases ys) auto
  qed simp
  then show ?thesis by (metis distinct_sort sorted_sort)
qed

definition apart :: "('a \<Rightarrow> u64) \<Rightarrow> ('a \<Rightarrow> u64) \<Rightarrow> 'a \<Rightarrow> 'a \<Rightarrow> bool" where
  "apart lo hi a b \<longleftrightarrow> hi a < lo b \<or> hi b < lo a"

lemma neighbours_apart:
  assumes "\<forall>a\<in>set xs. lo a \<le> hi a"
  shows "\<not> neighbours (\<lambda>a b. lo b \<le> hi a) (sort_key (\<lambda>a. (lo a, hi a, key a :: 'k::linorder)) xs)
    \<longleftrightarrow> sorted_wrt (apart lo hi) xs"
proof -
  have "(\<not> neighbours (\<lambda>a b. lo b \<le> hi a) ys) \<longleftrightarrow> sorted_wrt (apart lo hi) ys"
    if "sorted (map (\<lambda>a. (lo a, hi a, key a)) ys)" "\<forall>a\<in>set ys. lo a \<le> hi a" for ys
    using that
  proof (induction ys)
    case (Cons y ys)
    have order: "lo y \<le> lo z" if "z \<in> set ys" for z using Cons.prems(1) that by auto
    have one: "apart lo hi y z \<longleftrightarrow> hi y < lo z" if "z \<in> set ys" for z
      using order [OF that] Cons.prems(2) that by (auto simp: apart_def)
    have head: "(\<forall>z\<in>set ys. hi y < lo z) \<longleftrightarrow> (ys = [] \<or> hi y < lo (hd ys))"
      using Cons.prems(1) by (cases ys) (auto intro: less_le_trans)
    have "\<not> neighbours (\<lambda>a b. lo b \<le> hi a) (y # ys) \<longleftrightarrow>
        (ys = [] \<or> hi y < lo (hd ys)) \<and> \<not> neighbours (\<lambda>a b. lo b \<le> hi a) ys"
      by (cases ys) auto
    then show ?case using Cons one head by auto
  qed simp
  from this [of "sort_key (\<lambda>a. (lo a, hi a, key a)) xs"] show ?thesis
    using assms sorted_wrt_sort [of "apart lo hi" "\<lambda>a. (lo a, hi a, key a)" xs] by (auto simp: apart_def)
qed

section \<open>The slots of an array\<close>

definition entry_at :: "u8 list \<Rightarrow> nat \<Rightarrow> u8 list" where
  "entry_at arr i = sub_list (i * 128) (i * 128 + 128) arr"

fun used_slots :: "nat \<Rightarrow> gpt_slot option list \<Rightarrow> (nat \<times> gpt_slot) list" where
  "used_slots index [] = []"
| "used_slots index (None # slots) = used_slots (index + 1) slots"
| "used_slots index (Some s # slots) = (index, s) # used_slots (index + 1) slots"

lemma in_used_slots: "(i, s) \<in> set (used_slots index slots) \<longleftrightarrow> index \<le> i \<and> i - index < length slots \<and> slots ! (i - index) = Some s"
proof (induction index slots rule: used_slots.induct)
  case (2 index slots)
  then show ?case by (cases "i = index") (auto simp: nth_Cons' Suc_diff_Suc)
next
  case (3 index t slots)
  then show ?case by (cases "i = index") (auto simp: nth_Cons' Suc_diff_Suc)
qed simp

lemma concat_entry_at:
  "\<forall>b\<in>set bs. length b = 128 \<Longrightarrow> i < length bs \<Longrightarrow> entry_at (concat bs) i = bs ! i"
proof (induction bs arbitrary: i)
  case (Cons b bs)
  show ?case
  proof (cases i)
    case (Suc j)
    have "entry_at (concat (b # bs)) (Suc j) = entry_at (concat bs) j"
      using Cons.prems(1) by (simp add: entry_at_def sub_list_def add.commute)
    then show ?thesis using Cons by (simp add: Suc)
  qed (use Cons.prems in \<open>simp add: entry_at_def sub_list_def\<close>)
qed simp

lemma concat_entries: "128 * n \<le> length arr \<Longrightarrow> concat (map (entry_at arr) [0..<n]) = take (128 * n) arr"
proof (induction n)
  case (Suc n)
  then have "take (128 * n) arr @ entry_at arr n = take (128 * Suc n) arr"
    using sub_list_join [of 0 "128 * n" "128 * Suc n" arr] by (simp add: entry_at_def take_sub_list mult.commute add.commute)
  then show ?case using Suc by simp
qed simp

text \<open>An array whose entries are all accepted is the printed form of its slots, and conversely.\<close>

lemma array_slots:
  assumes len: "length arr = 128 * n"
    and ok: "\<And>i slot. P i slot \<Longrightarrow> \<forall>s. slot = Some s \<longrightarrow> slot_ok a z s"
  shows "(\<forall>i<n. show_slot (decode_slot (entry_at arr i)) = entry_at arr i \<and> P i (decode_slot (entry_at arr i)))
    \<longleftrightarrow> (\<forall>i<n. P i (map (\<lambda>i. decode_slot (entry_at arr i)) [0..<n] ! i))
      \<and> arr = concat (map show_slot (map (\<lambda>i. decode_slot (entry_at arr i)) [0..<n]))"
    and "length slots = n \<Longrightarrow> arr = concat (map show_slot slots) \<Longrightarrow> (\<forall>i<n. P i (slots ! i)) \<Longrightarrow>
      map (\<lambda>i. decode_slot (entry_at arr i)) [0..<n] = slots"
proof -
  have entries: "entry_at arr i = show_slot (slots ! i)"
    if "length slots = n" "arr = concat (map show_slot slots)" "\<forall>i<n. P i (slots ! i)" "i < n" for slots i
  proof -
    have "length b = 128" if "b \<in> set (map show_slot slots)" for b
    proof -
      obtain j where "j < n" "b = show_slot (slots ! j)" using \<open>b \<in> _\<close> \<open>length slots = n\<close> by (auto simp: in_set_conv_nth)
      then show ?thesis using length_show_slot [OF ok [of j "slots ! j"]] \<open>\<forall>i<n. P i (slots ! i)\<close> by simp
    qed
    then have "entry_at (concat (map show_slot slots)) i = map show_slot slots ! i"
      using concat_entry_at [of "map show_slot slots" i] that(1,4) by simp
    then show ?thesis using that(1,4) unfolding that(2) [symmetric] by simp
  qed
  let ?slots = "map (\<lambda>i. decode_slot (entry_at arr i)) [0..<n]"
  show "(\<forall>i<n. show_slot (decode_slot (entry_at arr i)) = entry_at arr i \<and> P i (decode_slot (entry_at arr i)))
    \<longleftrightarrow> (\<forall>i<n. P i (?slots ! i)) \<and> arr = concat (map show_slot ?slots)" (is "?l \<longleftrightarrow> ?r")
  proof
    assume all: ?l
    then have "map show_slot ?slots = map (entry_at arr) [0..<n]" by simp
    then have "concat (map show_slot ?slots) = arr" using concat_entries [of n arr] len by (simp del: map_map)
    then show ?r using all by simp
  next
    assume shown: ?r
    have "entry_at arr i = show_slot (?slots ! i)" if "i < n" for i
      by (rule entries [OF _ shown [THEN conjunct2] shown [THEN conjunct1] that]) simp
    then show ?l using shown [THEN conjunct1] by (simp del: upt_conv_Cons)
  qed
  show "?slots = slots" if "length slots = n" "arr = concat (map show_slot slots)" "\<forall>i<n. P i (slots ! i)"
  proof (rule nth_equalityI)
    fix i assume "i < length ?slots"
    then have "i < n" by simp
    then have "entry_at arr i = show_slot (slots ! i)" by (rule entries [OF that])
    moreover have "decode_slot (show_slot (slots ! i)) = slots ! i"
      using decode_show_slot [OF ok [of i "slots ! i"]] that(3) \<open>i < n\<close> by simp
    ultimately show "?slots ! i = slots ! i" using \<open>i < n\<close> by simp
  qed (simp add: that(1))
qed

end
