(* ===== verification/Spec2Isabelle.thy ===== *)
theory Spec2Isabelle
  imports Journal_Codec Stone_Archive_Properties Package_Meta_Properties Boot_Receipt_Properties Fnmatch Vfs_Properties Mountinfo_Properties Mount_Policy_Properties Gpt_Layout
begin

text \<open>
  A model of the parts of Cast that decide whether a system change is safe, with the theorems that say so.
  Cast (\<open>src/\<close>) builds packages, keeps them in repositories, and changes a system by switching \<open>/usr\<close> from one
  immutable state to the next. The parts modelled here are the ones where a decision is computed from data:
  the crash journal of a state switch, the archive format of packages, the metadata and relations of
  packages, the receipt of a boot publication, the tree a package set is laid out in, the file patterns that
  select files, and the parser of the kernel's mount table. System calls, databases, child processes,
  network access and the embedded configuration languages are outside.

  \<^bold>\<open>Shared theories.\<close> \<open>Cast_Prelude\<close> has fallible results, checked machine arithmetic and byte classes, and the
  collection \<open>result_simps\<close> that takes apart a chain of the \<open>?\<close> operator. \<open>Run_Monad\<close> has computations with a
  state and an error. \<open>Text_Prelude\<close> has splitting and joining, \<open>Ordered_Map\<close> the ordered map as a sorted
  association list, with the locales \<open>ordered_map\<close> and \<open>path_map\<close> for what its clients rely on, \<open>Wire_Int\<close> the
  big-endian integers of the archive format.

  \<^bold>\<open>The transition journal\<close> (\<open>forge/src/transition_journal/\<close>). \<open>Journal_Model\<close> has the record and its types
  (\<open>model.rs\<close>), \<open>Journal_Validation\<close> the validation of records and of steps (\<open>validation.rs\<close>),
  \<open>Journal_Successors\<close> the constructors of the next record (\<open>successors.rs\<close>), \<open>Journal_Recovery\<close> the recovery
  policy (\<open>recovery.rs\<close>), \<open>Journal_Codec\<close> the frame of a record on disk (\<open>codec.rs\<close>). \<open>Journal_Steps\<close> shows that
  the constructors make exactly the steps that validation accepts, \<open>Journal_Progress\<close> measures how far a record
  is from its end, and \<open>Journal_Properties\<close> concludes: recovery from every valid record ends in a record that
  may be deleted, in the direction the policy names; a completed rollback undid every step that had been
  started; no journal runs for ever and none is stuck. A record has a 64-bit generation that every step
  increases; the theorems about completion ask for room for the steps left.

  \<^bold>\<open>The archive format\<close> (\<open>stone/src/\<close>). \<open>Stone_Header\<close>, \<open>Stone_Payload\<close> and \<open>Stone_Records\<close> have the headers and
  the records, \<open>Stone_Read\<close> the reader with its limits, \<open>Stone_Write\<close> the writer with its digest and compression
  adapters. \<open>Stone_Properties\<close> has the round trips of records and the bounds on what decoding reserves,
  \<open>Stone_Read_Properties\<close> and \<open>Stone_Archive\<close> the lemmas on whole archives, \<open>Stone_Archive_Properties\<close> the
  round trip of packages, the layout of accepted archives, and the safety of unpacking. The compressor, the
  digest and the allocator are parameters; what is asked of them is the documented behaviour that
  decompression inverts compression.

  \<^bold>\<open>Packages.\<close> \<open>Package_Relation\<close> has dependencies and providers (\<open>stone/src/relation.rs\<close>), \<open>Package_Meta\<close> and
  \<open>Package_Meta_Properties\<close> the metadata of packages and the two decoders of it (\<open>forge/src/package/meta.rs\<close>):
  the strict decoder refines the lenient one, and the encoder is inverse to both.

  \<^bold>\<open>The boot receipt\<close> (\<open>forge/src/boot_publication/\<close>). \<open>Boot_Receipt\<close> has the receipt, its validation and its
  codec, \<open>Boot_Receipt_Properties\<close> shows that the single pass of validation over an ordered map is the pairwise
  specification of paths that do not hide each other on a case-insensitive file system.

  \<^bold>\<open>Files.\<close> \<open>Fnmatch\<close> has the patterns (\<open>fnmatch/src/lib.rs\<close>). \<open>Vfs_Tree\<close> and \<open>Vfs_Properties\<close> have the tree
  (\<open>vfs/src/\<close>): every set of files with normal paths can be built. The arena of nodes is a parameter.

  \<^bold>\<open>The mount table\<close> (\<open>forge/src/linux_fs/mountinfo.rs\<close>). \<open>Mountinfo\<close> has the parser with its work budget,
  deadline and failing allocations; the clock and the allocator are a parameter that answers each question in
  turn. \<open>Mountinfo_Reference\<close> has a pure reader and the refinement, \<open>Mountinfo_Properties\<close> the conclusions.

  \<^bold>\<open>Bounds.\<close> No definition runs on fuel: loops recurse on their input or have a termination proof. Sizes are
  naturals where the code checks them against limits, words where they are stored or may wrap.

  \<^bold>\<open>Not modelled.\<close> The journal store, the retained filesystem operations, the databases, the repositories, the
  client, the containers and the builder are sequences of system calls, SQL or child processes, whose behaviour
  is not in the repository. The configuration languages and the version parser rely on embedded engines. The
  C interface converts pointers around the modelled reader. The user interface prints.
\<close>

end
